(* ===== verification/Prelude.thy ===== *)
theory Prelude
  imports Main
begin

text \<open>
  Shared vocabulary of the development: Python exceptions as values of a sum
  type, the traversal that stops at the first raise, and the string
  primitives of the Python runtime that \<^verbatim>\<open>src/kbr/dbase/__init__.py\<close> calls
  (\<^verbatim>\<open>str.join\<close>, \<^verbatim>\<open>re.sub\<close> on a one-character pattern,
  \<^verbatim>\<open>str.startswith\<close>, the decimal rendering of an \<^verbatim>\<open>int\<close>).
  A Python \<^verbatim>\<open>str\<close> is modelled as \<^typ>\<open>string\<close>; every lemma here is about
  lists of characters and does not depend on the character set.

  The collections \<open>res_simps\<close> (the result type) and \<open>str_simps\<close> (the string
  primitives) carry the component proofs.
\<close>

named_theorems res_simps "rewrite rules of the result type and its traversal"
named_theorems str_simps "rewrite rules of the modelled string primitives"

section \<open>Exceptions as values\<close>

text \<open>
  One constructor per exception class the module raises or lets through; the
  argument is the message (for \<open>KeyError\<close> the missing key, for
  \<open>AttributeError\<close> the missing attribute). \<open>DriverError\<close> stands for whatever
  the database driver raises.
\<close>

datatype pyerr =
    RuntimeError string
  | AttributeError string
  | KeyError string
  | IndexError string
  | TypeError string
  | DriverError string

type_synonym 'a res = "pyerr + 'a"

definition bind_res :: "'a res \<Rightarrow> ('a \<Rightarrow> 'b res) \<Rightarrow> 'b res" where
  "bind_res m f = (case m of Inl e \<Rightarrow> Inl e | Inr x \<Rightarrow> f x)"

text \<open>
  \<^verbatim>\<open>map(f, xs)\<close> consumed by \<^verbatim>\<open>join\<close>: the elements are computed left to right
  and the first exception ends the traversal.
\<close>

primrec mapM_res :: "('a \<Rightarrow> 'b res) \<Rightarrow> 'a list \<Rightarrow> 'b list res" where
  "mapM_res f [] = Inr []"
| "mapM_res f (x # xs) =
     bind_res (f x) (\<lambda>y. bind_res (mapM_res f xs) (\<lambda>ys. Inr (y # ys)))"

definition is_ok :: "'a res \<Rightarrow> bool" where
  "is_ok m = (case m of Inl _ \<Rightarrow> False | Inr _ \<Rightarrow> True)"

lemma bind_res_Inl [simp, res_simps]: "bind_res (Inl e) f = Inl e"
  by (simp add: bind_res_def)

lemma bind_res_Inr [simp, res_simps]: "bind_res (Inr x) f = f x"
  by (simp add: bind_res_def)

lemma bind_res_eq_Inr [res_simps]:
  "bind_res m f = Inr y \<longleftrightarrow> (\<exists>x. m = Inr x \<and> f x = Inr y)"
  by (cases m) simp_all

lemma bind_res_eq_Inl [res_simps]:
  "bind_res m f = Inl e \<longleftrightarrow> m = Inl e \<or> (\<exists>x. m = Inr x \<and> f x = Inl e)"
  by (cases m) simp_all

lemma bind_res_assoc:
  "bind_res (bind_res m f) g = bind_res m (\<lambda>x. bind_res (f x) g)"
  by (cases m) simp_all

lemma is_ok_simps [simp, res_simps]: "is_ok (Inr x)" "\<not> is_ok (Inl e)"
  by (simp_all add: is_ok_def)

lemma is_ok_iff: "is_ok m \<longleftrightarrow> (\<exists>x. m = Inr x)"
  by (cases m) simp_all

lemma mapM_res_eq_Inr [res_simps]:
  "mapM_res f xs = Inr ys \<longleftrightarrow> map f xs = map Inr ys"
proof (induction xs arbitrary: ys)
  case Nil
  show ?case by auto
next
  case (Cons x xs)
  show ?case
  proof (cases ys)
    case Nil
    then show ?thesis by (auto simp: bind_res_eq_Inr)
  next
    case (Cons y ys')
    with Cons.IH [of ys'] show ?thesis by (auto simp: bind_res_eq_Inr)
  qed
qed

lemma mapM_res_all_Inr [res_simps]:
  "mapM_res (\<lambda>x. Inr (g x)) xs = Inr (map g xs)"
  by (induction xs) simp_all

lemma mapM_res_cong:
  "(\<And>x. x \<in> set xs \<Longrightarrow> f x = g x) \<Longrightarrow> mapM_res f xs = mapM_res g xs"
  by (induction xs) simp_all

lemma mapM_res_length: "mapM_res f xs = Inr ys \<Longrightarrow> length ys = length xs"
  by (simp add: mapM_res_eq_Inr) (metis length_map)

lemma mapM_res_Inl_first:
  "f x = Inl e \<Longrightarrow> (\<And>y. y \<in> set pre \<Longrightarrow> is_ok (f y)) \<Longrightarrow>
   mapM_res f (pre @ x # post) = Inl e"
proof (induction pre)
  case Nil
  then show ?case by simp
next
  case (Cons p pre)
  then obtain v where "f p = Inr v" by (auto simp: is_ok_iff)
  with Cons show ?case by simp
qed

lemma mapM_res_eq_Inl:
  "(\<exists>e. mapM_res f xs = Inl e) \<longleftrightarrow> (\<exists>x \<in> set xs. \<not> is_ok (f x))"
proof (induction xs)
  case Nil
  show ?case by simp
next
  case (Cons x xs)
  show ?case
  proof (cases "f x")
    case (Inl e)
    then show ?thesis by simp
  next
    case (Inr y)
    with Cons show ?thesis by (cases "mapM_res f xs") auto
  qed
qed

section \<open>Characters\<close>

abbreviation sq :: char where "sq \<equiv> CHR 0x27"
abbreviation bslash :: char where "bslash \<equiv> CHR 0x5C"
abbreviation colon :: char where "colon \<equiv> CHR 0x3A"

definition is_digit :: "char \<Rightarrow> bool" where
  "is_digit c \<longleftrightarrow> (48::nat) \<le> of_char c \<and> of_char c \<le> (57::nat)"

definition digit_char :: "nat \<Rightarrow> char" where
  "digit_char d = char_of (48 + d)"

definition digit_val :: "char \<Rightarrow> nat" where
  "digit_val c = of_char c - 48"

lemma digit_val_digit_char [simp, str_simps]: "d < 10 \<Longrightarrow> digit_val (digit_char d) = d"
  by (simp add: digit_val_def digit_char_def)

lemma is_digit_digit_char [simp, str_simps]: "d < 10 \<Longrightarrow> is_digit (digit_char d)"
  by (simp add: is_digit_def digit_char_def)

lemma digit_char_digit_val [simp, str_simps]: "is_digit c \<Longrightarrow> digit_char (digit_val c) = c"
  by (simp add: is_digit_def digit_char_def digit_val_def)

lemma digit_val_less [simp, str_simps]: "is_digit c \<Longrightarrow> digit_val c < 10"
  by (auto simp: is_digit_def digit_val_def)

lemma is_digit_not_special [simp, str_simps]:
  "\<not> is_digit sq" "\<not> is_digit bslash" "\<not> is_digit colon" "\<not> is_digit CHR ''-''"
  "\<not> is_digit CHR '' ''" "\<not> is_digit CHR ''.''"
  by (simp_all add: is_digit_def)

section \<open>Strings\<close>

text \<open>\<^verbatim>\<open>sep.join(xs)\<close>: the elements with the separator between neighbours.\<close>

fun str_join :: "'a list \<Rightarrow> 'a list list \<Rightarrow> 'a list" where
  "str_join sep [] = []"
| "str_join sep [x] = x"
| "str_join sep (x # y # ys) = x @ sep @ str_join sep (y # ys)"

text \<open>
  \<^verbatim>\<open>re.sub(c, rep, s)\<close> for a pattern that is one literal character: every
  occurrence of \<open>c\<close> is replaced by \<open>rep\<close>, left to right.
\<close>

definition re_sub :: "'a \<Rightarrow> 'a list \<Rightarrow> 'a list \<Rightarrow> 'a list" where
  "re_sub c rep s = concat (map (\<lambda>x. if x = c then rep else [x]) s)"

text \<open>\<^verbatim>\<open>s.startswith(p)\<close>.\<close>

definition startswith :: "'a list \<Rightarrow> 'a list \<Rightarrow> bool" where
  "startswith s p \<longleftrightarrow> take (length p) s = p"

lemma str_join_Cons [str_simps]:
  "xs \<noteq> [] \<Longrightarrow> str_join sep (x # xs) = x @ sep @ str_join sep xs"
  by (cases xs) simp_all

lemma str_join_append [str_simps]:
  "xs \<noteq> [] \<Longrightarrow> ys \<noteq> [] \<Longrightarrow>
   str_join sep (xs @ ys) = str_join sep xs @ sep @ str_join sep ys"
  by (induction sep xs rule: str_join.induct) (simp_all add: str_join_Cons)

lemma set_str_join: "set (str_join sep xs) \<subseteq> set sep \<union> \<Union> (set ` set xs)"
  by (induction sep xs rule: str_join.induct) auto

lemma set_str_join_member:
  "c \<in> set (str_join sep xs) \<Longrightarrow> c \<in> set sep \<or> (\<exists>x \<in> set xs. c \<in> set x)"
  using set_str_join [of sep xs] by auto

lemma length_str_join:
  "length (str_join sep xs) = sum_list (map length xs) + (length xs - 1) * length sep"
  by (induction sep xs rule: str_join.induct) simp_all

lemma re_sub_Nil [simp, str_simps]: "re_sub c rep [] = []"
  by (simp add: re_sub_def)

lemma re_sub_Cons [simp, str_simps]:
  "re_sub c rep (x # s) = (if x = c then rep else [x]) @ re_sub c rep s"
  by (simp add: re_sub_def)

lemma re_sub_append [simp, str_simps]:
  "re_sub c rep (s @ t) = re_sub c rep s @ re_sub c rep t"
  by (simp add: re_sub_def)

lemma re_sub_absent [str_simps]: "c \<notin> set s \<Longrightarrow> re_sub c rep s = s"
  by (induction s) auto

lemma set_re_sub:
  "set (re_sub c rep s) = (set s - {c}) \<union> (if c \<in> set s then set rep else {})"
  by (induction s) auto

lemma startswith_iff [str_simps]: "startswith s p \<longleftrightarrow> (\<exists>r. s = p @ r)"
  unfolding startswith_def
  by (metis append_eq_conv_conj append_take_drop_id)

lemma startswith_Nil [simp, str_simps]: "startswith s []"
  by (simp add: startswith_def)

lemma startswith_Cons [simp, str_simps]:
  "startswith (x # s) (y # p) \<longleftrightarrow> x = y \<and> startswith s p"
  by (simp add: startswith_def)

lemma startswith_Nil_Cons [simp, str_simps]: "\<not> startswith [] (y # p)"
  by (simp add: startswith_def)

section \<open>Scanning with \<open>takeWhile\<close> and \<open>dropWhile\<close>\<close>

lemma list_all_split_While:
  "list_all Q (takeWhile P s) \<Longrightarrow> list_all Q (dropWhile P s) \<Longrightarrow> list_all Q s"
  by (metis list_all_append takeWhile_dropWhile_id)

lemma dropWhile_Cons_not: "dropWhile P s = c # r \<Longrightarrow> \<not> P c"
  using hd_dropWhile [of P s] by fastforce

lemma takeWhile_all: "list_all P s \<Longrightarrow> takeWhile P s = s"
  by (induction s) auto

lemma dropWhile_all: "list_all P s \<Longrightarrow> dropWhile P s = []"
  by (induction s) auto

section \<open>Decimal rendering of integers\<close>

text \<open>
  \<^verbatim>\<open>str(n)\<close> and \<^verbatim>\<open>"{}".format(n)\<close> for a Python \<^verbatim>\<open>int\<close>: the decimal digits,
  most significant first, with a leading minus sign for a negative number.
  \<open>parse_int\<close> reads such a rendering back.
\<close>

fun str_nat :: "nat \<Rightarrow> string" where
  "str_nat n =
     (if n < 10 then [digit_char n] else str_nat (n div 10) @ [digit_char (n mod 10)])"

declare str_nat.simps [simp del]

definition str_int :: "int \<Rightarrow> string" where
  "str_int i = (if i < 0 then CHR ''-'' # str_nat (nat (- i)) else str_nat (nat i))"

definition nat_of_digits :: "string \<Rightarrow> nat" where
  "nat_of_digits s = foldl (\<lambda>a c. 10 * a + digit_val c) 0 s"

definition all_digits :: "string \<Rightarrow> bool" where
  "all_digits s \<longleftrightarrow> s \<noteq> [] \<and> list_all is_digit s"

definition parse_int :: "string \<Rightarrow> int option" where
  "parse_int s =
     (case s of
        [] \<Rightarrow> None
      | c # r \<Rightarrow>
          if c = CHR ''-'' then (if all_digits r then Some (- int (nat_of_digits r)) else None)
          else if all_digits s then Some (int (nat_of_digits s)) else None)"

lemma str_nat_nonempty [simp, str_simps]: "str_nat n \<noteq> []"
  by (subst str_nat.simps) simp

lemma str_nat_digits [simp, str_simps]: "list_all is_digit (str_nat n)"
proof (induction n rule: str_nat.induct)
  case (1 n)
  then show ?case by (subst str_nat.simps) simp
qed

lemma all_digits_str_nat [simp, str_simps]: "all_digits (str_nat n)"
  by (simp add: all_digits_def)

lemma nat_of_digits_snoc [simp]:
  "nat_of_digits (s @ [c]) = 10 * nat_of_digits s + digit_val c"
  by (simp add: nat_of_digits_def)

lemma nat_of_digits_str_nat [simp, str_simps]: "nat_of_digits (str_nat n) = n"
proof (induction n rule: str_nat.induct)
  case (1 n)
  show ?case
  proof (cases "n < 10")
    case True
    then show ?thesis by (subst str_nat.simps) (simp add: nat_of_digits_def)
  next
    case False
    with 1 show ?thesis by (subst str_nat.simps) simp
  qed
qed

lemma str_nat_inj: "str_nat m = str_nat n \<Longrightarrow> m = n"
  by (metis nat_of_digits_str_nat)

lemma hd_str_nat_digit: "is_digit (hd (str_nat n))"
  using str_nat_digits [of n] str_nat_nonempty [of n]
  by (cases "str_nat n") simp_all

lemma parse_int_str_int [simp, str_simps]: "parse_int (str_int i) = Some i"
proof (cases "i < 0")
  case True
  then show ?thesis by (simp add: parse_int_def str_int_def)
next
  case False
  obtain c r where cr: "str_nat (nat i) = c # r"
    by (cases "str_nat (nat i)") simp_all
  with hd_str_nat_digit [of "nat i"] have "c \<noteq> CHR ''-''" by auto
  moreover from cr have "all_digits (c # r)" and "nat_of_digits (c # r) = nat i"
    by (metis all_digits_str_nat, metis nat_of_digits_str_nat)
  ultimately show ?thesis using False cr by (simp add: parse_int_def str_int_def)
qed

lemma str_int_inj: "str_int i = str_int j \<Longrightarrow> i = j"
  by (metis option.inject parse_int_str_int)

lemma set_str_int: "c \<in> set (str_int i) \<Longrightarrow> is_digit c \<or> c = CHR ''-''"
  using str_nat_digits by (auto simp: str_int_def list_all_iff split: if_splits)

lemma str_int_nonempty [simp, str_simps]: "str_int i \<noteq> []"
  by (simp add: str_int_def)

end
