(* ===== verification/PyValue.thy ===== *)
theory PyValue
  imports Prelude
begin

text \<open>
  The values the module handles and the dictionaries it receives.

  Python is dynamically typed: a filter value, a column value or an id is
  \<^verbatim>\<open>None\<close>, a \<^verbatim>\<open>bool\<close>, an \<^verbatim>\<open>int\<close>, a \<^verbatim>\<open>float\<close> or a \<^verbatim>\<open>str\<close>. The code
  inspects such a value in four ways only: \<^verbatim>\<open>is None\<close>, \<^verbatim>\<open>isinstance(v, int)\<close>,
  \<^verbatim>\<open>type_utils.is_number(v)\<close> and \<^verbatim>\<open>str(v)\<close> (also through \<^verbatim>\<open>"{}".format(v)\<close>).
  \<open>pyval\<close> is the tagged variant of these values and one function models each
  inspection. A \<^verbatim>\<open>float\<close> is represented by its rendering \<^verbatim>\<open>str(v)\<close>, the only
  thing the code ever reads of it; \<open>float_repr\<close> says which strings are
  renderings.

  A \<^verbatim>\<open>dict\<close> (keyword arguments, an entry, a row) keeps insertion order, so it
  is an association list with distinct keys (\<open>dict_wf\<close>); \<open>getitem\<close> is
  \<^verbatim>\<open>d[k]\<close> with its \<^verbatim>\<open>KeyError\<close>.
\<close>

section \<open>Values\<close>

datatype pyval =
    PNone
  | PBool bool
  | PInt int
  | PFloat string
  | PStr string

text \<open>\<^verbatim>\<open>str(v)\<close>, which \<^verbatim>\<open>"{}".format(v)\<close> also yields for these types.\<close>

fun py_str :: "pyval \<Rightarrow> string" where
  "py_str PNone = ''None''"
| "py_str (PBool b) = (if b then ''True'' else ''False'')"
| "py_str (PInt i) = str_int i"
| "py_str (PFloat r) = r"
| "py_str (PStr s) = s"

text \<open>\<^verbatim>\<open>isinstance(v, int)\<close>: \<^verbatim>\<open>bool\<close> is a subclass of \<^verbatim>\<open>int\<close>.\<close>

fun isinstance_int :: "pyval \<Rightarrow> bool" where
  "isinstance_int (PInt i) = True"
| "isinstance_int (PBool b) = True"
| "isinstance_int v = False"

section \<open>Numeric detection\<close>

text \<open>
  \<^verbatim>\<open>kbr.type_utils.is_number\<close> is not part of this repository; the
  specification describes it as a numeric-detection predicate that is not a
  strict type check. The model: every \<^verbatim>\<open>int\<close>, \<^verbatim>\<open>bool\<close> and \<^verbatim>\<open>float\<close> is a
  number, \<^verbatim>\<open>None\<close> is not, and a \<^verbatim>\<open>str\<close> is one when it is a decimal literal:
  an optional sign, digits with an optional fraction point, and an optional
  exponent. (\<^verbatim>\<open>float()\<close> accepts a few more spellings, such as surrounding
  blanks; none of them contains a quote.)
\<close>

definition strip_sign :: "string \<Rightarrow> string" where
  "strip_sign s =
     (case s of [] \<Rightarrow> [] | c # r \<Rightarrow> if c = CHR ''+'' \<or> c = CHR ''-'' then r else s)"

definition is_mantissa :: "string \<Rightarrow> bool" where
  "is_mantissa s =
     (case dropWhile is_digit s of
        [] \<Rightarrow> s \<noteq> []
      | c # f \<Rightarrow> c = CHR ''.'' \<and> list_all is_digit f \<and> (takeWhile is_digit s \<noteq> [] \<or> f \<noteq> []))"

definition exp_mark :: "char \<Rightarrow> bool" where
  "exp_mark c \<longleftrightarrow> c = CHR ''e'' \<or> c = CHR ''E''"

definition numeric_literal :: "string \<Rightarrow> bool" where
  "numeric_literal s =
     (let u = strip_sign s in
      is_mantissa (takeWhile (\<lambda>c. \<not> exp_mark c) u) \<and>
      (case dropWhile (\<lambda>c. \<not> exp_mark c) u of
         [] \<Rightarrow> True
       | c # e \<Rightarrow> all_digits (strip_sign e)))"

definition float_repr :: "string \<Rightarrow> bool" where
  "float_repr r \<longleftrightarrow> numeric_literal r \<or> r = ''inf'' \<or> r = ''-inf'' \<or> r = ''nan''"

fun is_number :: "pyval \<Rightarrow> bool" where
  "is_number PNone = False"
| "is_number (PBool b) = True"
| "is_number (PInt i) = True"
| "is_number (PFloat r) = True"
| "is_number (PStr s) = numeric_literal s"

text \<open>The characters a number is written with.\<close>

definition num_char :: "char \<Rightarrow> bool" where
  "num_char c \<longleftrightarrow> is_digit c \<or> c \<in> set ''+-.eE''"

fun pyval_wf :: "pyval \<Rightarrow> bool" where
  "pyval_wf (PFloat r) = float_repr r"
| "pyval_wf v = True"

section \<open>Dictionaries\<close>

type_synonym pydict = "(string \<times> pyval) list"
type_synonym row = pydict

abbreviation keys :: "pydict \<Rightarrow> string list" where
  "keys d \<equiv> map fst d"

abbreviation vals :: "pydict \<Rightarrow> pyval list" where
  "vals d \<equiv> map snd d"

definition dict_wf :: "pydict \<Rightarrow> bool" where
  "dict_wf d \<longleftrightarrow> distinct (keys d)"

definition getitem :: "pydict \<Rightarrow> string \<Rightarrow> pyval res" where
  "getitem d k = (case map_of d k of None \<Rightarrow> Inl (KeyError k) | Some v \<Rightarrow> Inr v)"

section \<open>Lemmas on numeric detection\<close>

lemmas numeric_unfold =
  numeric_literal_def strip_sign_def is_mantissa_def exp_mark_def all_digits_def is_digit_def

lemma num_char_not_special [simp]:
  "\<not> num_char sq" "\<not> num_char bslash" "\<not> num_char colon"
  "\<not> num_char CHR '' ''" "\<not> num_char CHR '';''"
  by (simp_all add: num_char_def is_digit_def)

lemma num_char_digit: "is_digit c \<Longrightarrow> num_char c"
  by (simp add: num_char_def)

lemma strip_sign_num_char: "list_all num_char (strip_sign s) \<Longrightarrow> list_all num_char s"
  by (cases s) (auto simp: strip_sign_def num_char_def split: if_splits)

lemma is_mantissa_num_char:
  assumes "is_mantissa s"
  shows "list_all num_char s"
proof (rule list_all_split_While [where P = is_digit])
  show "list_all num_char (takeWhile is_digit s)"
    by (auto simp: list_all_iff num_char_def dest: set_takeWhileD)
  show "list_all num_char (dropWhile is_digit s)"
  proof (cases "dropWhile is_digit s")
    case Nil
    then show ?thesis by (simp only: list.pred_inject)
  next
    case (Cons c f)
    with assms show ?thesis
      by (auto simp: is_mantissa_def list_all_iff num_char_def)
  qed
qed

lemma numeric_literal_num_char:
  assumes "numeric_literal s"
  shows "list_all num_char s"
proof (rule strip_sign_num_char, rule list_all_split_While [where P = "\<lambda>c. \<not> exp_mark c"])
  let ?u = "strip_sign s"
  show "list_all num_char (takeWhile (\<lambda>c. \<not> exp_mark c) ?u)"
    using assms by (auto simp: numeric_literal_def Let_def dest: is_mantissa_num_char)
  show "list_all num_char (dropWhile (\<lambda>c. \<not> exp_mark c) ?u)"
  proof (cases "dropWhile (\<lambda>c. \<not> exp_mark c) ?u")
    case Nil
    then show ?thesis by (simp only: list.pred_inject)
  next
    case (Cons c e)
    then have "exp_mark c" by (auto dest: dropWhile_Cons_not)
    moreover from assms Cons have "list_all num_char (strip_sign e)"
      by (auto simp: numeric_literal_def Let_def all_digits_def list_all_iff num_char_def)
    ultimately show ?thesis using Cons
      by (auto simp: exp_mark_def num_char_def dest: strip_sign_num_char)
  qed
qed

lemma numeric_literal_nonempty: "numeric_literal s \<Longrightarrow> s \<noteq> []"
  by (auto simp: numeric_literal_def strip_sign_def Let_def is_mantissa_def)

lemma is_digit_not_exp: "is_digit c \<Longrightarrow> \<not> exp_mark c"
  by (auto simp: is_digit_def exp_mark_def)

lemma is_mantissa_digits: "all_digits s \<Longrightarrow> is_mantissa s"
  by (simp add: is_mantissa_def all_digits_def dropWhile_all)

lemma numeric_literal_signed:
  assumes "all_digits s" and pre: "pre = [] \<or> pre = ''-'' \<or> pre = ''+''"
  shows "numeric_literal (pre @ s)"
proof -
  from assms(1) have d: "list_all (\<lambda>c. \<not> exp_mark c) s"
    by (auto simp: all_digits_def list_all_iff dest: is_digit_not_exp)
  from assms(1) obtain c r where s: "s = c # r" and "is_digit c"
    by (cases s) (auto simp: all_digits_def)
  then have "c \<noteq> CHR ''+''" "c \<noteq> CHR ''-''" by (auto simp: is_digit_def)
  with s pre have "strip_sign (pre @ s) = s" by (auto simp: strip_sign_def)
  with assms(1) d show ?thesis
    by (simp add: numeric_literal_def takeWhile_all dropWhile_all is_mantissa_digits)
qed

lemma numeric_literal_str_int [simp]: "numeric_literal (str_int i)"
  using numeric_literal_signed [of "str_nat n" "''-''" for n]
    numeric_literal_signed [of "str_nat n" "[]" for n]
  by (simp add: str_int_def)

lemma numeric_literal_examples:
  "numeric_literal ''-12.5e+3''" "numeric_literal ''.5''" "numeric_literal ''42''"
  "\<not> numeric_literal ''O'Brien''" "\<not> numeric_literal ''.''"
  "\<not> numeric_literal []" "\<not> numeric_literal ''1e''" "\<not> numeric_literal ''1 OR 1=1''"
  by (simp_all add: numeric_unfold)

lemma num_char_plain:
  "num_char c \<Longrightarrow> c \<noteq> sq \<and> c \<noteq> CHR '' '' \<and> c \<noteq> CHR '';'' \<and> c \<noteq> bslash"
  by (auto simp: num_char_def is_digit_def)

lemma py_str_num_char:
  "is_number v \<Longrightarrow> pyval_wf v \<Longrightarrow>
   list_all num_char (py_str v) \<or> py_str v \<in> {''True'', ''False'', ''inf'', ''-inf'', ''nan''}"
  using numeric_literal_num_char [OF numeric_literal_str_int]
  by (cases v) (auto simp: float_repr_def dest: numeric_literal_num_char)

section \<open>Lemmas on dictionaries\<close>

lemma getitem_Some: "map_of d k = Some v \<Longrightarrow> getitem d k = Inr v"
  by (simp add: getitem_def)

lemma getitem_eq_Inr: "getitem d k = Inr v \<longleftrightarrow> map_of d k = Some v"
  by (simp add: getitem_def split: option.splits)

lemma getitem_eq_Inl: "getitem d k = Inl e \<longleftrightarrow> k \<notin> set (keys d) \<and> e = KeyError k"
  by (auto simp: getitem_def map_of_eq_None_iff [symmetric] split: option.splits)

lemma getitem_singleton [simp]: "getitem [(k, v)] k = Inr v"
  by (simp add: getitem_def)

lemma getitem_singleton_other: "k' \<noteq> k \<Longrightarrow> getitem [(k, v)] k' = Inl (KeyError k')"
  by (simp add: getitem_def)

lemma dict_wf_simps [simp]:
  "dict_wf []"
  "dict_wf ((k, v) # d) \<longleftrightarrow> k \<notin> set (keys d) \<and> dict_wf d"
  by (simp_all add: dict_wf_def)

lemma dict_wf_filter: "dict_wf d \<Longrightarrow> dict_wf (filter P d)"
  by (simp add: dict_wf_def distinct_map_filter)

end
