(* ===== verification/Driver.thy ===== *)
theory Driver
  imports PyValue
begin

text \<open>
  The connection object and the one primitive everything goes through.

  The database driver (the \<^verbatim>\<open>records\<close> package) is outside the repository. It
  is an interface here: a record of the operations the module calls on
  \<^verbatim>\<open>self._db\<close>, over an arbitrary type \<open>'h\<close> of driver handles that holds
  whatever state the database has. Every lemma about the module is proved for
  all drivers; \<open>script_driver\<close> is one implementation, a test double that
  records the statements it receives and answers from a list of replies.

  \<open>DB\<close> is the class \<^verbatim>\<open>DB\<close> with its four attributes. \<^verbatim>\<open>_sqlite\<close> is assigned
  only when the URI starts with \<^verbatim>\<open>sqlite\<close>, so it is an optional field: \<open>None\<close>
  means that reading it raises \<^verbatim>\<open>AttributeError\<close>.

  A method is a function from the object to a result and the object
  afterwards (\<open>dbm\<close>); \<open>ret\<close>, \<open>raise\<close>, \<open>bind\<close> and \<open>catch\<close> compose
  methods the way statements, exceptions and \<^verbatim>\<open>try\<close>/\<^verbatim>\<open>except\<close> do.
\<close>

named_theorems dbm_simps "rewrite rules of the method combinators"
named_theorems frame_intros "methods that change nothing but the driver handle"

section \<open>The driver interface\<close>

record 'h driver =
  drv_connect :: "string \<Rightarrow> 'h res"
  drv_query :: "string \<Rightarrow> bool \<Rightarrow> 'h \<Rightarrow> row list res \<times> 'h"
  drv_get_table_names :: "'h \<Rightarrow> string list res \<times> 'h"
  drv_get_as_dict :: "(string \<Rightarrow> 'h \<Rightarrow> row list res \<times> 'h) option"
  drv_close :: "'h \<Rightarrow> 'h"

section \<open>The connection object\<close>

record 'h DB =
  db_handle :: 'h
  db_uri :: string
  db_fetchall :: bool
  db_sqlite :: "bool option"

type_synonym ('h, 'a) dbm = "'h DB \<Rightarrow> 'a res \<times> 'h DB"

definition ret :: "'a \<Rightarrow> ('h, 'a) dbm" where
  "ret x self = (Inr x, self)"

definition raise :: "pyerr \<Rightarrow> ('h, 'a) dbm" where
  "raise e self = (Inl e, self)"

definition lift :: "'a res \<Rightarrow> ('h, 'a) dbm" where
  "lift r self = (r, self)"

definition bind :: "('h, 'a) dbm \<Rightarrow> ('a \<Rightarrow> ('h, 'b) dbm) \<Rightarrow> ('h, 'b) dbm" where
  "bind m f self = (case m self of (Inl e, self') \<Rightarrow> (Inl e, self') | (Inr x, self') \<Rightarrow> f x self')"

definition catch :: "('h, 'a) dbm \<Rightarrow> (pyerr \<Rightarrow> ('h, 'a) dbm) \<Rightarrow> ('h, 'a) dbm" where
  "catch m h self = (case m self of (Inl e, self') \<Rightarrow> h e self' | (Inr x, self') \<Rightarrow> (Inr x, self'))"

text \<open>Calling a method of the driver on \<^verbatim>\<open>self._db\<close>.\<close>

definition on_handle :: "('h \<Rightarrow> 'a res \<times> 'h) \<Rightarrow> ('h, 'a) dbm" where
  "on_handle f self = (case f (db_handle self) of (r, h) \<Rightarrow> (r, self\<lparr>db_handle := h\<rparr>))"

text \<open>
  \<^verbatim>\<open>__init__\<close>: open the driver's connection, keep the URI, and set the two
  dialect flags from the URI's prefix. The keyword arguments are passed to the
  driver unchanged and are part of \<open>drv_connect\<close>.
\<close>

definition DB_init :: "'h driver \<Rightarrow> string \<Rightarrow> 'h DB res" where
  "DB_init drv uri =
     bind_res (drv_connect drv uri) (\<lambda>h.
       Inr \<lparr>db_handle = h, db_uri = uri,
            db_fetchall = startswith uri ''sqlite'',
            db_sqlite = (if startswith uri ''sqlite'' then Some True else None)\<rparr>)"

definition close :: "'h driver \<Rightarrow> ('h, unit) dbm" where
  "close drv = on_handle (\<lambda>h. (Inr (), drv_close drv h))"

definition table_names :: "'h driver \<Rightarrow> ('h, string list) dbm" where
  "table_names drv = on_handle (drv_get_table_names drv)"

text \<open>\<^verbatim>\<open>do\<close>: hand the statement to the driver with the \<^verbatim>\<open>fetchall\<close> flag.\<close>

definition do :: "'h driver \<Rightarrow> string \<Rightarrow> ('h, row list) dbm" where
  "do drv sql self = on_handle (drv_query drv sql (db_fetchall self)) self"

text \<open>
  \<^verbatim>\<open>get_as_dict\<close>: the driver's result collection as a list of dictionaries. The
  model's driver already answers with such a list, so \<^verbatim>\<open>as_dict()\<close> is the
  identity; \<^verbatim>\<open>count\<close> is the length of \<^verbatim>\<open>all()\<close>.
\<close>

definition get_as_dict :: "'h driver \<Rightarrow> string \<Rightarrow> ('h, row list) dbm" where
  "get_as_dict drv sql = do drv sql"

definition count :: "'h driver \<Rightarrow> string \<Rightarrow> ('h, nat) dbm" where
  "count drv sql = bind (do drv sql) (\<lambda>res. ret (length res))"

text \<open>
  \<^verbatim>\<open>table_exist\<close> calls \<^verbatim>\<open>get_as_dict\<close> on the driver object, not on \<^verbatim>\<open>self\<close>. A
  driver without that method raises \<^verbatim>\<open>AttributeError\<close>; with it, the first row's
  column \<^verbatim>\<open>to_regclass\<close> decides.
\<close>

definition table_exist :: "'h driver \<Rightarrow> string \<Rightarrow> ('h, bool) dbm" where
  "table_exist drv name =
     (let q = ''SELECT to_regclass('' @ [sq] @ name @ [sq] @ '')'' in
      case drv_get_as_dict drv of
        None \<Rightarrow> raise (AttributeError ''get_as_dict'')
      | Some g \<Rightarrow>
          bind (on_handle (g q)) (\<lambda>table.
            case table of
              [] \<Rightarrow> raise (IndexError ''list index out of range'')
            | r # _ \<Rightarrow> bind (lift (getitem r ''to_regclass'')) (\<lambda>v. ret (v \<noteq> PNone))))"

section \<open>Well-formed connections and frames\<close>

text \<open>
  What \<^verbatim>\<open>__init__\<close> establishes between the attributes: on a sqlite URI both
  flags are set, on any other URI \<^verbatim>\<open>_fetchall\<close> is false and \<^verbatim>\<open>_sqlite\<close> does not
  exist.
\<close>

definition DB_wf :: "'h DB \<Rightarrow> bool" where
  "DB_wf self \<longleftrightarrow>
     db_fetchall self = startswith (db_uri self) ''sqlite'' \<and>
     db_sqlite self = (if startswith (db_uri self) ''sqlite'' then Some True else None)"

text \<open>A method that leaves every attribute but the driver handle as it was.\<close>

definition frame :: "('h, 'a) dbm \<Rightarrow> bool" where
  "frame m \<longleftrightarrow> (\<forall>self. \<exists>h. snd (m self) = self\<lparr>db_handle := h\<rparr>)"

section \<open>A scripted driver\<close>

text \<open>
  A test double for the driver: it appends every statement it receives to
  \<open>sent\<close> and answers with the next element of \<open>replies\<close> (a driver error when
  there is none left).
\<close>

record script =
  sent :: "string list"
  replies :: "row list res list"
  tables :: "string list"
  closed :: bool

definition script_query :: "string \<Rightarrow> bool \<Rightarrow> script \<Rightarrow> row list res \<times> script" where
  "script_query sql fetchall h =
     (case replies h of
        [] \<Rightarrow> (Inl (DriverError ''no reply''), h\<lparr>sent := sent h @ [sql]\<rparr>)
      | r # rs \<Rightarrow> (r, h\<lparr>sent := sent h @ [sql], replies := rs\<rparr>))"

definition script_driver :: "script driver" where
  "script_driver =
     \<lparr>drv_connect = (\<lambda>uri. Inr \<lparr>sent = [], replies = [], tables = [], closed = False\<rparr>),
      drv_query = script_query,
      drv_get_table_names = (\<lambda>h. (Inr (tables h), h)),
      drv_get_as_dict = None,
      drv_close = (\<lambda>h. h\<lparr>closed := True\<rparr>)\<rparr>"

definition script_db :: "string \<Rightarrow> row list res list \<Rightarrow> script DB" where
  "script_db uri rs =
     \<lparr>db_handle = \<lparr>sent = [], replies = rs, tables = [], closed = False\<rparr>,
      db_uri = uri,
      db_fetchall = startswith uri ''sqlite'',
      db_sqlite = (if startswith uri ''sqlite'' then Some True else None)\<rparr>"

text \<open>The object with the driver's log and remaining replies set to given lists.\<close>

definition script_state :: "script DB \<Rightarrow> string list \<Rightarrow> row list res list \<Rightarrow> script DB" where
  "script_state self ss rs = self\<lparr>db_handle := (db_handle self)\<lparr>sent := ss, replies := rs\<rparr>\<rparr>"

text \<open>A fresh sqlite object whose database holds the given tables.\<close>

definition script_tables :: "string list \<Rightarrow> script DB" where
  "script_tables ts =
     \<lparr>db_handle = \<lparr>sent = [], replies = [], tables = ts, closed = False\<rparr>,
      db_uri = ''sqlite:///t.db'', db_fetchall = True, db_sqlite = Some True\<rparr>"

section \<open>Lemmas on the combinators\<close>

lemma bind_ret [simp, dbm_simps]: "bind (ret x) f = f x"
  by (simp add: bind_def ret_def fun_eq_iff)

lemma bind_raise [simp, dbm_simps]: "bind (raise e) f = raise e"
  by (simp add: bind_def raise_def fun_eq_iff)

lemma bind_lift_Inr [simp, dbm_simps]: "bind (lift (Inr x)) f = f x"
  by (simp add: bind_def lift_def fun_eq_iff)

lemma bind_lift_Inl [simp, dbm_simps]: "bind (lift (Inl e)) f = raise e"
  by (simp add: bind_def lift_def raise_def fun_eq_iff)

lemma lift_simps [simp, dbm_simps]: "lift (Inr x) = ret x" "lift (Inl e) = raise e"
  by (simp_all add: lift_def ret_def raise_def fun_eq_iff)

lemma bind_ret_right [simp, dbm_simps]: "bind m ret = m"
  by (auto simp: bind_def ret_def fun_eq_iff split: prod.splits sum.splits)

lemma bind_assoc [dbm_simps]: "bind (bind m f) g = bind m (\<lambda>x. bind (f x) g)"
  by (auto simp: bind_def fun_eq_iff split: prod.splits sum.splits)

lemma catch_ret [simp, dbm_simps]: "catch (ret x) h = ret x"
  by (simp add: catch_def ret_def fun_eq_iff)

lemma catch_raise [simp, dbm_simps]: "catch (raise e) h = h e"
  by (simp add: catch_def raise_def fun_eq_iff)

lemma bind_apply_Inr [dbm_simps]: "m self = (Inr x, self') \<Longrightarrow> bind m f self = f x self'"
  by (simp add: bind_def)

lemma bind_apply_Inl [dbm_simps]: "m self = (Inl e, self') \<Longrightarrow> bind m f self = (Inl e, self')"
  by (simp add: bind_def)

lemma catch_apply_Inr [dbm_simps]:
  "m self = (Inr x, self') \<Longrightarrow> catch m h self = (Inr x, self')"
  by (simp add: catch_def)

lemma catch_apply_Inl [dbm_simps]: "m self = (Inl e, self') \<Longrightarrow> catch m h self = h e self'"
  by (simp add: catch_def)

lemma ret_apply [dbm_simps]: "ret x self = (Inr x, self)"
  by (simp add: ret_def)

lemma raise_apply [dbm_simps]: "raise e self = (Inl e, self)"
  by (simp add: raise_def)

lemma bind_eq_Inr:
  "bind m f self = (Inr y, t) \<longleftrightarrow> (\<exists>x u. m self = (Inr x, u) \<and> f x u = (Inr y, t))"
  by (auto simp: bind_def split: prod.splits sum.splits)

lemma bind_eq_Inl:
  "bind m f self = (Inl e, t) \<longleftrightarrow>
     m self = (Inl e, t) \<or> (\<exists>x u. m self = (Inr x, u) \<and> f x u = (Inl e, t))"
  by (auto simp: bind_def split: prod.splits sum.splits)

section \<open>Lemmas on frames\<close>

lemma frameD: "frame m \<Longrightarrow> \<exists>h. snd (m self) = self\<lparr>db_handle := h\<rparr>"
  by (simp add: frame_def)

lemma frame_fields:
  assumes "frame m" and "m self = (r, self')"
  shows "db_uri self' = db_uri self" and "db_fetchall self' = db_fetchall self"
    and "db_sqlite self' = db_sqlite self"
  using frameD [OF assms(1), of self] assms(2) by auto

lemma frame_DB_wf: "frame m \<Longrightarrow> DB_wf self \<Longrightarrow> DB_wf (snd (m self))"
  using frame_fields [of m self "fst (m self)" "snd (m self)"] by (simp add: DB_wf_def)

lemma frame_same: "(\<And>self. snd (m self) = self) \<Longrightarrow> frame m"
  unfolding frame_def
proof
  fix self
  assume "\<And>self. snd (m self) = self"
  then have "snd (m self) = self\<lparr>db_handle := db_handle self\<rparr>" by simp
  then show "\<exists>h. snd (m self) = self\<lparr>db_handle := h\<rparr>" ..
qed

lemma frame_ret [frame_intros]: "frame (ret x)"
  by (rule frame_same) (simp add: ret_def)

lemma frame_raise [frame_intros]: "frame (raise e)"
  by (rule frame_same) (simp add: raise_def)

lemma frame_lift [frame_intros]: "frame (lift r)"
  by (rule frame_same) (simp add: lift_def)

lemma frame_on_handle [frame_intros]: "frame (on_handle f)"
  by (auto simp: frame_def on_handle_def split: prod.splits)

lemma frame_bind [frame_intros]:
  assumes "frame m" and "\<And>x. frame (f x)"
  shows "frame (bind m f)"
  unfolding frame_def
proof
  fix self
  obtain r u where mu: "m self = (r, u)" by (cases "m self")
  from frameD [OF assms(1), of self] mu obtain h where u: "u = self\<lparr>db_handle := h\<rparr>" by auto
  show "\<exists>h. snd (bind m f self) = self\<lparr>db_handle := h\<rparr>"
  proof (cases r)
    case (Inl e)
    with mu u show ?thesis by (auto simp: bind_def)
  next
    case (Inr x)
    from frameD [OF assms(2), of x u] obtain h' where "snd (f x u) = u\<lparr>db_handle := h'\<rparr>" ..
    with mu u Inr show ?thesis by (auto simp: bind_def)
  qed
qed

lemma frame_catch [frame_intros]:
  assumes "frame m" and "\<And>e. frame (h e)"
  shows "frame (catch m h)"
  unfolding frame_def
proof
  fix self
  obtain r u where mu: "m self = (r, u)" by (cases "m self")
  from frameD [OF assms(1), of self] mu obtain k where u: "u = self\<lparr>db_handle := k\<rparr>" by auto
  show "\<exists>k. snd (catch m h self) = self\<lparr>db_handle := k\<rparr>"
  proof (cases r)
    case (Inr x)
    with mu u show ?thesis by (auto simp: catch_def)
  next
    case (Inl e)
    from frameD [OF assms(2), of e u] obtain k' where "snd (h e u) = u\<lparr>db_handle := k'\<rparr>" ..
    with mu u Inl show ?thesis by (auto simp: catch_def)
  qed
qed

lemma frame_if [frame_intros]: "frame m \<Longrightarrow> frame n \<Longrightarrow> frame (if b then m else n)"
  by simp

lemma frame_self: "(\<And>s. frame (f s)) \<Longrightarrow> frame (\<lambda>self. f self self)"
  by (simp add: frame_def)

lemma frame_do [frame_intros]: "frame (do drv sql)"
  by (auto simp: frame_def do_def on_handle_def split: prod.splits)

lemma frame_close [frame_intros]: "frame (close drv)"
  by (simp add: close_def frame_intros)

lemma frame_table_names [frame_intros]: "frame (table_names drv)"
  by (simp add: table_names_def frame_intros)

lemma frame_get_as_dict [frame_intros]: "frame (get_as_dict drv sql)"
  by (simp add: get_as_dict_def frame_intros)

lemma frame_count [frame_intros]: "frame (count drv sql)"
  by (simp add: count_def frame_intros)

lemma frame_table_exist [frame_intros]: "frame (table_exist drv name)"
  by (auto simp: table_exist_def Let_def intro!: frame_intros split: option.splits list.splits)

section \<open>Lemmas on the primitives\<close>

lemma DB_init_wf: "DB_init drv uri = Inr self \<Longrightarrow> DB_wf self"
  by (auto simp: DB_init_def DB_wf_def bind_res_eq_Inr)

lemma DB_init_sqlite:
  "DB_init drv uri = Inr self \<Longrightarrow>
   db_sqlite self = (if startswith uri ''sqlite'' then Some True else None)"
  by (auto simp: DB_init_def bind_res_eq_Inr)

lemma DB_init_error:"drv_connect drv uri = Inl e \<Longrightarrow> DB_init drv uri = Inl e"
  by (simp add: DB_init_def)

lemma script_db_wf [simp]: "DB_wf (script_db uri rs)"
  by (simp add: DB_wf_def script_db_def)

lemma DB_wf_sqlite_cases:
  "DB_wf self \<Longrightarrow> db_sqlite self = Some True \<or> db_sqlite self = None"
  by (auto simp: DB_wf_def)

lemma count_get_as_dict:
  "get_as_dict drv sql self = (Inr rows, self') \<Longrightarrow> count drv sql self = (Inr (length rows), self')"
  by (simp add: count_def get_as_dict_def bind_def ret_apply)

lemma do_error:
  "drv_query drv sql (db_fetchall self) (db_handle self) = (Inl e, h) \<Longrightarrow>
   do drv sql self = (Inl e, self\<lparr>db_handle := h\<rparr>)"
  by (simp add: do_def on_handle_def)

lemma table_exist_rows:
  "drv_get_as_dict drv = Some g \<Longrightarrow> g (''SELECT to_regclass('' @ [sq] @ name @ [sq] @ '')'')
      (db_handle self) = (Inr (r # rows), h) \<Longrightarrow> getitem r ''to_regclass'' = Inr v \<Longrightarrow>
   table_exist drv name self = (Inr (v \<noteq> PNone), self\<lparr>db_handle := h\<rparr>)"
  by (simp add: table_exist_def on_handle_def bind_def ret_apply)

section \<open>Lemmas on the scripted driver\<close>

lemma do_script_state [simp]:
  "do script_driver q (script_state self ss (r # rs)) = (r, script_state self (ss @ [q]) rs)"
  by (simp add: do_def on_handle_def script_driver_def script_query_def script_state_def)

lemma do_script_state_empty [simp]:
  "do script_driver q (script_state self ss []) =
     (Inl (DriverError ''no reply''), script_state self (ss @ [q]) [])"
  by (simp add: do_def on_handle_def script_driver_def script_query_def script_state_def)

lemma table_names_script [simp]:
  "table_names script_driver (script_state self ss rs) =
     (Inr (tables (db_handle self)), script_state self ss rs)"
  by (simp add: table_names_def on_handle_def script_driver_def script_state_def)

lemma script_db_state: "script_db uri rs = script_state (script_db uri []) [] rs"
  by (simp add: script_db_def script_state_def)

lemma script_state_state [simp]:
  "script_state (script_state self ss rs) ss' rs' = script_state self ss' rs'"
  by (simp add: script_state_def)

lemma script_state_fields [simp]:
  "sent (db_handle (script_state self ss rs)) = ss"
  "replies (db_handle (script_state self ss rs)) = rs"
  "db_uri (script_state self ss rs) = db_uri self"
  "db_fetchall (script_state self ss rs) = db_fetchall self"
  "db_sqlite (script_state self ss rs) = db_sqlite self"
  by (simp_all add: script_state_def)

lemma script_db_fields [simp]:
  "db_uri (script_db uri rs) = uri"
  "db_sqlite (script_db uri rs) = (if startswith uri ''sqlite'' then Some True else None)"
  by (simp_all add: script_db_def)

lemma script_state_eq_iff [simp]:
  "script_state self ss rs = script_state self ss' rs' \<longleftrightarrow> ss = ss' \<and> rs = rs'"
proof
  assume eq: "script_state self ss rs = script_state self ss' rs'"
  from arg_cong [OF eq, of "\<lambda>s. sent (db_handle s)"]
    arg_cong [OF eq, of "\<lambda>s. replies (db_handle s)"]
  show "ss = ss' \<and> rs = rs'" by simp
qed simp

section \<open>A method the driver does not have\<close>

text \<open>
  C17. \<^verbatim>\<open>table_exist\<close> asks the driver object, not \<^verbatim>\<open>self\<close>, for \<^verbatim>\<open>get_as_dict\<close>.
  On a driver without that method the call fails with \<^verbatim>\<open>AttributeError\<close>
  before any statement is sent, for every table name.
\<close>

theorem table_exist_no_method:
  assumes "drv_get_as_dict drv = None"
  shows "table_exist drv name self = (Inl (AttributeError ''get_as_dict''), self)"
  using assms by (simp add: table_exist_def raise_apply)

theorem table_exist_no_method_witness:
  "table_exist script_driver ''t'' (script_db ''postgresql://host/db'' [Inr []]) =
     (Inl (AttributeError ''get_as_dict''), script_db ''postgresql://host/db'' [Inr []])"
  using table_exist_no_method [of script_driver "''t''" "script_db ''postgresql://host/db'' [Inr []]"]
  by (simp add: script_driver_def)

end
