(* ===== verification/Escaper.thy ===== *)
theory Escaper
  imports Driver
begin

text \<open>
  \<^verbatim>\<open>DB.escape_string\<close>, the function every value of an INSERT or UPDATE passes
  through, and the reading side it has to agree with.

  The reading side is not code of the repository. \<open>sql_literal\<close> is the SQL
  lexer's rule for a string literal (it starts and ends with a quote, and a
  doubled quote inside stands for one quote); \<open>unescape_colon\<close> is what the
  driver's statement preprocessing does to a backslash before a colon, which
  is why the sqlite branch writes one. The round-trip lemmas say that a
  literal written by \<open>escape_string\<close> is read back as the text it was made
  from, and that the reader stops exactly at the literal's end.
\<close>

section \<open>Writing a literal\<close>

definition escape_string :: "'h DB \<Rightarrow> pyval \<Rightarrow> string res" where
  "escape_string self string =
     (if is_number string then Inr (py_str string)
      else if string = PNone then Inr ''NULL''
      else
        let s = re_sub sq [sq, sq] (py_str string) in
        case db_sqlite self of
          None \<Rightarrow> Inl (AttributeError ''_sqlite'')
        | Some b \<Rightarrow> Inr ([sq] @ (if b then re_sub colon [bslash, colon] s else s) @ [sq]))"

section \<open>Reading a literal\<close>

fun scan_body :: "string \<Rightarrow> (string \<times> string) option" where
  "scan_body [] = None"
| "scan_body [c] = (if c = sq then Some ([], []) else None)"
| "scan_body (c # d # r) =
     (if c = sq then
        (if d = sq then map_option (apfst ((#) sq)) (scan_body r) else Some ([], d # r))
      else map_option (apfst ((#) c)) (scan_body (d # r)))"

definition sql_literal :: "string \<Rightarrow> (string \<times> string) option" where
  "sql_literal s = (case s of [] \<Rightarrow> None | c # r \<Rightarrow> if c = sq then scan_body r else None)"

fun unescape_colon :: "string \<Rightarrow> string" where
  "unescape_colon (c # d # r) =
     (if c = bslash \<and> d = colon then colon # unescape_colon r
      else c # unescape_colon (d # r))"
| "unescape_colon s = s"

text \<open>The text does not begin with the character \<open>c\<close>.\<close>

definition not_first :: "char \<Rightarrow> string \<Rightarrow> bool" where
  "not_first c s \<longleftrightarrow> (case s of [] \<Rightarrow> True | d # _ \<Rightarrow> d \<noteq> c)"

section \<open>Lemmas on the reader\<close>

lemma not_first_simps [simp]:
  "not_first c []" "not_first c (d # s) \<longleftrightarrow> d \<noteq> c"
  by (simp_all add: not_first_def)

lemma scan_body_plain:
  "c \<noteq> sq \<Longrightarrow> scan_body (c # s) = map_option (apfst ((#) c)) (scan_body s)"
  by (cases s) simp_all

lemma scan_body_close: "not_first sq rest \<Longrightarrow> scan_body (sq # rest) = Some ([], rest)"
  by (cases rest) simp_all

lemma scan_body_re_sub:
  "not_first sq rest \<Longrightarrow> scan_body (re_sub sq [sq, sq] s @ sq # rest) = Some (s, rest)"
  by (induction s) (simp_all add: scan_body_close scan_body_plain)

lemma sql_literal_quoted:
  "not_first sq rest \<Longrightarrow>
   sql_literal ([sq] @ re_sub sq [sq, sq] s @ [sq] @ rest) = Some (s, rest)"
  by (simp add: sql_literal_def scan_body_re_sub)

lemma unescape_colon_plain: "c \<noteq> bslash \<Longrightarrow> unescape_colon (c # s) = c # unescape_colon s"
  by (cases s) simp_all

lemma unescape_colon_bslash:
  "not_first colon s \<Longrightarrow> unescape_colon (bslash # s) = bslash # unescape_colon s"
  by (cases s) simp_all

lemma not_first_re_sub_colon:
  "not_first colon r \<Longrightarrow> not_first colon (re_sub colon [bslash, colon] s @ r)"
  by (cases s) simp_all

lemma unescape_colon_re_sub:
  "not_first colon r \<Longrightarrow>
   unescape_colon (re_sub colon [bslash, colon] s @ r) = s @ unescape_colon r"
proof (induction s)
  case Nil
  then show ?case by simp
next
  case (Cons c s)
  show ?case
  proof (cases "c = bslash")
    case True
    with Cons show ?thesis
      by (simp add: unescape_colon_bslash not_first_re_sub_colon)
  next
    case False
    with Cons show ?thesis by (simp add: unescape_colon_plain)
  qed
qed

text \<open>Reading a literal consumes at least its closing quote.\<close>

lemma scan_body_length: "scan_body s = Some (t, r) \<Longrightarrow> length r < length s"
proof (induction s arbitrary: t rule: scan_body.induct)
  case 1
  then show ?case by simp
next
  case (2 c)
  then show ?case by (simp split: if_splits)
next
  case (3 c d r')
  then show ?case by (fastforce split: if_splits)
qed

text \<open>A quote that is not doubled ends the literal, wherever it stands.\<close>

lemma scan_body_first_quote:
  "sq \<notin> set a \<Longrightarrow> not_first sq b \<Longrightarrow> b \<noteq> [] \<Longrightarrow>
   scan_body (a @ sq # b @ [sq]) = Some (a, b @ [sq])"
proof (induction a)
  case Nil
  then show ?case by (cases b) auto
next
  case (Cons c a)
  then show ?case by (cases a) auto
qed

lemma not_first_unescape_colon:
  "not_first c s \<Longrightarrow> c \<noteq> colon \<Longrightarrow> c \<noteq> bslash \<Longrightarrow> not_first c (unescape_colon s)"
  by (induction s rule: unescape_colon.induct) auto

lemma unescape_colon_literal:
  "unescape_colon ([sq] @ re_sub colon [bslash, colon] s @ [sq] @ rest) =
     [sq] @ s @ [sq] @ unescape_colon rest"
  by (simp add: unescape_colon_plain unescape_colon_re_sub)

section \<open>Lemmas on the writer\<close>

lemma escape_string_number: "is_number v \<Longrightarrow> escape_string self v = Inr (py_str v)"
  by (simp add: escape_string_def)

lemma escape_string_None [simp]: "escape_string self PNone = Inr ''NULL''"
  by (simp add: escape_string_def)

lemma not_number_cases: "\<not> is_number v \<Longrightarrow> v = PNone \<or> (\<exists>s. v = PStr s \<and> \<not> numeric_literal s)"
  by (cases v) simp_all

lemma escape_string_text:
  "\<not> numeric_literal s \<Longrightarrow>
   escape_string self (PStr s) =
     (case db_sqlite self of
        None \<Rightarrow> Inl (AttributeError ''_sqlite'')
      | Some b \<Rightarrow>
          Inr ([sq] @ (if b then re_sub colon [bslash, colon] (re_sub sq [sq, sq] s)
                       else re_sub sq [sq, sq] s) @ [sq]))"
  by (simp add: escape_string_def Let_def)

lemma escape_string_ok_iff:
  "is_ok (escape_string self v) \<longleftrightarrow> is_number v \<or> v = PNone \<or> db_sqlite self \<noteq> None"
  by (auto simp: escape_string_def Let_def split: option.splits)

lemma escape_string_sqlite_total:
  "db_sqlite self = Some b \<Longrightarrow> \<exists>lit. escape_string self v = Inr lit"
  by (auto simp: escape_string_def Let_def)

lemma mapM_escape_sqlite:
  "db_sqlite self = Some b \<Longrightarrow> \<exists>lits. mapM_res (escape_string self) vs = Inr lits"
proof -
  assume "db_sqlite self = Some b"
  then have "\<forall>v \<in> set vs. is_ok (escape_string self v)"
    by (simp add: escape_string_ok_iff)
  then have "\<not> (\<exists>e. mapM_res (escape_string self) vs = Inl e)"
    by (simp add: mapM_res_eq_Inl)
  then show ?thesis by (cases "mapM_res (escape_string self) vs") auto
qed

section \<open>Round trip\<close>

text \<open>
  C1. On a sqlite connection, a text value that is not a number is written as
  a literal that reads back as exactly that text: after the driver has
  removed the backslashes before colons, the SQL lexer started at the literal
  returns the original text and stops at the literal's end, whatever quotes,
  colons or backslashes the text holds and whatever follows the literal
  (unless a further quote follows directly).
\<close>

theorem escape_string_roundtrip:
  assumes "db_sqlite self = Some True" and "\<not> is_number (PStr s)" and "not_first sq rest"
  shows "\<exists>lit. escape_string self (PStr s) = Inr lit \<and>
           sql_literal (unescape_colon (lit @ rest)) = Some (s, unescape_colon rest)"
proof -
  let ?lit = "[sq] @ re_sub colon [bslash, colon] (re_sub sq [sq, sq] s) @ [sq]"
  from assms(1,2) have "escape_string self (PStr s) = Inr ?lit"
    by (simp add: escape_string_text)
  moreover from assms(3) have "not_first sq (unescape_colon rest)"
    by (simp add: not_first_unescape_colon)
  then have "sql_literal (unescape_colon (?lit @ rest)) = Some (s, unescape_colon rest)"
    using unescape_colon_literal [of "re_sub sq [sq, sq] s" rest]
      sql_literal_quoted [of "unescape_colon rest" s] by simp
  ultimately show ?thesis by blast
qed

theorem escape_string_roundtrip_witness:
  "\<exists>lit. escape_string (script_db ''sqlite:///t.db'' []) (PStr (''O'Brien: a'' @ [bslash] @ '':b'')) = Inr lit \<and>
     sql_literal (unescape_colon (lit @ '', 7)'')) = Some (''O'Brien: a'' @ [bslash] @ '':b'', '', 7)'')"
  using escape_string_roundtrip
    [of "script_db ''sqlite:///t.db'' []" "''O'Brien: a'' @ [bslash] @ '':b''" "'', 7)''"]
  by (simp add: script_db_def numeric_unfold)

section \<open>Connections that are not sqlite\<close>

text \<open>
  C8. The constructor sets \<^verbatim>\<open>_sqlite\<close> only for a URI that starts with
  \<^verbatim>\<open>sqlite\<close>. On every other connection \<^verbatim>\<open>escape_string\<close> fails with an
  \<^verbatim>\<open>AttributeError\<close> for every value that is neither a number nor \<^verbatim>\<open>None\<close>:
  text cannot be escaped there.
\<close>

theorem escape_string_unset_sqlite:
  assumes "DB_init drv uri = Inr self" and "\<not> startswith uri ''sqlite''"
    and "\<not> is_number v" and "v \<noteq> PNone"
  shows "escape_string self v = Inl (AttributeError ''_sqlite'')"
  using assms not_number_cases [of v] DB_init_sqlite [OF assms(1)]
  by (auto simp: escape_string_text)

theorem escape_string_unset_sqlite_witness:
  "escape_string (script_db ''postgresql://host/db'' []) (PStr ''bob'') =
     Inl (AttributeError ''_sqlite'')"
  using escape_string_unset_sqlite [of script_driver "''postgresql://host/db''"
     "script_db ''postgresql://host/db'' []" "PStr ''bob''"]
  by (simp add: DB_init_def script_driver_def script_db_def numeric_unfold)

section \<open>Numbers\<close>

text \<open>
  C19. Text that reads as a number is a number for \<^verbatim>\<open>escape_string\<close>: it is
  written unquoted on every connection, so what is written is not a string
  literal and a column of text receives a number. The round trip of texts
  does not extend to these texts.
\<close>

theorem escape_string_numeric_text:
  assumes "numeric_literal s"
  shows "escape_string self (PStr s) = Inr s \<and> sql_literal s = None"
proof -
  from numeric_literal_num_char [OF assms] numeric_literal_nonempty [OF assms]
  have "sql_literal s = None"
    by (cases s) (auto simp: sql_literal_def dest: num_char_plain)
  with assms show ?thesis by (simp add: escape_string_number)
qed

theorem escape_string_numeric_text_witness:
  "escape_string (script_db ''sqlite:///t.db'' []) (PStr ''007'') = Inr ''007'' \<and>
   sql_literal ''007'' = None"
  using escape_string_numeric_text [of "''007''" "script_db ''sqlite:///t.db'' []"]
  by (simp add: numeric_unfold)

end
