(* ===== verification/QueryBuilder.thy ===== *)
theory QueryBuilder
  imports Escaper
begin

text \<open>
  The statement builders of \<^verbatim>\<open>DB\<close>: \<^verbatim>\<open>get\<close>, \<^verbatim>\<open>get_all\<close>, \<^verbatim>\<open>add\<close>, \<^verbatim>\<open>add_bulk\<close>,
  \<^verbatim>\<open>update\<close>, \<^verbatim>\<open>delete\<close>, \<^verbatim>\<open>purge\<close>, \<^verbatim>\<open>drop_table\<close>, \<^verbatim>\<open>drop_tables\<close> and
  \<^verbatim>\<open>from_file\<close>.

  Each method is split the way its body is: a pure function that builds the
  statement text (\<open>get_sql\<close>, \<open>add_sql\<close>, \<open>add_bulk_sql\<close>, \<open>update_sql\<close>,
  \<open>delete_sql\<close>; fallible where \<^verbatim>\<open>escape_string\<close> is called) and the method
  itself, which checks its guards, builds the text and calls \<^verbatim>\<open>do\<close>. The
  texts are character for character those of the format strings, blanks
  included.

  \<^verbatim>\<open>get\<close> takes \<^verbatim>\<open>logic\<close>, \<^verbatim>\<open>order\<close>, \<^verbatim>\<open>limit\<close> and \<^verbatim>\<open>offset\<close> as values of any
  type, as Python does (the annotations are not enforced); \<open>call_get\<close> is the
  call \<^verbatim>\<open>self.get(table, **values)\<close>, which binds the keywords of that name
  to these parameters and the rest to the filter.
\<close>

section \<open>Loops over a list of methods\<close>

fun for_each :: "('a \<Rightarrow> ('h, unit) dbm) \<Rightarrow> 'a list \<Rightarrow> ('h, unit) dbm" where
  "for_each f [] = ret ()"
| "for_each f (x # xs) = bind (f x) (\<lambda>_. for_each f xs)"

section \<open>SELECT\<close>

definition get_filter :: "string \<times> pyval \<Rightarrow> string" where
  "get_filter kv =
     (case kv of (key, value) \<Rightarrow>
        if value \<noteq> PNone then
          (if isinstance_int value then '' '' @ key @ '' = '' @ py_str value
           else '' '' @ key @ '' = '' @ [sq] @ re_sub sq [sq, sq] (py_str value) @ [sq])
        else '' '' @ key @ '' is NULL'')"

definition get_sql :: "string \<Rightarrow> pyval \<Rightarrow> pyval \<Rightarrow> pyval \<Rightarrow> pyval \<Rightarrow> pydict \<Rightarrow> string" where
  "get_sql table logic order limit offset values =
     (let q0 = ''SELECT * FROM '' @ table @ '' '';
          filters = map get_filter values;
          q1 = (if filters \<noteq> []
                then q0 @ '' WHERE '' @ str_join (''  '' @ py_str logic @ '' '') filters
                else q0);
          q2 = (if order \<noteq> PNone then q1 @ '' ORDER BY '' @ py_str order else q1);
          q3 = (if limit \<noteq> PNone then q2 @ '' limit '' @ py_str limit @ '' '' else q2);
          q4 = (if offset \<noteq> PNone then q3 @ '' offset '' @ py_str offset @ '' '' else q3)
      in q4)"

definition get ::
  "'h driver \<Rightarrow> string \<Rightarrow> pyval \<Rightarrow> pyval \<Rightarrow> pyval \<Rightarrow> pyval \<Rightarrow> pydict \<Rightarrow> ('h, row list) dbm"
where
  "get drv table logic order limit offset values =
     get_as_dict drv (get_sql table logic order limit offset values)"

text \<open>The keyword parameters of \<^verbatim>\<open>get\<close> and the value a keyword is bound to.\<close>

definition get_named :: "string list" where
  "get_named = [''logic'', ''order'', ''limit'', ''offset'']"

definition kwarg :: "pydict \<Rightarrow> string \<Rightarrow> pyval \<Rightarrow> pyval" where
  "kwarg kw name dflt = (case map_of kw name of None \<Rightarrow> dflt | Some v \<Rightarrow> v)"

definition call_get :: "'h driver \<Rightarrow> string \<Rightarrow> pydict \<Rightarrow> ('h, row list) dbm" where
  "call_get drv table kw =
     (if ''self'' \<in> set (keys kw) \<or> ''table'' \<in> set (keys kw)
      then raise (TypeError ''got multiple values for argument'')
      else get drv table
             (kwarg kw ''logic'' (PStr ''AND'')) (kwarg kw ''order'' PNone)
             (kwarg kw ''limit'' PNone) (kwarg kw ''offset'' PNone)
             (filter (\<lambda>kv. fst kv \<notin> set get_named) kw))"

definition get_all :: "'h driver \<Rightarrow> string \<Rightarrow> pyval \<Rightarrow> ('h, row list) dbm" where
  "get_all drv table order = get drv table (PStr ''AND'') order PNone PNone []"

section \<open>INSERT\<close>

definition add_sql :: "'h DB \<Rightarrow> string \<Rightarrow> pydict \<Rightarrow> string res" where
  "add_sql self table entry =
     bind_res (mapM_res (escape_string self) (vals entry)) (\<lambda>values.
       Inr (''INSERT INTO '' @ table @ '' ('' @ str_join '','' (keys entry) @
            '') VALUES ('' @ str_join '','' values @ '')''))"

definition add :: "'h driver \<Rightarrow> string \<Rightarrow> pydict \<Rightarrow> ('h, unit) dbm" where
  "add drv table entry self =
     (if entry = [] then raise (RuntimeError ''No values provided'') self
      else bind (lift (add_sql self table entry)) (\<lambda>q.
           bind (do drv q) (\<lambda>_. ret ())) self)"

text \<open>
  The body of the loop of \<^verbatim>\<open>add_bulk\<close>: the key check comes first, then the
  values of the entry are escaped.
\<close>

definition add_bulk_row :: "'h DB \<Rightarrow> string list \<Rightarrow> pydict \<Rightarrow> string res" where
  "add_bulk_row self ks entry =
     (if ks \<noteq> keys entry then Inl (RuntimeError ''Not the same keys in all entries!'')
      else bind_res (mapM_res (escape_string self) (vals entry)) (\<lambda>values.
             Inr (''('' @ str_join '','' values @ '')'')))"

definition add_bulk_sql :: "'h DB \<Rightarrow> string \<Rightarrow> pydict list \<Rightarrow> string res" where
  "add_bulk_sql self table entries =
     (case entries of
        [] \<Rightarrow> Inl (IndexError ''list index out of range'')
      | first # _ \<Rightarrow>
          bind_res (mapM_res (add_bulk_row self (keys first)) entries) (\<lambda>all_values.
            Inr (''INSERT INTO '' @ table @ '' ('' @ str_join '','' (keys first) @
                 '') VALUES '' @ str_join '','' all_values)))"

definition add_bulk :: "'h driver \<Rightarrow> string \<Rightarrow> pydict list \<Rightarrow> ('h, unit) dbm" where
  "add_bulk drv table entries self =
     (if entries = [] then raise (RuntimeError ''No values provided'') self
      else bind (lift (add_bulk_sql self table entries)) (\<lambda>q.
           bind (do drv q) (\<lambda>_. ret ())) self)"

section \<open>UPDATE\<close>

text \<open>
  \<^verbatim>\<open>conditions == []\<close> compares a dictionary with a list: in Python the two are
  never equal, whatever they hold.
\<close>

definition dict_eq_list :: "pydict \<Rightarrow> pyval list \<Rightarrow> bool" where
  "dict_eq_list d l = False"

definition update_item :: "'h DB \<Rightarrow> string \<times> pyval \<Rightarrow> string res" where
  "update_item self kv =
     bind_res (escape_string self (snd kv)) (\<lambda>value. Inr (fst kv @ '' = '' @ value))"

definition update_sql :: "'h DB \<Rightarrow> string \<Rightarrow> pydict \<Rightarrow> pydict \<Rightarrow> string res" where
  "update_sql self table entry conditions =
     bind_res (mapM_res (update_item self)
                 (filter (\<lambda>kv. fst kv \<notin> set (keys conditions)) entry)) (\<lambda>updates.
     bind_res (mapM_res (update_item self) conditions) (\<lambda>conds.
       Inr (''UPDATE '' @ table @ '' set '' @ str_join '', '' updates @
            '' WHERE '' @ str_join '' and '' conds)))"

definition update :: "'h driver \<Rightarrow> string \<Rightarrow> pydict \<Rightarrow> pydict \<Rightarrow> ('h, unit) dbm" where
  "update drv table entry conditions self =
     (if entry = [] then raise (RuntimeError ''No values provided'') self
      else if dict_eq_list conditions [] then raise (RuntimeError ''No conditions provided'') self
      else bind (lift (update_sql self table entry conditions)) (\<lambda>q.
           bind (do drv q) (\<lambda>_. ret ())) self)"

section \<open>DELETE and DROP\<close>

definition delete_sql :: "string \<Rightarrow> pyval \<Rightarrow> string" where
  "delete_sql table idv = ''DELETE FROM  '' @ table @ '' WHERE id = '' @ [sq] @ py_str idv @ [sq]"

definition delete :: "'h driver \<Rightarrow> string \<Rightarrow> pyval \<Rightarrow> ('h, unit) dbm" where
  "delete drv table idv = bind (do drv (delete_sql table idv)) (\<lambda>_. ret ())"

definition purge :: "'h driver \<Rightarrow> string \<Rightarrow> ('h, unit) dbm" where
  "purge drv table = bind (do drv (''DELETE FROM  '' @ table)) (\<lambda>_. ret ())"

definition drop_table :: "'h driver \<Rightarrow> string \<Rightarrow> ('h, unit) dbm" where
  "drop_table drv table_name =
     bind (do drv (''DROP table IF EXISTS '' @ table_name @ '' CASCADE'')) (\<lambda>_. ret ())"

definition drop_tables :: "'h driver \<Rightarrow> ('h, unit) dbm" where
  "drop_tables drv = bind (table_names drv) (for_each (drop_table drv))"

section \<open>Running a script file\<close>

text \<open>
  The file system is a partial function from the names of regular files to
  their contents. \<open>str_split\<close> is \<^verbatim>\<open>str.split\<close> with a one-character separator,
  \<open>is_space\<close> the characters \<^verbatim>\<open>str.strip\<close> removes.
\<close>

definition is_space :: "char \<Rightarrow> bool" where
  "is_space c \<longleftrightarrow> c \<in> {CHR '' '', CHR 0x09, CHR 0x0A, CHR 0x0B, CHR 0x0C, CHR 0x0D}"

definition str_strip :: "string \<Rightarrow> string" where
  "str_strip s = rev (dropWhile is_space (rev (dropWhile is_space s)))"

fun str_split :: "'a \<Rightarrow> 'a list \<Rightarrow> 'a list list" where
  "str_split sep [] = [[]]"
| "str_split sep (c # s) =
     (if c = sep then [] # str_split sep s
      else (case str_split sep s of [] \<Rightarrow> [[c]] | w # ws \<Rightarrow> (c # w) # ws))"

definition str_replace :: "'a \<Rightarrow> 'a \<Rightarrow> 'a list \<Rightarrow> 'a list" where
  "str_replace a b s = map (\<lambda>c. if c = a then b else c) s"

definition file_commands :: "string \<Rightarrow> string list" where
  "file_commands content =
     filter (\<lambda>command. str_strip command \<noteq> [])
       (str_split CHR '';'' (str_replace CHR 0x0A CHR '' '' content))"

definition from_file :: "'h driver \<Rightarrow> (string \<Rightarrow> string option) \<Rightarrow> string \<Rightarrow> ('h, unit) dbm" where
  "from_file drv fs filename =
     (case fs filename of
        None \<Rightarrow> raise (RuntimeError (''Files does not exist '' @ [sq] @ filename @ [sq]))
      | Some content \<Rightarrow>
          for_each (\<lambda>command. bind (do drv command) (\<lambda>_. ret ())) (file_commands content))"

section \<open>Every builder is a frame\<close>

lemma frameI_self: "(\<And>self. \<exists>n. frame n \<and> m self = n self) \<Longrightarrow> frame m"
  unfolding frame_def by metis

lemma frame_for_each [frame_intros]: "(\<And>x. frame (f x)) \<Longrightarrow> frame (for_each f xs)"
  by (induction xs) (simp_all add: frame_intros)

lemma frame_get [frame_intros]: "frame (get drv table logic order limit offset values)"
  unfolding get_def by (intro frame_intros)

lemma frame_call_get [frame_intros]: "frame (call_get drv table kw)"
  unfolding call_get_def by (intro frame_intros)

lemma frame_get_all [frame_intros]: "frame (get_all drv table order)"
  unfolding get_all_def by (intro frame_intros)

text \<open>
  The three writers end the same way: the statement text is built, and only
  if that succeeded it is sent. \<open>send\<close> abbreviates this tail.
\<close>

abbreviation send :: "'h driver \<Rightarrow> string res \<Rightarrow> ('h, unit) dbm" where
  "send drv r \<equiv> bind (lift r) (\<lambda>q. bind (do drv q) (\<lambda>_. ret ()))"

lemma frame_send [frame_intros]: "frame (send drv r)"
  by (intro frame_intros)

lemma frame_add [frame_intros]: "frame (add drv table entry)"
  by (rule frameI_self) (auto simp: add_def intro: frame_intros)

lemma frame_add_bulk [frame_intros]: "frame (add_bulk drv table entries)"
  by (rule frameI_self) (auto simp: add_bulk_def intro: frame_intros)

lemma frame_update [frame_intros]: "frame (update drv table entry conditions)"
  by (rule frameI_self) (auto simp: update_def intro: frame_intros)

lemma frame_delete [frame_intros]: "frame (delete drv table idv)"
  unfolding delete_def by (intro frame_intros)

lemma frame_purge [frame_intros]: "frame (purge drv table)"
  unfolding purge_def by (intro frame_intros)

lemma frame_drop_table [frame_intros]: "frame (drop_table drv table_name)"
  unfolding drop_table_def by (intro frame_intros)

lemma frame_drop_tables [frame_intros]: "frame (drop_tables drv)"
  unfolding drop_tables_def by (intro frame_intros)

lemma frame_from_file [frame_intros]: "frame (from_file drv fs filename)"
  by (auto simp: from_file_def intro!: frame_intros split: option.splits)

section \<open>Lemmas on the guards and on sending\<close>

lemma add_empty: "add drv table [] self = (Inl (RuntimeError ''No values provided''), self)"
  by (simp add: add_def raise_apply)

lemma add_send:
  "entry \<noteq> [] \<Longrightarrow> add drv table entry self = send drv (add_sql self table entry) self"
  by (simp add: add_def)

lemma add_bulk_empty:
  "add_bulk drv table [] self = (Inl (RuntimeError ''No values provided''), self)"
  by (simp add: add_bulk_def raise_apply)

lemma add_bulk_send:
  "entries \<noteq> [] \<Longrightarrow>
   add_bulk drv table entries self = send drv (add_bulk_sql self table entries) self"
  by (simp add: add_bulk_def)

lemma update_empty:
  "update drv table [] conditions self = (Inl (RuntimeError ''No values provided''), self)"
  by (simp add: update_def raise_apply)

lemma update_send:
  "entry \<noteq> [] \<Longrightarrow>
   update drv table entry conditions self = send drv (update_sql self table entry conditions) self"
  by (simp add: update_def dict_eq_list_def)

lemma mapM_res_Inl_elem: "mapM_res f xs = Inl e \<Longrightarrow> \<exists>x \<in> set xs. f x = Inl e"
  by (induction xs) (auto simp: bind_res_eq_Inl)

lemma mapM_res_total:
  "(\<And>x. x \<in> set xs \<Longrightarrow> is_ok (f x)) \<Longrightarrow> \<exists>ys. mapM_res f xs = Inr ys"
  using mapM_res_eq_Inl [of f xs] by (cases "mapM_res f xs") auto

section \<open>Lemmas on the statement texts\<close>

lemma digit_char_numerals [simp]:
  "digit_char 0 = CHR ''0''" "digit_char 1 = CHR ''1''" "digit_char 2 = CHR ''2''"
  "digit_char 3 = CHR ''3''" "digit_char 4 = CHR ''4''" "digit_char 5 = CHR ''5''"
  "digit_char 6 = CHR ''6''" "digit_char 7 = CHR ''7''" "digit_char 8 = CHR ''8''"
  "digit_char 9 = CHR ''9''" "digit_char (Suc 0) = CHR ''1''"
  by code_simp+

lemma get_filter_None: "get_filter (key, PNone) = '' '' @ key @ '' is NULL''"
  by (simp add: get_filter_def)

lemma get_filter_int:
  "isinstance_int v \<Longrightarrow> get_filter (key, v) = '' '' @ key @ '' = '' @ py_str v"
  by (cases v) (simp_all add: get_filter_def)

lemma get_sql_no_filter:
  "get_sql table logic PNone PNone PNone [] = ''SELECT * FROM '' @ table @ '' ''"
  by (simp add: get_sql_def)

lemma call_get_plain:
  "set (keys kw) \<inter> set (''self'' # ''table'' # get_named) = {} \<Longrightarrow>
   call_get drv table kw = get drv table (PStr ''AND'') PNone PNone PNone kw"
proof -
  assume disj: "set (keys kw) \<inter> set (''self'' # ''table'' # get_named) = {}"
  then have "\<And>n. n \<in> set get_named \<Longrightarrow> map_of kw n = None"
    by (auto simp: map_of_eq_None_iff)
  then have "kwarg kw ''logic'' (PStr ''AND'') = PStr ''AND''" "kwarg kw ''order'' PNone = PNone"
    "kwarg kw ''limit'' PNone = PNone" "kwarg kw ''offset'' PNone = PNone"
    by (simp_all add: kwarg_def get_named_def)
  moreover from disj have "filter (\<lambda>kv. fst kv \<notin> set get_named) kw = kw"
    by (auto simp: filter_id_conv)
  ultimately show ?thesis using disj by (simp add: call_get_def)
qed

lemma add_bulk_row_sqlite_error:
  "db_sqlite self = Some b \<Longrightarrow> add_bulk_row self ks entry = Inl e \<Longrightarrow>
   e = RuntimeError ''Not the same keys in all entries!''"
  using mapM_escape_sqlite [of self b "vals entry"]
  by (auto simp: add_bulk_row_def split: if_splits)

lemma add_bulk_row_mismatch: "ks \<noteq> keys entry \<Longrightarrow> \<not> is_ok (add_bulk_row self ks entry)"
  by (simp add: add_bulk_row_def)

lemma update_item_eq_Inr:
  "update_item self kv = Inr s \<longleftrightarrow>
     (\<exists>lit. escape_string self (snd kv) = Inr lit \<and> s = fst kv @ '' = '' @ lit)"
  by (auto simp: update_item_def bind_res_eq_Inr)

lemma update_item_sqlite_ok: "db_sqlite self = Some b \<Longrightarrow> is_ok (update_item self kv)"
  using escape_string_sqlite_total [of self b "snd kv"]
  by (auto simp: update_item_def is_ok_iff)

lemma update_sql_eq_Inr:
  "update_sql self table entry conditions = Inr q \<longleftrightarrow>
     (\<exists>sets conds.
        map (update_item self) (filter (\<lambda>kv. fst kv \<notin> set (keys conditions)) entry) =
          map Inr sets \<and>
        map (update_item self) conditions = map Inr conds \<and>
        q = ''UPDATE '' @ table @ '' set '' @ str_join '', '' sets @
            '' WHERE '' @ str_join '' and '' conds)"
  by (auto simp: update_sql_def bind_res_eq_Inr mapM_res_eq_Inr)

section \<open>Lemmas on loops and on the scripted driver\<close>

lemma for_each_append: "for_each f (xs @ ys) = bind (for_each f xs) (\<lambda>_. for_each f ys)"
  by (induction xs) (simp_all add: bind_assoc)

lemma for_each_stops:
  "for_each f pre self = (Inr (), s1) \<Longrightarrow> f x s1 = (Inl e, s2) \<Longrightarrow>
   for_each f (pre @ x # post) self = (Inl e, s2)"
  by (simp add: for_each_append bind_def)

lemma for_each_do_script:
  "list_all is_ok oks \<Longrightarrow> length oks = length ts \<Longrightarrow>
   for_each (\<lambda>t. bind (do script_driver (f t)) (\<lambda>_. ret ())) ts (script_state self ss (oks @ rs))
     = (Inr (), script_state self (ss @ map f ts) rs)"
proof (induction ts arbitrary: oks ss)
  case Nil
  then show ?case by (simp add: ret_apply)
next
  case (Cons t ts)
  then obtain r oks' where oks: "oks = r # oks'" by (cases oks) auto
  with Cons.prems obtain x where r: "r = Inr x" by (auto simp: is_ok_iff)
  from Cons.prems oks have "list_all is_ok oks'" "length oks' = length ts" by auto
  note IH = Cons.IH [OF this, of "ss @ [f t]"]
  have 1: "bind (do script_driver (f t)) (\<lambda>_. ret ()) (script_state self ss (oks @ rs))
      = (Inr (), script_state self (ss @ [f t]) (oks' @ rs))"
    using oks r by (simp add: bind_def ret_apply)
  show ?case using 1 IH
    by (simp add: bind_def [where m = "bind (do script_driver (f t)) (\<lambda>_. ret ())"])
qed

section \<open>Lemmas on splitting a script\<close>

lemma str_split_nonempty [simp]: "str_split sep s \<noteq> []"
  by (induction s) (auto split: list.splits)

lemma str_join_split: "str_join [sep] (str_split sep s) = s"
proof (induction s)
  case Nil
  show ?case by simp
next
  case (Cons c s)
  obtain w ws where sp: "str_split sep s = w # ws" by (cases "str_split sep s") auto
  with Cons show ?case by (cases ws) (auto simp: str_join_Cons)
qed

lemma str_split_no_sep: "w \<in> set (str_split sep s) \<Longrightarrow> sep \<notin> set w"
  by (induction s arbitrary: w) (auto split: if_splits list.splits)

lemma set_str_split: "w \<in> set (str_split sep s) \<Longrightarrow> x \<in> set w \<Longrightarrow> x \<in> set s"
  by (induction s arbitrary: w) (force split: if_splits list.splits)+

lemma all_dropWhile: "(\<forall>x \<in> set (dropWhile P s). P x) \<longleftrightarrow> (\<forall>x \<in> set s. P x)"
  by (induction s) auto

lemma str_strip_eq_Nil: "str_strip s = [] \<longleftrightarrow> list_all is_space s"
  by (simp add: str_strip_def list_all_iff dropWhile_eq_Nil_conv all_dropWhile)

lemma file_commands_sound:
  assumes "c \<in> set (file_commands content)"
  shows "CHR '';'' \<notin> set c \<and> CHR 0x0A \<notin> set c \<and> \<not> list_all is_space c"
proof -
  from assms have c: "c \<in> set (str_split CHR '';'' (str_replace CHR 0x0A CHR '' '' content))"
    and ne: "str_strip c \<noteq> []" by (auto simp: file_commands_def)
  from c have "CHR '';'' \<notin> set c" by (rule str_split_no_sep)
  moreover from set_str_split [OF c] have "CHR 0x0A \<notin> set c"
    by (auto simp: str_replace_def split: if_splits)
  ultimately show ?thesis using ne by (simp add: str_strip_eq_Nil)
qed

lemma str_split_append:
  "str_split sep (a @ sep # b) = str_split sep a @ str_split sep b"
proof (induction a)
  case Nil
  show ?case by simp
next
  case (Cons c a)
  obtain w ws where "str_split sep a = w # ws" by (cases "str_split sep a") auto
  with Cons show ?case by simp
qed

lemma from_file_missing:
  "fs filename = None \<Longrightarrow>
   from_file drv fs filename self =
     (Inl (RuntimeError (''Files does not exist '' @ [sq] @ filename @ [sq])), self)"
  by (simp add: from_file_def raise_apply)

section \<open>Lemmas on UPDATE and DROP\<close>

text \<open>
  The assignments of an UPDATE are the keys paired with the literals of
  their values, in the order of the dictionary.
\<close>

lemma mapM_update_item:
  "mapM_res (update_item self) d = Inr xs \<longleftrightarrow>
     (\<exists>lits. map (escape_string self) (vals d) = map Inr lits \<and>
             xs = map2 (\<lambda>k lit. k @ '' = '' @ lit) (keys d) lits)"
proof (induction d arbitrary: xs)
  case Nil
  show ?case by auto
next
  case (Cons kv d)
  show ?case
  proof
    assume "mapM_res (update_item self) (kv # d) = Inr xs"
    then obtain x xs' where x: "update_item self kv = Inr x"
      and xs': "mapM_res (update_item self) d = Inr xs'" and xs: "xs = x # xs'"
      by (auto simp: bind_res_eq_Inr)
    from x obtain lit where lit: "escape_string self (snd kv) = Inr lit" "x = fst kv @ '' = '' @ lit"
      by (auto simp: update_item_eq_Inr)
    from xs' Cons.IH [of xs'] obtain lits where "map (escape_string self) (vals d) = map Inr lits"
      "xs' = map2 (\<lambda>k lit. k @ '' = '' @ lit) (keys d) lits" by auto
    with lit xs show "\<exists>lits. map (escape_string self) (vals (kv # d)) = map Inr lits \<and>
             xs = map2 (\<lambda>k lit. k @ '' = '' @ lit) (keys (kv # d)) lits"
      by (intro exI [of _ "lit # lits"]) simp
  next
    assume "\<exists>lits. map (escape_string self) (vals (kv # d)) = map Inr lits \<and>
             xs = map2 (\<lambda>k lit. k @ '' = '' @ lit) (keys (kv # d)) lits"
    then obtain lits where m: "map (escape_string self) (vals (kv # d)) = map Inr lits"
      and xs: "xs = map2 (\<lambda>k lit. k @ '' = '' @ lit) (keys (kv # d)) lits" by blast
    from m obtain lit lits' where l: "lits = lit # lits'" by (cases lits) auto
    with m have "mapM_res (update_item self) d =
        Inr (map2 (\<lambda>k lit. k @ '' = '' @ lit) (keys d) lits')"
      unfolding Cons.IH by auto
    with m xs l show "mapM_res (update_item self) (kv # d) = Inr xs"
      by (simp add: update_item_def)
  qed
qed

lemma mapM_update_item_sqlite:
  assumes "db_sqlite self = Some b"
  shows "\<exists>updates. mapM_res (update_item self) entry = Inr updates"
proof -
  have "\<forall>kv \<in> set entry. is_ok (update_item self kv)"
    using escape_string_sqlite_total [OF assms]
    by (auto simp: update_item_def is_ok_iff bind_res_eq_Inr)
  then show ?thesis
    using mapM_res_eq_Inl [of "update_item self" entry]
    by (cases "mapM_res (update_item self) entry") auto
qed

text \<open>The example of the specification: the key of the condition is not assigned.\<close>

lemma update_spec_example:
  "update_sql (script_db ''sqlite:///t.db'' []) ''t''
     [(''name'', PStr ''x''), (''id'', PInt 1)] [(''id'', PInt 1)]
     = Inr (''UPDATE t set name = 'x' WHERE id = 1'')"
  by code_simp

text \<open>With no condition the statement ends in a dangling \<^verbatim>\<open>WHERE\<close> and is sent.\<close>

lemma update_empty_conditions_example:
  "update script_driver ''t'' [(''name'', PStr ''x'')] [] (script_db ''sqlite:///t.db'' [Inr []]) =
     (Inr (), script_state (script_db ''sqlite:///t.db'' []) [''UPDATE t set name = 'x' WHERE ''] [])"
  by (simp add: script_db_state [of _ "[Inr []]"] update_send update_sql_def update_item_def
        escape_string_def numeric_unfold bind_def ret_apply)

lemma add_script_example:
  "add script_driver ''t'' [(''name'', PStr ''bob''), (''age'', PInt 5), (''x'', PNone)]
     (script_db ''sqlite:///t.db'' [Inr []])
    = (Inr (), script_state (script_db ''sqlite:///t.db'' [])
         [''INSERT INTO t (name,age,x) VALUES ('bob',5,NULL)''] [])"
  by (simp add: script_db_state [of _ "[Inr []]"] add_send add_sql_def escape_string_def
        numeric_unfold bind_def ret_apply str_int_def str_nat.simps)

text \<open>When every statement succeeds, \<^verbatim>\<open>drop_tables\<close> drops every table, in order.\<close>

lemma drop_tables_script:
  assumes "list_all is_ok oks" and "length oks = length (tables (db_handle self))"
  shows "drop_tables script_driver (script_state self ss (oks @ rs)) =
     (Inr (), script_state self
        (ss @ map (\<lambda>t. ''DROP table IF EXISTS '' @ t @ '' CASCADE'') (tables (db_handle self))) rs)"
  using for_each_do_script [OF assms, of "\<lambda>t. ''DROP table IF EXISTS '' @ t @ '' CASCADE''" self ss rs]
  by (simp add: drop_tables_def bind_def drop_table_def [abs_def])

text \<open>
  The filter example of the specification; the text the code emits is spelled
  \<^verbatim>\<open>is NULL\<close>, with two blanks around \<^verbatim>\<open>AND\<close>.
\<close>

lemma get_sql_spec_example:
  "get_sql ''t'' (PStr ''AND'') PNone PNone PNone [(''status'', PNone), (''age'', PInt 5)] =
     ''SELECT * FROM t  WHERE  status is NULL  AND  age = 5''"
  by code_simp

section \<open>Properties of the builders\<close>

text \<open>
  C6. A bulk insert in which some entry's key list differs from the first
  entry's (order included) fails and sends nothing: the object, driver handle
  included, is as before. On a connection on which values can be escaped the
  error is the \<^verbatim>\<open>RuntimeError\<close> of the key check.
\<close>

theorem add_bulk_schema_mismatch:
  assumes "entry \<in> set entries" and "keys entry \<noteq> keys (hd entries)"
  shows "\<exists>e. add_bulk drv table entries self = (Inl e, self) \<and>
           (db_sqlite self \<noteq> None \<longrightarrow> e = RuntimeError ''Not the same keys in all entries!'')"
proof -
  from assms(1) obtain first rest where entries: "entries = first # rest"
    by (cases entries) auto
  let ?f = "add_bulk_row self (keys first)"
  from assms entries have "\<exists>x \<in> set entries. \<not> is_ok (?f x)"
    by (auto intro!: bexI [of _ entry] add_bulk_row_mismatch)
  then obtain e where e: "mapM_res ?f entries = Inl e"
    by (auto simp: mapM_res_eq_Inl [symmetric])
  then obtain x where "?f x = Inl e" by (auto dest: mapM_res_Inl_elem)
  then have "db_sqlite self \<noteq> None \<longrightarrow> e = RuntimeError ''Not the same keys in all entries!''"
    by (auto dest: add_bulk_row_sqlite_error)
  moreover from e entries have "add_bulk drv table entries self = (Inl e, self)"
    by (simp add: add_bulk_send add_bulk_sql_def raise_apply)
  ultimately show ?thesis by blast
qed

theorem add_bulk_schema_mismatch_witness:
  "add_bulk script_driver ''t''
     [[(''a'', PInt 1), (''b'', PInt 2)], [(''b'', PInt 2), (''a'', PInt 1)]]
     (script_db ''sqlite:///t.db'' [Inr []])
   = (Inl (RuntimeError ''Not the same keys in all entries!''), script_db ''sqlite:///t.db'' [Inr []])"
  using add_bulk_schema_mismatch
    [of "[(''b'', PInt 2), (''a'', PInt 1)]"
        "[[(''a'', PInt 1), (''b'', PInt 2)], [(''b'', PInt 2), (''a'', PInt 1)]]"
        script_driver "''t''" "script_db ''sqlite:///t.db'' [Inr []]"]
  by (auto simp: script_db_def)

text \<open>
  C7. A filter value of \<^verbatim>\<open>get\<close> that is neither \<^verbatim>\<open>None\<close> nor an \<^verbatim>\<open>int\<close> is
  written as \<^verbatim>\<open>key = 'literal'\<close>, and the SQL lexer reads the literal back as
  the value's text and stops at its end, whatever quotes the text holds.
\<close>

theorem get_filter_roundtrip:
  assumes "value \<noteq> PNone" and "\<not> isinstance_int value" and "not_first sq rest"
  shows "\<exists>lit. get_filter (key, value) = '' '' @ key @ '' = '' @ lit \<and>
           sql_literal (lit @ rest) = Some (py_str value, rest)"
  using assms sql_literal_quoted [of rest "py_str value"]
  by (auto simp: get_filter_def)

theorem get_filter_roundtrip_witness:
  "\<exists>lit. get_filter (''name'', PStr ''x' OR '1'='1'') = '' name = '' @ lit \<and>
     sql_literal (lit @ ''  AND  age = 5'') = Some (''x' OR '1'='1'', ''  AND  age = 5'')"
  using get_filter_roundtrip [of "PStr ''x' OR '1'='1''" "''  AND  age = 5''" "''name''"]
  by simp

text \<open>
  C10. The guard of \<^verbatim>\<open>update\<close> against missing conditions never fires: for a
  non-empty entry and an empty dictionary of conditions, on an sqlite
  connection, no error is raised; a statement ending in \<^verbatim>\<open>WHERE\<close> followed by
  a blank is built and handed to the driver.
\<close>

theorem update_empty_conditions_not_rejected:
  assumes "entry \<noteq> []" and "db_sqlite self = Some b"
  shows "\<exists>q. update_sql self table entry [] = Inr q \<and> startswith (rev q) (rev '' WHERE '') \<and>
           update drv table entry [] self = bind (do drv q) (\<lambda>_. ret ()) self"
proof -
  from mapM_update_item_sqlite [OF assms(2)] obtain updates
    where u: "mapM_res (update_item self) entry = Inr updates" by blast
  let ?q = "''UPDATE '' @ table @ '' set '' @ str_join '', '' updates @ '' WHERE ''"
  from u have q: "update_sql self table entry [] = Inr ?q"
    by (simp add: update_sql_def)
  moreover have "startswith (rev ?q) (rev '' WHERE '')" by (simp add: startswith_iff)
  moreover from q assms(1) have "update drv table entry [] self = bind (do drv ?q) (\<lambda>_. ret ()) self"
    by (simp add: update_send)
  ultimately show ?thesis by blast
qed

theorem update_empty_conditions_not_rejected_witness:
  "\<exists>q. update_sql (script_db ''sqlite:///t.db'' [Inr []]) ''t'' [(''name'', PStr ''x'')] [] = Inr q \<and>
     startswith (rev q) (rev '' WHERE '') \<and>
     update script_driver ''t'' [(''name'', PStr ''x'')] [] (script_db ''sqlite:///t.db'' [Inr []]) =
       bind (do script_driver q) (\<lambda>_. ret ()) (script_db ''sqlite:///t.db'' [Inr []])"
  using update_empty_conditions_not_rejected
    [of "[(''name'', PStr ''x'')]" "script_db ''sqlite:///t.db'' [Inr []]" True "''t''" script_driver]
  by simp

text \<open>
  C12. On an sqlite connection, \<^verbatim>\<open>add\<close> of a non-empty entry sends exactly one
  statement, \<^verbatim>\<open>INSERT INTO table (keys) VALUES (literals)\<close>, with the keys in
  the entry's order and the literals of the values in the same order, and
  returns what the driver returns for it.
\<close>

theorem add_sends_insert:
  assumes "entry \<noteq> []" and "db_sqlite self = Some b"
  shows "\<exists>lits. map (escape_string self) (vals entry) = map Inr lits \<and>
           add drv table entry self =
             bind (do drv (''INSERT INTO '' @ table @ '' ('' @ str_join '','' (keys entry) @
                           '') VALUES ('' @ str_join '','' lits @ '')'')) (\<lambda>_. ret ()) self"
proof -
  from mapM_escape_sqlite [OF assms(2)] obtain lits
    where lits: "mapM_res (escape_string self) (vals entry) = Inr lits" by blast
  then have "map (escape_string self) (vals entry) = map Inr lits"
    by (simp add: mapM_res_eq_Inr)
  moreover from lits assms(1) have "add drv table entry self =
             bind (do drv (''INSERT INTO '' @ table @ '' ('' @ str_join '','' (keys entry) @
                           '') VALUES ('' @ str_join '','' lits @ '')'')) (\<lambda>_. ret ()) self"
    by (simp add: add_send add_sql_def)
  ultimately show ?thesis by blast
qed

theorem add_sends_insert_witness:
  "\<exists>lits. map (escape_string (script_db ''sqlite:///t.db'' [Inr []]))
             [PStr ''bob'', PInt 5, PNone] = map Inr lits \<and>
     add script_driver ''t'' [(''name'', PStr ''bob''), (''age'', PInt 5), (''x'', PNone)]
       (script_db ''sqlite:///t.db'' [Inr []])
    = bind (do script_driver (''INSERT INTO t (name,age,x) VALUES ('' @ str_join '','' lits @ '')''))
        (\<lambda>_. ret ()) (script_db ''sqlite:///t.db'' [Inr []])"
  using add_sends_insert [of "[(''name'', PStr ''bob''), (''age'', PInt 5), (''x'', PNone)]"
     "script_db ''sqlite:///t.db'' [Inr []]" True script_driver "''t''"]
  by simp

text \<open>
  C13. \<^verbatim>\<open>delete\<close> quotes the id without escaping it: when the text of the id
  holds no quote, the SQL lexer reads the literal of the statement back as
  that text and stops at its end.
\<close>

theorem delete_sql_roundtrip:
  assumes "sq \<notin> set (py_str idv)" and "not_first sq rest"
  shows "\<exists>lit. delete_sql table idv = ''DELETE FROM  '' @ table @ '' WHERE id = '' @ lit \<and>
           sql_literal (lit @ rest) = Some (py_str idv, rest)"
  using assms sql_literal_quoted [of rest "py_str idv"]
  by (auto simp: delete_sql_def re_sub_absent)

theorem delete_sql_roundtrip_witness:
  "\<exists>lit. delete_sql ''t'' (PInt 42) = ''DELETE FROM  t WHERE id = '' @ lit \<and>
           sql_literal (lit @ '';'') = Some (''42'', '';'')"
  using delete_sql_roundtrip [of "PInt 42" "'';''" "''t''"]
  by (simp add: str_int_def str_nat.simps)

text \<open>
  C20. The quotes of the id of a DELETE are not doubled: for an id that holds
  a quote followed by some other character, the literal of the statement
  ends at the first quote of the id, and the rest of the id, with the closing
  quote of the statement, is read as SQL after the literal.
\<close>

theorem delete_sql_unescaped:
  assumes "py_str idv = a @ sq # b" and "sq \<notin> set a" and "not_first sq b" and "b \<noteq> []"
  shows "\<exists>lit. delete_sql table idv = ''DELETE FROM  '' @ table @ '' WHERE id = '' @ lit \<and>
     sql_literal lit = Some (a, b @ [sq])"
  using assms scan_body_first_quote [of a b]
  by (simp add: delete_sql_def sql_literal_def)

theorem delete_sql_unescaped_witness:
  "\<exists>lit. delete_sql ''t'' (PStr (''1' OR '1'='1'')) = ''DELETE FROM  t WHERE id = '' @ lit \<and>
     sql_literal lit = Some (''1'', '' OR '1'='1'' @ [sq])"
  using delete_sql_unescaped [of "PStr (''1' OR '1'='1'')" "''1''" "'' OR '1'='1''" "''t''"]
  by simp

text \<open>
  C14. \<^verbatim>\<open>drop_tables\<close> is not atomic: when dropping a table fails, the error
  is raised at once, the tables before it have been dropped and the tables
  after it are left.
\<close>

theorem drop_tables_stops_at_failure:
  assumes "table_names drv self = (Inr (pre @ t # post), s1)"
    and "for_each (drop_table drv) pre s1 = (Inr (), s2)"
    and "drop_table drv t s2 = (Inl e, s3)"
  shows "drop_tables drv self = (Inl e, s3)"
  using for_each_stops [OF assms(2,3), of post] assms(1)
  by (simp add: drop_tables_def bind_def)

theorem drop_tables_stops_at_failure_witness:
  "drop_tables script_driver
     (script_state (script_tables [''a'', ''b'', ''c'']) [] [Inr [], Inl (DriverError ''locked'')]) =
   (Inl (DriverError ''locked''),
    script_state (script_tables [''a'', ''b'', ''c''])
      [''DROP table IF EXISTS a CASCADE'', ''DROP table IF EXISTS b CASCADE''] [])"
  using drop_tables_stops_at_failure [of script_driver
     "script_state (script_tables [''a'', ''b'', ''c'']) [] [Inr [], Inl (DriverError ''locked'')]"
     "[''a'']" "''b''" "[''c'']"
     "script_state (script_tables [''a'', ''b'', ''c'']) [] [Inr [], Inl (DriverError ''locked'')]"
     "script_state (script_tables [''a'', ''b'', ''c'']) [''DROP table IF EXISTS a CASCADE'']
        [Inl (DriverError ''locked'')]"
     "DriverError ''locked''"
     "script_state (script_tables [''a'', ''b'', ''c''])
      [''DROP table IF EXISTS a CASCADE'', ''DROP table IF EXISTS b CASCADE''] []"]
  by (simp add: drop_table_def bind_def ret_apply script_tables_def)

text \<open>
  C15. \<^verbatim>\<open>from_file\<close> sends the commands of the file, one statement each, in
  the order of the file, when the driver accepts them all; the statements
  sent are exactly \<^verbatim>\<open>file_commands\<close> of the file's content.
\<close>

theorem from_file_sends_commands:
  assumes "fs filename = Some content" and "list_all is_ok oks"
    and "length oks = length (file_commands content)"
  shows "from_file script_driver fs filename (script_state self ss (oks @ rs)) =
           (Inr (), script_state self (ss @ file_commands content) rs)"
  using for_each_do_script [OF assms(2,3), of "\<lambda>c. c" self ss rs] assms(1)
  by (simp add: from_file_def)

theorem from_file_sends_commands_witness:
  "from_file script_driver [''init.sql'' \<mapsto> ''CREATE TABLE t (a int); INSERT INTO t VALUES (1); '']
     ''init.sql''
     (script_state (script_db ''sqlite:///t.db'' []) [] [Inr [], Inr [], Inr [[(''a'', PInt 1)]]]) =
   (Inr (), script_state (script_db ''sqlite:///t.db'' [])
      [''CREATE TABLE t (a int)'', '' INSERT INTO t VALUES (1)''] [Inr [[(''a'', PInt 1)]]])"
  using from_file_sends_commands
    [of "[''init.sql'' \<mapsto> ''CREATE TABLE t (a int); INSERT INTO t VALUES (1); '']"
     "''init.sql''" "''CREATE TABLE t (a int); INSERT INTO t VALUES (1); ''" "[Inr [], Inr []]"
     "script_db ''sqlite:///t.db'' []" "[]" "[Inr [[(''a'', PInt 1)]]]"]
  by (simp add: file_commands_def str_replace_def str_strip_def is_space_def)

lemma str_split_none: "sep \<notin> set c \<Longrightarrow> str_split sep c = [c]"
  by (induction c) auto

lemma str_split_join:
  "cs \<noteq> [] \<Longrightarrow> \<forall>c \<in> set cs. sep \<notin> set c \<Longrightarrow> str_split sep (str_join [sep] cs) = cs"
proof (induction cs)
  case (Cons c cs)
  then show ?case
    by (cases "cs = []") (simp_all add: str_join_Cons str_split_append str_split_none)
qed simp

lemma str_replace_join:
  "a \<notin> set sep \<Longrightarrow>
   str_replace a b (str_join sep cs) = str_join sep (map (str_replace a b) cs)"
proof (induction sep cs rule: str_join.induct)
  case (3 sep x y ys)
  from 3(2) have "str_replace a b sep = sep" unfolding str_replace_def by (induction sep) auto
  with 3 show ?case by (simp add: str_replace_def)
qed (simp_all add: str_replace_def)

text \<open>
  C21. A script written as commands with a semicolon between them is run as
  those commands: \<^verbatim>\<open>from_file\<close> takes each of them, with every newline
  turned into a blank, and skips those that are blank, in the order of the
  script. Every semicolon separates: a statement that holds one in a string
  literal is a script of two commands.
\<close>

theorem file_commands_joined:
  assumes "\<forall>c \<in> set cs. CHR '';'' \<notin> set c"
  shows "file_commands (str_join '';'' cs) =
           filter (\<lambda>c. \<not> list_all is_space c) (map (str_replace CHR 0x0A CHR '' '') cs)"
proof (cases "cs = []")
  case True
  then show ?thesis by (simp add: file_commands_def str_replace_def str_strip_def)
next
  case False
  from assms have "\<forall>c \<in> set (map (str_replace CHR 0x0A CHR '' '') cs). CHR '';'' \<notin> set c"
    by (auto simp: str_replace_def)
  with False show ?thesis
    by (simp add: file_commands_def str_replace_join str_split_join str_strip_eq_Nil)
qed

theorem file_commands_joined_witness:
  "file_commands (''CREATE TABLE t (a text);'' @ [CHR 0x0A] @ ''INSERT INTO t VALUES ('x;y'); '') =
     [''CREATE TABLE t (a text)'', '' INSERT INTO t VALUES ('x'', ''y')'']"
  using file_commands_joined [of "[''CREATE TABLE t (a text)'',
      [CHR 0x0A] @ ''INSERT INTO t VALUES ('x'', ''y')'', '' '']"]
  by (simp add: str_replace_def is_space_def)

end
