(* ===== verification/Accessors.thy ===== *)
theory Accessors
  imports QueryBuilder
begin

text \<open>
  The accessors built on \<^verbatim>\<open>get\<close>: \<^verbatim>\<open>get_single\<close>, \<^verbatim>\<open>get_by_id\<close>, \<^verbatim>\<open>get_id\<close> and
  \<^verbatim>\<open>add_unique\<close>.

  \<^verbatim>\<open>get_single\<close> returns a row or \<^verbatim>\<open>None\<close>: a \<open>row option\<close>. \<^verbatim>\<open>get_id\<close> returns
  \<^verbatim>\<open>None\<close>, the one id, or the list of ids. The first two are the same kind
  of result in Python (an id read from the database may itself be \<^verbatim>\<open>None\<close>),
  so \<open>id_result\<close> has two constructors, not three: \<open>IdScalar\<close> for \<^verbatim>\<open>None\<close> and
  for a single id, \<open>IdList\<close> for two or more. \<^verbatim>\<open>add_unique\<close> tests the result
  with \<^verbatim>\<open>is not None\<close>, that is, against \<open>IdScalar PNone\<close>.
\<close>

section \<open>Definitions\<close>

datatype id_result = IdScalar pyval | IdList "pyval list"

definition get_single :: "'h driver \<Rightarrow> string \<Rightarrow> pydict \<Rightarrow> ('h, row option) dbm" where
  "get_single drv table values =
     bind (call_get drv table values) (\<lambda>values.
       if length values > 1 then raise (RuntimeError ''get_single returned multiple values'')
       else if length values = 1 then ret (Some (hd values))
       else ret None)"

definition get_by_id :: "'h driver \<Rightarrow> string \<Rightarrow> pyval \<Rightarrow> ('h, row option) dbm" where
  "get_by_id drv table value = get_single drv table [(''id'', value)]"

definition get_id :: "'h driver \<Rightarrow> string \<Rightarrow> pydict \<Rightarrow> ('h, id_result) dbm" where
  "get_id drv table values =
     bind (call_get drv table values) (\<lambda>rows.
     bind (lift (mapM_res (\<lambda>res. getitem res ''id'') rows)) (\<lambda>ids.
       if length ids = 0 then ret (IdScalar PNone)
       else if length ids = 1 then ret (IdScalar (hd ids))
       else ret (IdList ids)))"

definition add_unique :: "'h driver \<Rightarrow> string \<Rightarrow> pydict \<Rightarrow> string \<Rightarrow> ('h, id_result) dbm" where
  "add_unique drv table entry key =
     (if entry = [] then raise (RuntimeError ''No values provided'')
      else
        bind (lift (getitem entry key)) (\<lambda>v.
        bind (get_id drv table [(key, v)]) (\<lambda>ids.
          if ids \<noteq> IdScalar PNone then ret ids
          else
            bind (catch (add drv table entry) (\<lambda>e. ret ())) (\<lambda>_.
            bind (lift (getitem entry key)) (\<lambda>v'.
              get_id drv table [(key, v')])))))"

section \<open>Every accessor is a frame\<close>

lemma frame_get_single [frame_intros]: "frame (get_single drv table values)"
  unfolding get_single_def by (intro frame_intros)

lemma frame_get_by_id [frame_intros]: "frame (get_by_id drv table value)"
  unfolding get_by_id_def by (intro frame_intros)

lemma frame_get_id [frame_intros]: "frame (get_id drv table values)"
  unfolding get_id_def by (intro frame_intros)

lemma frame_add_unique [frame_intros]: "frame (add_unique drv table entry key)"
  unfolding add_unique_def by (intro frame_intros)

section \<open>Lemmas on the lookups\<close>

lemma get_id_ids:
  "call_get drv table values self = (Inr rows, s) \<Longrightarrow>
   mapM_res (\<lambda>res. getitem res ''id'') rows = Inr ids \<Longrightarrow>
   get_id drv table values self =
     (Inr (if ids = [] then IdScalar PNone else if length ids = 1 then IdScalar (hd ids)
           else IdList ids), s)"
  by (simp add: get_id_def bind_def ret_apply)

lemma get_by_id_error:
  "call_get drv table [(''id'', value)] self = (Inl e, s) \<Longrightarrow>
   get_by_id drv table value self = (Inl e, s)"
  by (simp add: get_by_id_def get_single_def bind_def)

text \<open>
  The key is read from the entry twice; between the two reads the entry does
  not change, so \<^verbatim>\<open>add_unique\<close> is a lookup, an insert whose error is dropped,
  and the same lookup again.
\<close>

lemma add_unique_unfold:
  "entry \<noteq> [] \<Longrightarrow> getitem entry key = Inr v \<Longrightarrow>
   add_unique drv table entry key =
     bind (get_id drv table [(key, v)]) (\<lambda>ids.
       if ids \<noteq> IdScalar PNone then ret ids
       else bind (catch (add drv table entry) (\<lambda>e. ret ())) (\<lambda>_. get_id drv table [(key, v)]))"
  by (simp add: add_unique_def cong: if_cong)

lemma add_unique_empty:
  "add_unique drv table [] key self = (Inl (RuntimeError ''No values provided''), self)"
  by (simp add: add_unique_def raise_apply)

lemma add_unique_missing_key:
  "entry \<noteq> [] \<Longrightarrow> key \<notin> set (keys entry) \<Longrightarrow>
   add_unique drv table entry key self = (Inl (KeyError key), self)"
  using getitem_eq_Inl [of entry key "KeyError key"]
  by (simp add: add_unique_def raise_apply)

text \<open>Without \<^verbatim>\<open>_sqlite\<close> an entry that holds text cannot be inserted.\<close>

lemma add_without_sqlite:
  assumes "db_sqlite self = None" and "v \<in> set (vals entry)" and "\<not> is_number v" and "v \<noteq> PNone"
  shows "add drv table entry self = (Inl (AttributeError ''_sqlite''), self)"
proof -
  from assms have v: "escape_string self v = Inl (AttributeError ''_sqlite'')"
    by (auto simp: escape_string_def Let_def)
  from assms(2) v have "\<exists>x \<in> set (vals entry). \<not> is_ok (escape_string self x)"
    by (intro bexI [of _ v]) simp_all
  then obtain e where e: "mapM_res (escape_string self) (vals entry) = Inl e"
    unfolding mapM_res_eq_Inl [symmetric] by blast
  then obtain x where "escape_string self x = Inl e" by (auto dest: mapM_res_Inl_elem)
  with assms(1) have "e = AttributeError ''_sqlite''"
    by (auto simp: escape_string_def Let_def split: if_splits)
  moreover from assms(2) have "entry \<noteq> []" by auto
  ultimately show ?thesis using e
    by (simp add: add_send add_sql_def raise_apply)
qed

section \<open>The accessors on the scripted driver\<close>

lemma call_get_script:
  "set (keys kw) \<inter> set (''self'' # ''table'' # get_named) = {} \<Longrightarrow>
   call_get script_driver table kw (script_state self ss (r # rs)) =
     (r, script_state self (ss @ [get_sql table (PStr ''AND'') PNone PNone PNone kw]) rs)"
  by (simp add: call_get_plain get_def get_as_dict_def)

lemma get_sql_name_bob [simp]:
  "get_sql ''t'' (PStr ''AND'') PNone PNone PNone [(''name'', PStr ''bob'')] =
     ''SELECT * FROM t  WHERE  name = 'bob'' @ [sq]"
  by code_simp

lemma call_get_name_bob [simp]:
  "call_get script_driver ''t'' [(''name'', PStr ''bob'')] (script_state self ss (r # rs)) =
     (r, script_state self (ss @ [''SELECT * FROM t  WHERE  name = 'bob'' @ [sq]]) rs)"
  by (simp add: call_get_script get_named_def)

lemma get_id_name_bob:
  "mapM_res (\<lambda>res. getitem res ''id'') rows = Inr ids \<Longrightarrow>
   get_id script_driver ''t'' [(''name'', PStr ''bob'')] (script_state self ss (Inr rows # rs)) =
     (Inr (if ids = [] then IdScalar PNone else if length ids = 1 then IdScalar (hd ids)
           else IdList ids),
      script_state self (ss @ [''SELECT * FROM t  WHERE  name = 'bob'' @ [sq]]) rs)"
  by (rule get_id_ids) simp_all

lemma add_bob_script [simp]:
  "add script_driver ''t'' [(''name'', PStr ''bob''), (''age'', PInt 5)]
     (script_state (script_db ''sqlite:///t.db'' []) ss (r # rs)) =
   (case r of Inl e \<Rightarrow> Inl e | Inr _ \<Rightarrow> Inr (),
    script_state (script_db ''sqlite:///t.db'' [])
      (ss @ [''INSERT INTO t (name,age) VALUES ('bob',5)'']) rs)"
  by (cases r) (simp_all add: add_send add_sql_def escape_string_def
        numeric_unfold bind_def ret_apply str_int_def str_nat.simps)

section \<open>Cardinality of the lookups\<close>

text \<open>
  C5. \<^verbatim>\<open>get_single\<close> sends one query and decides on the number of rows: no row
  gives \<^verbatim>\<open>None\<close>, one row gives that row, and more than one row raises
  \<^verbatim>\<open>RuntimeError\<close>; the connection is left as the query left it.
\<close>

theorem get_single_cardinality:
  assumes "call_get drv table values self = (Inr rows, s)"
  shows "get_single drv table values self =
     (if length rows > 1 then Inl (RuntimeError ''get_single returned multiple values'')
      else if rows = [] then Inr None else Inr (Some (hd rows)), s)"
  using assms by (cases rows) (simp_all add: get_single_def bind_def ret_apply raise_apply)

theorem get_single_cardinality_witness:
  "get_single script_driver ''t'' [(''name'', PStr ''bob'')]
     (script_state (script_db ''sqlite:///t.db'' []) []
        [Inr [[(''id'', PInt 1)], [(''id'', PInt 2)]]]) =
   (Inl (RuntimeError ''get_single returned multiple values''),
    script_state (script_db ''sqlite:///t.db'' []) [''SELECT * FROM t  WHERE  name = 'bob'' @ [sq]] [])"
  using get_single_cardinality [of script_driver "''t''" "[(''name'', PStr ''bob'')]"
    "script_state (script_db ''sqlite:///t.db'' []) [] [Inr [[(''id'', PInt 1)], [(''id'', PInt 2)]]]"
    "[[(''id'', PInt 1)], [(''id'', PInt 2)]]"
    "script_state (script_db ''sqlite:///t.db'' []) [''SELECT * FROM t  WHERE  name = 'bob'' @ [sq]] []"]
  by simp

text \<open>
  C4. \<^verbatim>\<open>get_id\<close> sends one query and returns the ids of the rows in the order
  of the rows: \<^verbatim>\<open>None\<close> for no row, the id itself for one row, the list of
  ids for more; there is one id for every row.
\<close>

theorem get_id_cardinality:
  assumes "call_get drv table values self = (Inr rows, s)"
    and "map (\<lambda>res. getitem res ''id'') rows = map Inr ids"
  shows "get_id drv table values self =
     (Inr (case ids of [] \<Rightarrow> IdScalar PNone | [i] \<Rightarrow> IdScalar i | _ \<Rightarrow> IdList ids), s) \<and>
     length ids = length rows"
proof -
  from assms(2) have "mapM_res (\<lambda>res. getitem res ''id'') rows = Inr ids"
    by (simp add: mapM_res_eq_Inr)
  from get_id_ids [OF assms(1) this] have "get_id drv table values self =
     (Inr (case ids of [] \<Rightarrow> IdScalar PNone | [i] \<Rightarrow> IdScalar i | _ \<Rightarrow> IdList ids), s)"
    by (auto split: list.splits)
  moreover from assms(2) have "length ids = length rows" by (metis length_map)
  ultimately show ?thesis by simp
qed

theorem get_id_cardinality_witness:
  "get_id script_driver ''t'' [(''name'', PStr ''bob'')]
     (script_state (script_db ''sqlite:///t.db'' []) []
        [Inr [[(''id'', PInt 1), (''name'', PStr ''bob'')],
              [(''id'', PInt 2), (''name'', PStr ''bob'')]]]) =
   (Inr (IdList [PInt 1, PInt 2]),
    script_state (script_db ''sqlite:///t.db'' []) [''SELECT * FROM t  WHERE  name = 'bob'' @ [sq]] [])"
  using get_id_cardinality [of script_driver "''t''" "[(''name'', PStr ''bob'')]"
    "script_state (script_db ''sqlite:///t.db'' []) []
        [Inr [[(''id'', PInt 1), (''name'', PStr ''bob'')],
              [(''id'', PInt 2), (''name'', PStr ''bob'')]]]"
    "[[(''id'', PInt 1), (''name'', PStr ''bob'')], [(''id'', PInt 2), (''name'', PStr ''bob'')]]"
    "script_state (script_db ''sqlite:///t.db'' []) [''SELECT * FROM t  WHERE  name = 'bob'' @ [sq]] []"
    "[PInt 1, PInt 2]"]
  by (simp add: getitem_def)

text \<open>
  C18. \<^verbatim>\<open>get_id\<close> reads the column \<^verbatim>\<open>id\<close> of every row: on a table without
  that column it raises \<^verbatim>\<open>KeyError\<close> as soon as the query returns a row.
\<close>

theorem get_id_missing_column:
  assumes "call_get drv table values self = (Inr rows, s)"
    and "r \<in> set rows" and "''id'' \<notin> set (keys r)"
  shows "get_id drv table values self = (Inl (KeyError ''id''), s)"
proof -
  from assms(2,3) obtain e where e: "mapM_res (\<lambda>res. getitem res ''id'') rows = Inl e"
    using mapM_res_eq_Inl [of "\<lambda>res. getitem res ''id''" rows]
    by (auto simp: is_ok_iff getitem_eq_Inr map_of_eq_None_iff [symmetric])
  then have "e = KeyError ''id''" by (auto dest!: mapM_res_Inl_elem simp: getitem_eq_Inl)
  with e assms(1) show ?thesis by (simp add: get_id_def bind_def raise_apply)
qed

theorem get_id_missing_column_witness:
  "get_id script_driver ''t'' [(''name'', PStr ''bob'')]
     (script_state (script_db ''sqlite:///t.db'' []) [] [Inr [[(''name'', PStr ''bob'')]]]) =
   (Inl (KeyError ''id''),
    script_state (script_db ''sqlite:///t.db'' []) [''SELECT * FROM t  WHERE  name = 'bob'' @ [sq]] [])"
  using get_id_missing_column [of script_driver "''t''" "[(''name'', PStr ''bob'')]"
    "script_state (script_db ''sqlite:///t.db'' []) [] [Inr [[(''name'', PStr ''bob'')]]]"
    "[[(''name'', PStr ''bob'')]]"
    "script_state (script_db ''sqlite:///t.db'' []) [''SELECT * FROM t  WHERE  name = 'bob'' @ [sq]] []"
    "[(''name'', PStr ''bob'')]"]
  by simp

section \<open>Insert if absent\<close>

text \<open>
  C3. When the lookup by the key finds an id, \<^verbatim>\<open>add_unique\<close> returns what the
  lookup returned and does nothing else: no INSERT is sent, and the
  connection is in the state the lookup left.
\<close>

theorem add_unique_existing:
  assumes "entry \<noteq> []" and "getitem entry key = Inr v"
    and "get_id drv table [(key, v)] self = (Inr ids, s)" and "ids \<noteq> IdScalar PNone"
  shows "add_unique drv table entry key self = (Inr ids, s)"
  using assms(3,4) by (simp add: add_unique_unfold [OF assms(1,2)] bind_def ret_apply)

theorem add_unique_existing_witness:
  "add_unique script_driver ''t'' [(''name'', PStr ''bob''), (''age'', PInt 5)] ''name''
     (script_state (script_db ''sqlite:///t.db'' []) [] [Inr [[(''id'', PInt 7)]]]) =
   (Inr (IdScalar (PInt 7)),
    script_state (script_db ''sqlite:///t.db'' []) [''SELECT * FROM t  WHERE  name = 'bob'' @ [sq]] [])"
  using add_unique_existing [of "[(''name'', PStr ''bob''), (''age'', PInt 5)]" "''name''"
    "PStr ''bob''" script_driver "''t''"
    "script_state (script_db ''sqlite:///t.db'' []) [] [Inr [[(''id'', PInt 7)]]]"
    "IdScalar (PInt 7)"
    "script_state (script_db ''sqlite:///t.db'' []) [''SELECT * FROM t  WHERE  name = 'bob'' @ [sq]] []"]
  by (simp add: get_id_name_bob [of _ "[PInt 7]"] getitem_def)

text \<open>
  C2. When the lookup finds nothing and the INSERT fails, \<^verbatim>\<open>add_unique\<close> drops
  the error, whatever it is: the result is the result of the second lookup,
  run in the state the failed INSERT left. The caller cannot tell a failed
  insert from a table that holds no such row.
\<close>

theorem add_unique_swallows_insert_failure:
  assumes "entry \<noteq> []" and "getitem entry key = Inr v"
    and "get_id drv table [(key, v)] self = (Inr (IdScalar PNone), s1)"
    and "add drv table entry s1 = (Inl e, s2)"
  shows "add_unique drv table entry key self = get_id drv table [(key, v)] s2"
  using assms(3,4)
  by (simp add: add_unique_unfold [OF assms(1,2)] bind_def catch_def ret_apply)

theorem add_unique_swallows_insert_failure_witness:
  "add_unique script_driver ''t'' [(''name'', PStr ''bob''), (''age'', PInt 5)] ''name''
     (script_state (script_db ''sqlite:///t.db'' []) []
        [Inr [], Inl (DriverError ''UNIQUE constraint failed''), Inr []]) =
   (Inr (IdScalar PNone),
    script_state (script_db ''sqlite:///t.db'' [])
      [''SELECT * FROM t  WHERE  name = 'bob'' @ [sq], ''INSERT INTO t (name,age) VALUES ('bob',5)'',
       ''SELECT * FROM t  WHERE  name = 'bob'' @ [sq]] [])"
  using add_unique_swallows_insert_failure
   [of "[(''name'', PStr ''bob''), (''age'', PInt 5)]" "''name''"
    "PStr ''bob''" script_driver "''t''"
    "script_state (script_db ''sqlite:///t.db'' []) []
        [Inr [], Inl (DriverError ''UNIQUE constraint failed''), Inr []]"
    "script_state (script_db ''sqlite:///t.db'' []) [''SELECT * FROM t  WHERE  name = 'bob'' @ [sq]]
        [Inl (DriverError ''UNIQUE constraint failed''), Inr []]"
    "DriverError ''UNIQUE constraint failed''"
    "script_state (script_db ''sqlite:///t.db'' [])
      [''SELECT * FROM t  WHERE  name = 'bob'' @ [sq], ''INSERT INTO t (name,age) VALUES ('bob',5)'']
        [Inr []]"]
  by (simp add: get_id_name_bob [of _ "[]"] getitem_def)

text \<open>
  C9. On a connection that is not sqlite, \<^verbatim>\<open>add_unique\<close> of an entry that holds
  text never inserts: the statement cannot be built, the \<^verbatim>\<open>AttributeError\<close> is
  dropped, and the lookup is repeated in the state the first lookup left.
\<close>

theorem add_unique_without_sqlite:
  assumes "db_sqlite self = None" and "getitem entry key = Inr v"
    and "w \<in> set (vals entry)" and "\<not> is_number w" and "w \<noteq> PNone"
    and "get_id drv table [(key, v)] self = (Inr (IdScalar PNone), s1)"
  shows "add_unique drv table entry key self = get_id drv table [(key, v)] s1"
proof -
  from assms(3) have ne: "entry \<noteq> []" by auto
  from frame_fields(3) [OF frame_get_id assms(6)] assms(1) have "db_sqlite s1 = None" by simp
  from add_without_sqlite [OF this assms(3-5)] assms(6) show ?thesis
    by (simp add: add_unique_unfold [OF ne assms(2)] bind_def catch_def ret_apply)
qed

theorem add_unique_without_sqlite_witness:
  "add_unique script_driver ''t'' [(''name'', PStr ''bob''), (''age'', PInt 5)] ''name''
     (script_state (script_db ''postgresql://host/db'' []) [] [Inr [], Inr []]) =
   (Inr (IdScalar PNone),
    script_state (script_db ''postgresql://host/db'' [])
      [''SELECT * FROM t  WHERE  name = 'bob'' @ [sq],
       ''SELECT * FROM t  WHERE  name = 'bob'' @ [sq]] [])"
  using add_unique_without_sqlite [of
    "script_state (script_db ''postgresql://host/db'' []) [] [Inr [], Inr []]"
    "[(''name'', PStr ''bob''), (''age'', PInt 5)]" "''name''" "PStr ''bob''" "PStr ''bob''"
    script_driver "''t''"
    "script_state (script_db ''postgresql://host/db'' [])
        [''SELECT * FROM t  WHERE  name = 'bob'' @ [sq]] [Inr []]"]
  by (simp add: get_id_name_bob [of _ "[]"] getitem_def numeric_unfold)

text \<open>
  C16. A row whose id is NULL counts as absent: when the lookup returns one
  row with the id \<^verbatim>\<open>None\<close>, \<^verbatim>\<open>add_unique\<close> inserts the entry again and returns
  the result of the second lookup.
\<close>

theorem add_unique_null_id:
  assumes "entry \<noteq> []" and "getitem entry key = Inr v"
    and "call_get drv table [(key, v)] self = (Inr [r], s1)" and "getitem r ''id'' = Inr PNone"
    and "add drv table entry s1 = (res, s2)"
  shows "add_unique drv table entry key self = get_id drv table [(key, v)] s2"
proof -
  from get_id_ids [OF assms(3), of "[PNone]"] assms(4)
  have "get_id drv table [(key, v)] self = (Inr (IdScalar PNone), s1)" by simp
  with assms(5) show ?thesis
    by (cases res) (simp_all add: add_unique_unfold [OF assms(1,2)] bind_def catch_def ret_apply)
qed

theorem add_unique_null_id_witness:
  "add_unique script_driver ''t'' [(''name'', PStr ''bob''), (''age'', PInt 5)] ''name''
     (script_state (script_db ''sqlite:///t.db'' []) []
        [Inr [[(''id'', PNone), (''name'', PStr ''bob'')]], Inr [],
         Inr [[(''id'', PNone), (''name'', PStr ''bob'')],
              [(''id'', PNone), (''name'', PStr ''bob'')]]]) =
   (Inr (IdList [PNone, PNone]),
    script_state (script_db ''sqlite:///t.db'' [])
      [''SELECT * FROM t  WHERE  name = 'bob'' @ [sq], ''INSERT INTO t (name,age) VALUES ('bob',5)'',
       ''SELECT * FROM t  WHERE  name = 'bob'' @ [sq]] [])"
  using add_unique_null_id [of "[(''name'', PStr ''bob''), (''age'', PInt 5)]" "''name''"
    "PStr ''bob''" script_driver "''t''"
    "script_state (script_db ''sqlite:///t.db'' []) []
        [Inr [[(''id'', PNone), (''name'', PStr ''bob'')]], Inr [],
         Inr [[(''id'', PNone), (''name'', PStr ''bob'')],
              [(''id'', PNone), (''name'', PStr ''bob'')]]]"
    "[(''id'', PNone), (''name'', PStr ''bob'')]"
    "script_state (script_db ''sqlite:///t.db'' []) [''SELECT * FROM t  WHERE  name = 'bob'' @ [sq]]
        [Inr [],
         Inr [[(''id'', PNone), (''name'', PStr ''bob'')],
              [(''id'', PNone), (''name'', PStr ''bob'')]]]"
    "Inr ()"
    "script_state (script_db ''sqlite:///t.db'' [])
      [''SELECT * FROM t  WHERE  name = 'bob'' @ [sq], ''INSERT INTO t (name,age) VALUES ('bob',5)'']
        [Inr [[(''id'', PNone), (''name'', PStr ''bob'')],
              [(''id'', PNone), (''name'', PStr ''bob'')]]]"]
  by (simp add: get_id_name_bob [of _ "[PNone, PNone]"] getitem_def)

end
