(* ===== verification/SqlSyntax.thy ===== *)
theory SqlSyntax
  imports QueryBuilder
begin

text \<open>
  The statements the builders write, as abstract syntax, and the text of a
  statement (\<open>render\<close>). Each builder is shown to write the text of the
  statement its arguments denote: the classification of the Python values
  (\<open>lit_of\<close> for \<^verbatim>\<open>escape_string\<close>, \<open>cond_of\<close> for the filters of \<^verbatim>\<open>get\<close>) is
  separated from the layout of the text.
\<close>

section \<open>Abstract syntax\<close>

datatype lit = LNull | LRaw string | LText string

datatype cond = IsNull string | Equals string lit

datatype stmt =
    Select string string "cond list" "string option" "string option" "string option"
  | Insert string "string list" "lit list list"
  | Update string "(string \<times> lit) list" "(string \<times> lit) list"
  | Delete string lit
  | Purge string
  | Drop string

section \<open>The text of a statement\<close>

text \<open>
  \<open>esc\<close> says whether colons are written with a backslash, as on the sqlite
  dialect.
\<close>

fun render_lit :: "bool \<Rightarrow> lit \<Rightarrow> string" where
  "render_lit esc LNull = ''NULL''"
| "render_lit esc (LRaw n) = n"
| "render_lit esc (LText s) =
     [sq] @ (if esc then re_sub colon [bslash, colon] (re_sub sq [sq, sq] s)
             else re_sub sq [sq, sq] s) @ [sq]"

fun render_cond :: "cond \<Rightarrow> string" where
  "render_cond (IsNull k) = '' '' @ k @ '' is NULL''"
| "render_cond (Equals k l) = '' '' @ k @ '' = '' @ render_lit False l"

definition render_assign :: "bool \<Rightarrow> string \<times> lit \<Rightarrow> string" where
  "render_assign esc kl = fst kl @ '' = '' @ render_lit esc (snd kl)"

definition render_row :: "bool \<Rightarrow> lit list \<Rightarrow> string" where
  "render_row esc r = ''('' @ str_join '','' (map (render_lit esc) r) @ '')''"

definition render_opt :: "string \<Rightarrow> string \<Rightarrow> string option \<Rightarrow> string" where
  "render_opt pre post x = (case x of None \<Rightarrow> [] | Some t \<Rightarrow> pre @ t @ post)"

fun render :: "bool \<Rightarrow> stmt \<Rightarrow> string" where
  "render esc (Select table logic conds order limit offset) =
     ''SELECT * FROM '' @ table @ '' '' @
     (if conds = [] then []
      else '' WHERE '' @ str_join (''  '' @ logic @ '' '') (map render_cond conds)) @
     render_opt '' ORDER BY '' [] order @
     render_opt '' limit '' '' '' limit @
     render_opt '' offset '' '' '' offset"
| "render esc (Insert table cols rows) =
     ''INSERT INTO '' @ table @ '' ('' @ str_join '','' cols @ '') VALUES '' @
     str_join '','' (map (render_row esc) rows)"
| "render esc (Update table sets conds) =
     ''UPDATE '' @ table @ '' set '' @ str_join '', '' (map (render_assign esc) sets) @
     '' WHERE '' @ str_join '' and '' (map (render_assign esc) conds)"
| "render esc (Delete table l) = ''DELETE FROM  '' @ table @ '' WHERE id = '' @ render_lit esc l"
| "render esc (Purge table) = ''DELETE FROM  '' @ table"
| "render esc (Drop table) = ''DROP table IF EXISTS '' @ table @ '' CASCADE''"

section \<open>What the arguments of a builder denote\<close>

definition lit_of :: "pyval \<Rightarrow> lit" where
  "lit_of v = (if is_number v then LRaw (py_str v) else if v = PNone then LNull
               else LText (py_str v))"

definition cond_of :: "string \<times> pyval \<Rightarrow> cond" where
  "cond_of kv =
     (if snd kv = PNone then IsNull (fst kv)
      else if isinstance_int (snd kv) then Equals (fst kv) (LRaw (py_str (snd kv)))
      else Equals (fst kv) (LText (py_str (snd kv))))"

definition opt_of :: "pyval \<Rightarrow> string option" where
  "opt_of v = (if v = PNone then None else Some (py_str v))"

definition get_stmt :: "string \<Rightarrow> pyval \<Rightarrow> pyval \<Rightarrow> pyval \<Rightarrow> pyval \<Rightarrow> pydict \<Rightarrow> stmt" where
  "get_stmt table logic order limit offset values =
     Select table (py_str logic) (map cond_of values) (opt_of order) (opt_of limit) (opt_of offset)"

definition add_stmt :: "string \<Rightarrow> pydict \<Rightarrow> stmt" where
  "add_stmt table entry = Insert table (keys entry) [map lit_of (vals entry)]"

definition add_bulk_stmt :: "string \<Rightarrow> pydict list \<Rightarrow> stmt" where
  "add_bulk_stmt table entries =
     Insert table (keys (hd entries)) (map (\<lambda>entry. map lit_of (vals entry)) entries)"

definition update_stmt :: "string \<Rightarrow> pydict \<Rightarrow> pydict \<Rightarrow> stmt" where
  "update_stmt table entry conditions =
     Update table
       (map (\<lambda>kv. (fst kv, lit_of (snd kv))) (filter (\<lambda>kv. fst kv \<notin> set (keys conditions)) entry))
       (map (\<lambda>kv. (fst kv, lit_of (snd kv))) conditions)"

section \<open>Lemmas on literals\<close>

lemma escape_string_render:
  "db_sqlite self = Some b \<Longrightarrow> escape_string self v = Inr (render_lit b (lit_of v))"
  by (simp add: escape_string_def lit_of_def Let_def)

lemma mapM_escape_render:
  "db_sqlite self = Some b \<Longrightarrow>
   mapM_res (escape_string self) vs = Inr (map (\<lambda>v. render_lit b (lit_of v)) vs)"
  by (simp add: mapM_res_eq_Inr escape_string_render)

lemma get_filter_render: "get_filter kv = render_cond (cond_of kv)"
  by (cases kv) (simp add: get_filter_def cond_of_def)

lemma update_item_render:
  "db_sqlite self = Some b \<Longrightarrow>
   update_item self kv = Inr (render_assign b (fst kv, lit_of (snd kv)))"
  by (simp add: update_item_def escape_string_render render_assign_def)

lemma mapM_update_render:
  "db_sqlite self = Some b \<Longrightarrow>
   mapM_res (update_item self) d = Inr (map (\<lambda>kv. render_assign b (fst kv, lit_of (snd kv))) d)"
  by (simp add: mapM_res_eq_Inr update_item_render)

section \<open>Every builder writes the text of its statement\<close>

lemma get_sql_render:
  "get_sql table logic order limit offset values =
     render esc (get_stmt table logic order limit offset values)"
  by (simp add: get_sql_def get_stmt_def Let_def render_opt_def opt_of_def get_filter_render
        cong: map_cong)

lemma add_sql_render:
  assumes "db_sqlite self = Some b"
  shows "add_sql self table entry = Inr (render b (add_stmt table entry))"
  by (simp add: add_sql_def add_stmt_def mapM_escape_render [OF assms] render_row_def o_def)

lemma delete_sql_render:
  assumes "sq \<notin> set (py_str idv)"
  shows "delete_sql table idv = render False (Delete table (LText (py_str idv)))"
  using assms by (simp add: delete_sql_def re_sub_absent)

lemma purge_render: "purge drv table = bind (do drv (render esc (Purge table))) (\<lambda>_. ret ())"
  by (simp add: purge_def)

lemma drop_table_render:
  "drop_table drv table = bind (do drv (render esc (Drop table))) (\<lambda>_. ret ())"
  by (simp add: drop_table_def)

text \<open>
  C22. On an sqlite connection a bulk insert of entries that all have the
  keys of the first entry, in its order, writes one INSERT statement: the
  columns are the keys of the first entry and there is one row of literals
  for every entry, in the order of the entries.
\<close>

theorem add_bulk_sql_render:
  assumes "db_sqlite self = Some b" and "entries \<noteq> []"
    and "\<forall>entry \<in> set entries. keys entry = keys (hd entries)"
  shows "add_bulk_sql self table entries = Inr (render b (add_bulk_stmt table entries))"
proof -
  from assms(2) obtain first rest where entries: "entries = first # rest" by (cases entries) auto
  have "mapM_res (add_bulk_row self (keys first)) entries =
          Inr (map (\<lambda>entry. render_row b (map lit_of (vals entry))) entries)"
    unfolding mapM_res_eq_Inr using assms(3) entries
    by (auto simp: add_bulk_row_def mapM_escape_render [OF assms(1)] render_row_def o_def)
  with entries show ?thesis
    by (simp add: add_bulk_sql_def add_bulk_stmt_def o_def)
qed

theorem add_bulk_sql_render_witness:
  "add_bulk_sql (script_db ''sqlite:///t.db'' []) ''t''
     [[(''name'', PStr ''a:b''), (''age'', PInt 5)], [(''name'', PNone), (''age'', PStr ''7'')]] =
   Inr (''INSERT INTO t (name,age) VALUES ('a'' @ [bslash] @ '':b',5),(NULL,7)'')"
  using add_bulk_sql_render [of "script_db ''sqlite:///t.db'' []" True
    "[[(''name'', PStr ''a:b''), (''age'', PInt 5)], [(''name'', PNone), (''age'', PStr ''7'')]]" "''t''"]
  by (simp add: add_bulk_stmt_def lit_of_def render_row_def numeric_unfold str_int_def str_nat.simps)

text \<open>
  C23. On an sqlite connection \<^verbatim>\<open>update\<close> writes the text of the statement
  that assigns the entry's values, classified as \<^verbatim>\<open>escape_string\<close> classifies
  them, to the keys outside the conditions, and tests the conditions for
  equality; it cannot fail.
\<close>

theorem update_sql_render:
  assumes "db_sqlite self = Some b"
  shows "update_sql self table entry conditions =
           Inr (render b (update_stmt table entry conditions))"
  by (simp add: update_sql_def update_stmt_def mapM_update_render [OF assms] o_def)

theorem update_sql_render_witness:
  "update_sql (script_db ''sqlite:///t.db'' []) ''t''
     [(''name'', PStr ''x''), (''id'', PInt 1)] [(''id'', PInt 1)] =
   Inr (render True (Update ''t'' [(''name'', LText ''x'')] [(''id'', LRaw ''1'')]))"
  using update_sql_render [of "script_db ''sqlite:///t.db'' []" True "''t''"
     "[(''name'', PStr ''x''), (''id'', PInt 1)]" "[(''id'', PInt 1)]"]
  by (simp add: update_stmt_def lit_of_def numeric_unfold str_int_def str_nat.simps)

end
