(* ===== verification/SqlReader.thy ===== *)
theory SqlReader
  imports SqlSyntax
begin

text \<open>
  The reading side of the statement text: a lexer (\<open>lex\<close>) into words, string
  literals and punctuation, and a parser (\<open>parse\<close>) of the six statements.
  \<open>read_sql\<close> is what the model database does with the text it is sent. The
  reader knows the six statements in the spelling and layout of the
  builders; any other text is refused, be it SQL or not.
\<close>

section \<open>Tokens\<close>

datatype token = TWord string | TStr string | TSym char

definition is_sym :: "char \<Rightarrow> bool" where
  "is_sym c \<longleftrightarrow> c \<in> {CHR ''('', CHR '')'', CHR '',''}"

definition word_char :: "char \<Rightarrow> bool" where
  "word_char c \<longleftrightarrow> \<not> is_space c \<and> c \<noteq> sq \<and> \<not> is_sym c"

text \<open>A word: what the lexer reads as one \<open>TWord\<close>.\<close>

definition word :: "string \<Rightarrow> bool" where
  "word w \<longleftrightarrow> w \<noteq> [] \<and> list_all word_char w"

function lex :: "string \<Rightarrow> token list option" where
  "lex [] = Some []"
| "lex (c # s) =
     (if is_space c then lex s
      else if is_sym c then map_option ((#) (TSym c)) (lex s)
      else if c = sq then
        (case scan_body s of
           None \<Rightarrow> None
         | Some (t, r) \<Rightarrow> map_option ((#) (TStr t)) (lex r))
      else map_option ((#) (TWord (c # takeWhile word_char s))) (lex (dropWhile word_char s)))"
  by pat_completeness auto

termination
proof (relation "measure length")
  show "wf (measure length)" by simp
next
  fix c s x2 t r
  assume "scan_body s = Some x2" "(t, r) = x2"
  then show "(r, c # s) \<in> measure length"
    using scan_body_length [of s t r] by simp
next
  fix c :: char and s
  show "(dropWhile word_char s, c # s) \<in> measure length"
    using length_dropWhile_le [of word_char s] by simp
qed simp_all

section \<open>Parser\<close>

fun tok_lit :: "token \<Rightarrow> lit option" where
  "tok_lit (TStr s) = Some (LText s)"
| "tok_lit (TWord w) = Some (if w = ''NULL'' then LNull else LRaw w)"
| "tok_lit (TSym c) = None"

text \<open>A filter of a SELECT, and an assignment or condition of an UPDATE: three tokens.\<close>

fun cond3 :: "token \<Rightarrow> token \<Rightarrow> token \<Rightarrow> cond option" where
  "cond3 (TWord k) (TWord opr) c =
     (if opr = ''='' then map_option (Equals k) (tok_lit c)
      else if opr = ''is'' \<and> c = TWord ''NULL'' then Some (IsNull k) else None)"
| "cond3 a b c = None"

fun assign3 :: "token \<Rightarrow> token \<Rightarrow> token \<Rightarrow> (string \<times> lit) option" where
  "assign3 (TWord k) (TWord opr) c = (if opr = ''='' then map_option (Pair k) (tok_lit c) else None)"
| "assign3 a b c = None"

definition clause_kw :: "string list" where
  "clause_kw = [''ORDER'', ''limit'', ''offset'']"

fun more_conds :: "token list \<Rightarrow> (string \<times> cond) list \<times> token list" where
  "more_conds (TWord lg # a # b # c # ts) =
     (if lg \<in> set clause_kw then ([], TWord lg # a # b # c # ts)
      else case cond3 a b c of
             None \<Rightarrow> ([], TWord lg # a # b # c # ts)
           | Some cd \<Rightarrow> (case more_conds ts of (cs, r) \<Rightarrow> ((lg, cd) # cs, r)))"
| "more_conds ts = ([], ts)"

definition parse_where :: "token list \<Rightarrow> (string \<times> cond list \<times> token list) option" where
  "parse_where ts =
     (case ts of
        TWord w # a # b # c # ts' \<Rightarrow>
          if w = ''WHERE'' then
            (case cond3 a b c of
               None \<Rightarrow> None
             | Some cd \<Rightarrow>
                 (case more_conds ts' of (cs, r) \<Rightarrow>
                    let logic = (case cs of [] \<Rightarrow> ''AND'' | lc # _ \<Rightarrow> fst lc) in
                    if list_all (\<lambda>lc. fst lc = logic) cs then Some (logic, cd # map snd cs, r)
                    else None))
          else Some (''AND'', [], ts)
      | _ \<Rightarrow> Some (''AND'', [], ts))"

fun order_words :: "token list \<Rightarrow> string list \<times> token list" where
  "order_words (TWord w # ts) =
     (if w = ''limit'' \<or> w = ''offset'' then ([], TWord w # ts)
      else case order_words ts of (ws, r) \<Rightarrow> (w # ws, r))"
| "order_words ts = ([], ts)"

definition parse_order :: "token list \<Rightarrow> (string option \<times> token list) option" where
  "parse_order ts =
     (case ts of
        TWord w # TWord b # rest \<Rightarrow>
          if w = ''ORDER'' \<and> b = ''BY'' then
            (case order_words rest of (ws, r) \<Rightarrow>
               if ws = [] then None else Some (Some (str_join '' '' ws), r))
          else Some (None, ts)
      | _ \<Rightarrow> Some (None, ts))"

definition parse_num :: "string \<Rightarrow> token list \<Rightarrow> string option \<times> token list" where
  "parse_num kw ts =
     (case ts of
        TWord k # TWord n # rest \<Rightarrow> if k = kw then (Some n, rest) else (None, ts)
      | _ \<Rightarrow> (None, ts))"

definition parse_tail ::
  "token list \<Rightarrow> (string option \<times> string option \<times> string option) option" where
  "parse_tail ts =
     (case parse_order ts of
        None \<Rightarrow> None
      | Some (order, r2) \<Rightarrow>
          (case parse_num ''limit'' r2 of (limit, r3) \<Rightarrow>
           case parse_num ''offset'' r3 of (offset, r4) \<Rightarrow>
             if r4 = [] then Some (order, limit, offset) else None))"

definition parse_select :: "token list \<Rightarrow> stmt option" where
  "parse_select ts =
     (case ts of
        TWord star # TWord from # TWord table # rest \<Rightarrow>
          if star = ''*'' \<and> from = ''FROM'' then
            (case parse_where rest of
               None \<Rightarrow> None
             | Some (logic, conds, r1) \<Rightarrow>
                 map_option (\<lambda>(order, limit, offset). Select table logic conds order limit offset)
                   (parse_tail r1))
          else None
      | _ \<Rightarrow> None)"

fun parse_names :: "token list \<Rightarrow> (string list \<times> token list) option" where
  "parse_names (TWord w # TSym s # ts) =
     (if s = CHR '','' then map_option (apfst ((#) w)) (parse_names ts)
      else if s = CHR '')'' then Some ([w], ts) else None)"
| "parse_names ts = None"

fun parse_rows :: "lit list \<Rightarrow> token list \<Rightarrow> lit list list option" where
  "parse_rows acc (x # TSym s # ts) =
     (case tok_lit x of
        None \<Rightarrow> None
      | Some l \<Rightarrow>
          if s = CHR '','' then parse_rows (acc @ [l]) ts
          else if s = CHR '')'' then
            (case ts of
               [] \<Rightarrow> Some [acc @ [l]]
             | TSym c # TSym d # ts' \<Rightarrow>
                 if c = CHR '','' \<and> d = CHR ''('' then
                   map_option ((#) (acc @ [l])) (parse_rows [] ts')
                 else None
             | _ \<Rightarrow> None)
          else None)"
| "parse_rows acc ts = None"

definition parse_insert :: "token list \<Rightarrow> stmt option" where
  "parse_insert ts =
     (case ts of
        TWord into # TWord table # TSym b # rest \<Rightarrow>
          if into = ''INTO'' \<and> b = CHR ''('' then
            (case parse_names rest of
               Some (cols, TWord v # TSym b' # rest') \<Rightarrow>
                 if v = ''VALUES'' \<and> b' = CHR ''('' then
                   (case parse_rows [] rest' of
                      None \<Rightarrow> None
                    | Some rows \<Rightarrow>
                        if list_all (\<lambda>r. length r = length cols) rows
                        then Some (Insert table cols rows) else None)
                 else None
             | _ \<Rightarrow> None)
          else None
      | _ \<Rightarrow> None)"

fun parse_assigns :: "token list \<Rightarrow> ((string \<times> lit) list \<times> token list) option" where
  "parse_assigns (a # b # c # ts) =
     (case assign3 a b c of
        None \<Rightarrow> None
      | Some kl \<Rightarrow>
          (case ts of
             TSym s # ts' \<Rightarrow>
               if s = CHR '','' then map_option (apfst ((#) kl)) (parse_assigns ts') else None
           | _ \<Rightarrow> Some ([kl], ts)))"
| "parse_assigns ts = None"

fun parse_ands :: "token list \<Rightarrow> (string \<times> lit) list option" where
  "parse_ands (a # b # c # ts) =
     (case assign3 a b c of
        None \<Rightarrow> None
      | Some kl \<Rightarrow>
          (case ts of
             [] \<Rightarrow> Some [kl]
           | TWord w # ts' \<Rightarrow> if w = ''and'' then map_option ((#) kl) (parse_ands ts') else None
           | _ \<Rightarrow> None))"
| "parse_ands ts = None"

definition parse_update :: "token list \<Rightarrow> stmt option" where
  "parse_update ts =
     (case ts of
        TWord table # TWord s # rest \<Rightarrow>
          if s = ''set'' then
            (case parse_assigns rest of
               Some (sets, TWord w # rest') \<Rightarrow>
                 if w = ''WHERE'' then map_option (Update table sets) (parse_ands rest') else None
             | _ \<Rightarrow> None)
          else None
      | _ \<Rightarrow> None)"

definition parse_delete :: "token list \<Rightarrow> stmt option" where
  "parse_delete ts =
     (case ts of
        [TWord from, TWord table] \<Rightarrow> if from = ''FROM'' then Some (Purge table) else None
      | [TWord from, TWord table, TWord w, TWord k, TWord opr, x] \<Rightarrow>
          if from = ''FROM'' \<and> w = ''WHERE'' \<and> k = ''id'' \<and> opr = ''='' then
            map_option (Delete table) (tok_lit x)
          else None
      | _ \<Rightarrow> None)"

definition parse_drop :: "token list \<Rightarrow> stmt option" where
  "parse_drop ts =
     (case ts of
        [TWord t, TWord i, TWord e, TWord table, TWord c] \<Rightarrow>
          if t = ''table'' \<and> i = ''IF'' \<and> e = ''EXISTS'' \<and> c = ''CASCADE'' then Some (Drop table)
          else None
      | _ \<Rightarrow> None)"

definition parse :: "token list \<Rightarrow> stmt option" where
  "parse ts =
     (case ts of
        TWord k # rest \<Rightarrow>
          if k = ''SELECT'' then parse_select rest
          else if k = ''INSERT'' then parse_insert rest
          else if k = ''UPDATE'' then parse_update rest
          else if k = ''DELETE'' then parse_delete rest
          else if k = ''DROP'' then parse_drop rest
          else None
      | _ \<Rightarrow> None)"

definition read_sql :: "string \<Rightarrow> stmt option" where
  "read_sql s = (case lex s of None \<Rightarrow> None | Some ts \<Rightarrow> parse ts)"

section \<open>Well-formed statements and their tokens\<close>

text \<open>
  A name is a word without a backslash, other than the equals sign. A statement is well formed when its
  names are names, its lists are not empty where SQL wants an element, and
  nothing that stands for a name is a keyword that would end the clause.
\<close>

definition name :: "string \<Rightarrow> bool" where
  "name w \<longleftrightarrow> word w \<and> bslash \<notin> set w \<and> w \<noteq> ''=''"

fun wf_lit :: "lit \<Rightarrow> bool" where
  "wf_lit LNull = True"
| "wf_lit (LRaw n) = (name n \<and> n \<noteq> ''NULL'')"
| "wf_lit (LText s) = True"

fun wf_cond :: "cond \<Rightarrow> bool" where
  "wf_cond (IsNull k) = name k"
| "wf_cond (Equals k l) = (name k \<and> wf_lit l)"

definition wf_assign :: "string \<times> lit \<Rightarrow> bool" where
  "wf_assign kl \<longleftrightarrow> name (fst kl) \<and> wf_lit (snd kl)"

definition wf_order :: "string \<Rightarrow> bool" where
  "wf_order ord \<longleftrightarrow>
     list_all (\<lambda>w. name w \<and> w \<noteq> ''limit'' \<and> w \<noteq> ''offset'') (str_split CHR '' '' ord)"

definition wf_opt :: "(string \<Rightarrow> bool) \<Rightarrow> string option \<Rightarrow> bool" where
  "wf_opt P x = (case x of None \<Rightarrow> True | Some t \<Rightarrow> P t)"

text \<open>
  \<open>wf_text\<close>: every name is a name and every unquoted literal a word, so
  that the text is read as the tokens it was written from. \<open>wf_shape\<close>: the
  lists that SQL wants non-empty are, and every row has a value for every
  column.
\<close>

fun wf_text :: "stmt \<Rightarrow> bool" where
  "wf_text (Select table logic conds order limit offset) =
     (name table \<and> list_all wf_cond conds \<and>
      (if length conds < 2 then logic = ''AND'' else name logic \<and> logic \<notin> set clause_kw) \<and>
      wf_opt wf_order order \<and> wf_opt name limit \<and> wf_opt name offset)"
| "wf_text (Insert table cols rows) =
     (name table \<and> list_all name cols \<and> list_all (list_all wf_lit) rows)"
| "wf_text (Update table sets conds) =
     (name table \<and> list_all wf_assign sets \<and> list_all wf_assign conds)"
| "wf_text (Delete table l) = (name table \<and> wf_lit l)"
| "wf_text (Purge table) = name table"
| "wf_text (Drop table) = name table"

fun wf_shape :: "stmt \<Rightarrow> bool" where
  "wf_shape (Insert table cols rows) =
     (cols \<noteq> [] \<and> rows \<noteq> [] \<and> list_all (\<lambda>r. length r = length cols) rows)"
| "wf_shape (Update table sets conds) = (sets \<noteq> [] \<and> conds \<noteq> [])"
| "wf_shape st = True"

definition wf_stmt :: "stmt \<Rightarrow> bool" where
  "wf_stmt st \<longleftrightarrow> wf_text st \<and> wf_shape st"

fun lit_tok :: "lit \<Rightarrow> token" where
  "lit_tok LNull = TWord ''NULL''"
| "lit_tok (LRaw n) = TWord n"
| "lit_tok (LText s) = TStr s"

fun cond_toks :: "cond \<Rightarrow> token list" where
  "cond_toks (IsNull k) = [TWord k, TWord ''is'', TWord ''NULL'']"
| "cond_toks (Equals k l) = [TWord k, TWord ''='', lit_tok l]"

definition assign_toks :: "string \<times> lit \<Rightarrow> token list" where
  "assign_toks kl = [TWord (fst kl), TWord ''='', lit_tok (snd kl)]"

text \<open>The tokens of a list of pieces with a separator token between them.\<close>

fun sep_toks :: "token list \<Rightarrow> token list list \<Rightarrow> token list" where
  "sep_toks sep [] = []"
| "sep_toks sep [x] = x"
| "sep_toks sep (x # y # ys) = x @ sep @ sep_toks sep (y # ys)"

definition opt_toks :: "token list \<Rightarrow> (string \<Rightarrow> token list) \<Rightarrow> string option \<Rightarrow> token list" where
  "opt_toks kw f x = (case x of None \<Rightarrow> [] | Some t \<Rightarrow> kw @ f t)"

fun stmt_toks :: "stmt \<Rightarrow> token list" where
  "stmt_toks (Select table logic conds order limit offset) =
     [TWord ''SELECT'', TWord ''*'', TWord ''FROM'', TWord table] @
     (if conds = [] then [] else TWord ''WHERE'' # sep_toks [TWord logic] (map cond_toks conds)) @
     opt_toks [TWord ''ORDER'', TWord ''BY''] (\<lambda>ord. map TWord (str_split CHR '' '' ord)) order @
     opt_toks [TWord ''limit''] (\<lambda>n. [TWord n]) limit @
     opt_toks [TWord ''offset''] (\<lambda>n. [TWord n]) offset"
| "stmt_toks (Insert table cols rows) =
     [TWord ''INSERT'', TWord ''INTO'', TWord table, TSym CHR ''(''] @
     sep_toks [TSym CHR '',''] (map (\<lambda>c. [TWord c]) cols) @
     [TSym CHR '')'', TWord ''VALUES''] @
     sep_toks [TSym CHR '','']
       (map (\<lambda>r. TSym CHR ''('' # sep_toks [TSym CHR '',''] (map (\<lambda>l. [lit_tok l]) r) @ [TSym CHR '')''])
          rows)"
| "stmt_toks (Update table sets conds) =
     [TWord ''UPDATE'', TWord table, TWord ''set''] @
     sep_toks [TSym CHR '',''] (map assign_toks sets) @ [TWord ''WHERE''] @
     sep_toks [TWord ''and''] (map assign_toks conds)"
| "stmt_toks (Delete table l) =
     [TWord ''DELETE'', TWord ''FROM'', TWord table, TWord ''WHERE'', TWord ''id'', TWord ''='', lit_tok l]"
| "stmt_toks (Purge table) = [TWord ''DELETE'', TWord ''FROM'', TWord table]"
| "stmt_toks (Drop table) =
     [TWord ''DROP'', TWord ''table'', TWord ''IF'', TWord ''EXISTS'', TWord table, TWord ''CASCADE'']"

section \<open>Auxiliary notions of the proofs\<close>

text \<open>What may follow a piece of text: nothing, a blank or a punctuation mark.\<close>

definition boundary :: "string \<Rightarrow> bool" where
  "boundary rest \<longleftrightarrow> (case rest of [] \<Rightarrow> True | c # _ \<Rightarrow> \<not> word_char c \<and> c \<noteq> sq)"

text \<open>The tokens of the clauses after the filters begin with a clause keyword.\<close>

definition clause_start :: "token list \<Rightarrow> bool" where
  "clause_start ts \<longleftrightarrow> (case ts of [] \<Rightarrow> True | t # _ \<Rightarrow> t \<in> TWord ` set clause_kw)"

text \<open>What \<open>parse_rows\<close> does after the closing bracket of a row.\<close>

definition next_row :: "lit list \<Rightarrow> token list \<Rightarrow> lit list list option" where
  "next_row row rest =
     (case rest of
        [] \<Rightarrow> Some [row]
      | TSym c # TSym d # rest' \<Rightarrow>
          if c = CHR '','' \<and> d = CHR ''('' then map_option ((#) row) (parse_rows [] rest')
          else None
      | _ \<Rightarrow> None)"

text \<open>
  What the database hears of a statement written without colon escapes: the
  driver removes the backslash of every backslash-colon pair in the text, so
  the text filters of a SELECT arrive without them.
\<close>

fun unesc_cond :: "cond \<Rightarrow> cond" where
  "unesc_cond (Equals k (LText s)) = Equals k (LText (unescape_colon s))"
| "unesc_cond c = c"

fun heard :: "stmt \<Rightarrow> stmt" where
  "heard (Select table logic conds order limit offset) =
     Select table logic (map unesc_cond conds) order limit offset"
| "heard st = st"

text \<open>A dictionary whose keys are names and whose values are well formed.\<close>

definition wf_dict :: "pydict \<Rightarrow> bool" where
  "wf_dict d \<longleftrightarrow> list_all (\<lambda>kv. name (fst kv) \<and> pyval_wf (snd kv)) d"

section \<open>Lemmas on the lexer\<close>

lemma word_char_simps [simp]:
  "\<not> word_char CHR '' ''" "\<not> word_char sq" "\<not> word_char CHR ''(''" "\<not> word_char CHR '')''"
  "\<not> word_char CHR '',''"
  by (simp_all add: word_char_def is_space_def is_sym_def)

lemma lex_space [simp]: "lex (CHR '' '' # s) = lex s"
  by (simp add: is_space_def)

lemma lex_sym [simp]:
  "lex (CHR ''('' # s) = map_option ((#) (TSym CHR ''('')) (lex s)"
  "lex (CHR '')'' # s) = map_option ((#) (TSym CHR '')'')) (lex s)"
  "lex (CHR '','' # s) = map_option ((#) (TSym CHR '','')) (lex s)"
  by (simp_all add: is_space_def is_sym_def)

lemma lex_word:
  assumes "word w" and "rest = [] \<or> \<not> word_char (hd rest)"
  shows "lex (w @ rest) = map_option ((#) (TWord w)) (lex rest)"
proof -
  from assms(1) obtain c w' where w: "w = c # w'" and c: "word_char c" and w': "list_all word_char w'"
    by (cases w) (auto simp: word_def)
  from assms(2) w' have "takeWhile word_char (w' @ rest) = w'" "dropWhile word_char (w' @ rest) = rest"
    by (cases rest; simp add: takeWhile_append dropWhile_append list_all_iff takeWhile_all dropWhile_all)+
  with c w show ?thesis by (simp add: word_char_def)
qed

lemma lex_word_end: "word w \<Longrightarrow> lex w = Some [TWord w]"
  using lex_word [of w "[]"] by simp

lemma lex_word_Cons:
  "word w \<Longrightarrow> \<not> word_char c \<Longrightarrow> lex (w @ c # rest) = map_option ((#) (TWord w)) (lex (c # rest))"
  by (rule lex_word) simp_all

lemma lex_text:
  "not_first sq rest \<Longrightarrow>
   lex (sq # re_sub sq [sq, sq] s @ sq # rest) = map_option ((#) (TStr s)) (lex rest)"
  by (simp add: scan_body_re_sub is_space_def is_sym_def)

lemma lex_word_char:
  "word_char c \<Longrightarrow>
   lex (c # s) = map_option ((#) (TWord (c # takeWhile word_char s))) (lex (dropWhile word_char s))"
  by (simp add: word_char_def)

declare lex.simps(2) [simp del]

text \<open>The characters of the keywords and operators are word characters.\<close>

lemma word_char_letters [simp]:
  "c \<in> set ''ABCDEFGHIJKLMNOPQRSTUVWXYZabcdefghijklmnopqrstuvwxyz0123456789*=_-+.'' \<Longrightarrow>
   word_char c"
  by (auto simp: word_char_def is_space_def is_sym_def)

section \<open>The lexer on the text of a statement\<close>

lemma boundary_simps [simp]:
  "boundary []" "boundary (CHR '' '' # s)" "boundary (CHR '','' # s)" "boundary (CHR '')'' # s)"
  by (simp_all add: boundary_def)

lemma boundary_not_first: "boundary rest \<Longrightarrow> not_first sq rest"
  by (cases rest) (simp_all add: boundary_def)

lemma name_word: "name w \<Longrightarrow> word w"
  by (simp add: name_def)

lemma lex_name:
  "name w \<Longrightarrow> boundary rest \<Longrightarrow> lex (w @ rest) = map_option ((#) (TWord w)) (lex rest)"
  by (rule lex_word) (auto simp: name_def boundary_def split: list.splits)

lemma lex_lit:
  "wf_lit l \<Longrightarrow> boundary rest \<Longrightarrow>
   lex (render_lit False l @ rest) = map_option ((#) (lit_tok l)) (lex rest)"
proof (cases l)
  case LNull
  assume "boundary rest"
  from lex_name [OF _ this, of "''NULL''"] LNull show ?thesis
    by (simp add: name_def word_def)
next
  case (LRaw n)
  assume "wf_lit l" "boundary rest"
  with LRaw show ?thesis by (simp add: lex_name)
next
  case (LText s)
  assume "boundary rest"
  with LText show ?thesis by (simp add: lex_text boundary_not_first)
qed

lemma boundary_While [simp]:
  "boundary rest \<Longrightarrow> takeWhile word_char rest = []"
  "boundary rest \<Longrightarrow> dropWhile word_char rest = rest"
  by (cases rest; simp add: boundary_def)+

lemma boundary_append: "boundary a \<Longrightarrow> a \<noteq> [] \<Longrightarrow> boundary (a @ b)"
  by (cases a) (simp_all add: boundary_def)

lemma map_option_Cons_append:
  "map_option ((#) a) (map_option ((@) as) x) = map_option ((@) (a # as)) x"
  "map_option ((@) as) (map_option ((#) a) x) = map_option ((@) (as @ [a])) x"
  "map_option ((@) as) (map_option ((@) bs) x) = map_option ((@) (as @ bs)) x"
  "map_option ((#) a) (map_option ((#) b) x) = map_option ((@) [a, b]) x"
  by (cases x; simp)+

lemma map_option_append_Nil [simp]: "map_option ((@) []) x = x"
  by (cases x) simp_all

lemma map_option_append_sing [simp]: "map_option ((@) [a]) x = map_option ((#) a) x"
  by (cases x) simp_all

lemmas lex_simps = lex_name lex_lit lex_word_char map_option_Cons_append

lemma lex_cond:
  "wf_cond c \<Longrightarrow> boundary rest \<Longrightarrow>
   lex (render_cond c @ rest) = map_option ((@) (cond_toks c)) (lex rest)"
  by (cases c) (simp_all add: lex_simps)

lemma lex_assign:
  "wf_assign kl \<Longrightarrow> boundary rest \<Longrightarrow>
   lex (render_assign False kl @ rest) = map_option ((@) (assign_toks kl)) (lex rest)"
  by (simp add: wf_assign_def render_assign_def assign_toks_def lex_simps)

text \<open>Pieces joined by a separator are read piece by piece.\<close>

lemma lex_join:
  assumes piece: "\<And>x rest. x \<in> set xs \<Longrightarrow> boundary rest \<Longrightarrow>
      lex (r x @ rest) = map_option ((@) (t x)) (lex rest)"
    and sep: "\<And>rest. lex (sp @ rest) = map_option ((@) st) (lex rest)"
    and sp: "boundary sp" "sp \<noteq> []" and rest: "boundary rest"
  shows "lex (str_join sp (map r xs) @ rest) = map_option ((@) (sep_toks st (map t xs))) (lex rest)"
  using piece
proof (induction xs rule: induct_list012)
  case 1
  show ?case by (simp add: option.map_ident)
next
  case (2 x)
  from 2 [of x rest] rest show ?case by simp
next
  case (3 x y ys)
  have "lex (str_join sp (map r (y # ys)) @ rest) =
      map_option ((@) (sep_toks st (map t (y # ys)))) (lex rest)"
    by (rule 3(2)) (simp_all add: 3(3))
  with 3(3) [of x "sp @ str_join sp (map r (y # ys)) @ rest"] sp sep show ?case
    by (cases "lex rest") (simp_all add: boundary_append)
qed

lemmas lex_name_end = lex_name [of _ "[]", simplified]
lemmas lex_lit_end = lex_lit [of _ "[]", simplified]
lemmas lex_join_end = lex_join [where rest = "[]", simplified]

lemma lex_names:
  assumes "list_all name cols" and "boundary rest"
  shows "lex (str_join '','' cols @ rest) =
     map_option ((@) (sep_toks [TSym CHR '',''] (map (\<lambda>c. [TWord c]) cols))) (lex rest)"
  using lex_join [where r = "\<lambda>c. c" and t = "\<lambda>c. [TWord c]" and xs = cols and sp = "'',''"
      and st = "[TSym CHR '','']" and rest = rest] assms
  by (simp add: list_all_iff lex_name)

lemma lex_row:
  assumes "list_all wf_lit r"
  shows "lex (render_row False r @ rest) =
     map_option ((@) (TSym CHR ''('' # sep_toks [TSym CHR '',''] (map (\<lambda>l. [lit_tok l]) r) @
                      [TSym CHR '')''])) (lex rest)"
  using lex_join [where r = "render_lit False" and t = "\<lambda>l. [lit_tok l]" and xs = r and sp = "'',''"
      and st = "[TSym CHR '','']" and rest = "'')'' @ rest"] assms
  by (cases "lex rest") (simp_all add: render_row_def list_all_iff lex_lit)

lemma lex_words:
  assumes "list_all name ws" and "boundary rest"
  shows "lex (str_join '' '' ws @ rest) = map_option ((@) (map TWord ws)) (lex rest)"
proof -
  have "sep_toks [] (map (\<lambda>w. [TWord w]) ws) = map TWord ws"
    by (induction ws rule: induct_list012) simp_all
  with lex_join [where r = "\<lambda>c. c" and t = "\<lambda>c. [TWord c]" and xs = ws and sp = "'' ''"
      and st = "[]" and rest = rest] assms
  show ?thesis by (simp add: list_all_iff lex_name)
qed

lemma lex_order:
  assumes "wf_opt wf_order order" and "boundary rest"
  shows "lex (render_opt '' ORDER BY '' [] order @ rest) =
     map_option ((@) (opt_toks [TWord ''ORDER'', TWord ''BY'']
                        (\<lambda>ord. map TWord (str_split CHR '' '' ord)) order)) (lex rest)"
proof (cases order)
  case None
  then show ?thesis by (simp add: render_opt_def opt_toks_def)
next
  case (Some ord)
  with assms(1) have "list_all name (str_split CHR '' '' ord)"
    by (simp add: wf_opt_def wf_order_def list_all_iff)
  from lex_words [OF this assms(2)] Some show ?thesis
    by (cases "lex rest") (simp_all add: render_opt_def opt_toks_def str_join_split lex_simps)
qed

lemma lex_num:
  assumes "wf_opt name x" and "kw \<in> {''limit'', ''offset''}"
  shows "lex (render_opt ('' '' @ kw @ '' '') '' '' x @ rest) =
     map_option ((@) (opt_toks [TWord kw] (\<lambda>n. [TWord n]) x)) (lex rest)"
  using assms
  by (cases x; cases "lex rest") (auto simp: render_opt_def opt_toks_def wf_opt_def lex_simps)

lemma boundary_render_opt [simp]:
  "boundary rest \<Longrightarrow> boundary (render_opt (CHR '' '' # pre) post x @ rest)"
  "boundary (render_opt (CHR '' '' # pre) post x)"
  by (cases x; simp add: render_opt_def)+

lemma lex_conds:
  assumes "list_all wf_cond conds" and "name logic" and "boundary rest"
  shows "lex (str_join (''  '' @ logic @ '' '') (map render_cond conds) @ rest) =
     map_option ((@) (sep_toks [TWord logic] (map cond_toks conds))) (lex rest)"
proof (rule lex_join)
  fix rest'
  from assms(2) show "lex ((''  '' @ logic @ '' '') @ rest') = map_option ((@) [TWord logic]) (lex rest')"
    by (cases "lex rest'") (simp_all add: lex_simps)
qed (use assms in \<open>simp_all add: list_all_iff lex_cond\<close>)

lemma lex_select:
  assumes "wf_text (Select table logic conds order limit offset)"
  shows "lex (render False (Select table logic conds order limit offset)) =
     Some (stmt_toks (Select table logic conds order limit offset))"
proof -
  let ?tail = "render_opt '' ORDER BY '' [] order @ render_opt '' limit '' '' '' limit @
     render_opt '' offset '' '' '' offset"
  let ?toks = "opt_toks [TWord ''ORDER'', TWord ''BY''] (\<lambda>ord. map TWord (str_split CHR '' '' ord)) order @
     opt_toks [TWord ''limit''] (\<lambda>n. [TWord n]) limit @
     opt_toks [TWord ''offset''] (\<lambda>n. [TWord n]) offset"
  from assms have tail: "lex ?tail = Some ?toks"
    using lex_order [of order "render_opt '' limit '' '' '' limit @ render_opt '' offset '' '' '' offset"]
      lex_num [of limit "''limit''" "render_opt '' offset '' '' '' offset"]
      lex_num [of offset "''offset''" "[]"]
    by simp
  have b: "boundary ?tail" by simp
  show ?thesis
  proof (cases "conds = []")
    case True
    with assms tail b show ?thesis by (simp add: lex_simps)
  next
    case False
    have logic: "name logic"
    proof (cases "length conds < 2")
      case True
      with assms have "logic = ''AND''" by simp
      then show ?thesis by (simp add: name_def word_def)
    next
      case False
      with assms show ?thesis by simp
    qed
    from assms have "list_all wf_cond conds" by simp
    from lex_conds [OF this logic b] tail False assms show ?thesis
      by (simp add: lex_simps)
  qed
qed

lemma lex_render:
  assumes "wf_text st"
  shows "lex (render False st) = Some (stmt_toks st)"
proof (cases st)
  case (Select table logic conds order limit offset)
  with assms show ?thesis by (simp only: lex_select)
next
  case (Insert table cols rows)
  with assms have rows: "\<And>r. r \<in> set rows \<Longrightarrow> list_all wf_lit r" by (simp add: list_all_iff)
  have "lex (str_join '','' (map (render_row False) rows)) =
      Some (sep_toks [TSym CHR '','']
        (map (\<lambda>r. TSym CHR ''('' # sep_toks [TSym CHR '',''] (map (\<lambda>l. [lit_tok l]) r) @ [TSym CHR '')''])
          rows))"
    using lex_join_end [where r = "render_row False" and xs = rows and sp = "'',''"
      and st = "[TSym CHR '','']"
      and t = "\<lambda>r. TSym CHR ''('' # sep_toks [TSym CHR '',''] (map (\<lambda>l. [lit_tok l]) r) @ [TSym CHR '')'']"]
    by (simp add: lex_row rows)
  with assms Insert lex_names [of cols "'') VALUES '' @ str_join '','' (map (render_row False) rows)"]
  show ?thesis by (simp add: lex_simps)
next
  case (Update table sets conds)
  with assms have "lex (str_join '' and '' (map (render_assign False) conds)) =
      Some (sep_toks [TWord ''and''] (map assign_toks conds))"
    using lex_join_end [where r = "render_assign False" and xs = conds and sp = "'' and ''"
      and st = "[TWord ''and'']" and t = assign_toks]
    by (simp add: lex_assign list_all_iff lex_simps)
  moreover from assms Update have "lex (str_join '', '' (map (render_assign False) sets) @
       '' WHERE '' @ str_join '' and '' (map (render_assign False) conds)) =
      map_option ((@) (sep_toks [TSym CHR '',''] (map assign_toks sets)))
        (lex ('' WHERE '' @ str_join '' and '' (map (render_assign False) conds)))"
    by (intro lex_join) (simp_all add: lex_assign list_all_iff)
  ultimately show ?thesis using assms Update by (simp add: lex_simps)
next
  case (Delete table l)
  with assms show ?thesis by (simp add: lex_simps lex_lit_end)
next
  case (Purge table)
  with assms show ?thesis by (simp add: lex_simps lex_name_end)
next
  case (Drop table)
  with assms show ?thesis by (simp add: lex_simps)
qed

section \<open>The parser on the tokens of a statement\<close>

lemma tok_lit_lit_tok [simp]: "wf_lit l \<Longrightarrow> tok_lit (lit_tok l) = Some l"
  by (cases l) simp_all

lemma sep_toks_Cons: "sep_toks sp (x # xs) = x @ concat (map (\<lambda>y. sp @ y) xs)"
  by (induction xs arbitrary: x) simp_all

lemma more_conds_kw: "lg \<in> set clause_kw \<Longrightarrow> more_conds (TWord lg # ts) = ([], TWord lg # ts)"
  by (cases "TWord lg # ts" rule: more_conds.cases) auto

lemma more_conds_all:
  assumes "list_all wf_cond cs" and "lg \<notin> set clause_kw" and "more_conds rest = ([], rest)"
  shows "more_conds (concat (map (\<lambda>c. [TWord lg] @ cond_toks c) cs) @ rest) =
           (map (Pair lg) cs, rest)"
  using assms(1)
proof (induction cs)
  case Nil
  from assms(3) show ?case by simp
next
  case (Cons c cs)
  with assms(2) show ?case by (cases c) simp_all
qed

lemma parse_where_toks:
  assumes "list_all wf_cond conds" and "conds \<noteq> []"
    and "if length conds < 2 then logic = ''AND'' else logic \<notin> set clause_kw"
    and "more_conds rest = ([], rest)"
  shows "parse_where (TWord ''WHERE'' # sep_toks [TWord logic] (map cond_toks conds) @ rest) =
           Some (logic, conds, rest)"
proof -
  from assms(2) obtain c cs where conds: "conds = c # cs" by (cases conds) auto
  show ?thesis
  proof (cases cs)
    case Nil
    with conds assms show ?thesis by (cases c) (simp_all add: parse_where_def)
  next
    case (Cons c' cs')
    with conds assms(3) have lg: "logic \<notin> set clause_kw" by simp
    from assms(1) conds have "list_all wf_cond cs" by simp
    from more_conds_all [OF this lg assms(4)] conds Cons assms(1) show ?thesis
      by (cases c) (simp_all add: parse_where_def sep_toks_Cons list_all_iff o_def)
  qed
qed

lemma clause_start_more_conds: "clause_start ts \<Longrightarrow> more_conds ts = ([], ts)"
  by (cases ts) (auto simp: clause_start_def more_conds_kw)

lemma clause_start_parse_where: "clause_start ts \<Longrightarrow> parse_where ts = Some (''AND'', [], ts)"
  by (auto simp: clause_start_def parse_where_def clause_kw_def split: list.splits token.splits)

lemma clause_start_opt [simp]:
  "kw \<in> set clause_kw \<Longrightarrow> clause_start rest \<Longrightarrow> clause_start (opt_toks (TWord kw # k) f x @ rest)"
  "kw \<in> set clause_kw \<Longrightarrow> clause_start (opt_toks (TWord kw # k) f x)"
  "clause_start []"
  by (cases x; simp add: opt_toks_def clause_start_def)+

lemma order_words_toks:
  assumes "list_all (\<lambda>w. w \<noteq> ''limit'' \<and> w \<noteq> ''offset'') ws" and "order_words rest = ([], rest)"
  shows "order_words (map TWord ws @ rest) = (ws, rest)"
  using assms by (induction ws) simp_all

lemma parse_tail_toks:
  assumes "wf_opt wf_order order"
  shows "parse_tail (opt_toks [TWord ''ORDER'', TWord ''BY'']
                (\<lambda>ord. map TWord (str_split CHR '' '' ord)) order @
              opt_toks [TWord ''limit''] (\<lambda>n. [TWord n]) limit @
              opt_toks [TWord ''offset''] (\<lambda>n. [TWord n]) offset) = Some (order, limit, offset)"
proof -
  let ?off = "opt_toks [TWord ''offset''] (\<lambda>n. [TWord n]) offset"
  let ?nums = "opt_toks [TWord ''limit''] (\<lambda>n. [TWord n]) limit @ ?off"
  have lim: "parse_num ''limit'' ?nums = (limit, ?off)"
    by (cases limit; cases offset) (simp_all add: parse_num_def opt_toks_def)
  have off: "parse_num ''offset'' ?off = (offset, [])"
    by (cases offset) (simp_all add: parse_num_def opt_toks_def)
  have stop: "order_words ?nums = ([], ?nums)"
    by (cases limit; cases offset) (simp_all add: opt_toks_def)
  have "parse_order (opt_toks [TWord ''ORDER'', TWord ''BY'']
                (\<lambda>ord. map TWord (str_split CHR '' '' ord)) order @ ?nums) = Some (order, ?nums)"
  proof (cases order)
    case None
    show ?thesis unfolding None
      by (cases limit; cases offset) (simp_all add: parse_order_def opt_toks_def)
  next
    case (Some ord)
    with assms have w: "list_all (\<lambda>w. w \<noteq> ''limit'' \<and> w \<noteq> ''offset'') (str_split CHR '' '' ord)"
      by (simp add: wf_opt_def wf_order_def list_all_iff)
    from order_words_toks [OF w stop] Some show ?thesis
      by (simp add: parse_order_def opt_toks_def str_join_split)
  qed
  with lim off show ?thesis by (simp add: parse_tail_def)
qed

lemma parse_names_toks:
  "cols \<noteq> [] \<Longrightarrow>
   parse_names (sep_toks [TSym CHR '',''] (map (\<lambda>c. [TWord c]) cols) @ TSym CHR '')'' # rest) =
     Some (cols, rest)"
  by (induction cols rule: induct_list012) simp_all

lemma next_row_simps [simp]:
  "next_row row [] = Some [row]"
  "next_row row (TSym CHR '','' # TSym CHR ''('' # rest) = map_option ((#) row) (parse_rows [] rest)"
  by (simp_all add: next_row_def)

lemma parse_row_toks:
  assumes "list_all wf_lit r" and "r \<noteq> []"
  shows "parse_rows acc (sep_toks [TSym CHR '',''] (map (\<lambda>l. [lit_tok l]) r) @ TSym CHR '')'' # rest) =
     next_row (acc @ r) rest"
  using assms
proof (induction r arbitrary: acc rule: induct_list012)
  case 1
  then show ?case by simp
next
  case (2 x)
  then show ?case by (simp add: next_row_def)
next
  case (3 x y zs)
  from 3(2) [of "acc @ [x]"] 3(3) show ?case by simp
qed

lemma parse_rows_toks:
  assumes "list_all (\<lambda>r. r \<noteq> [] \<and> list_all wf_lit r) (r # rows)"
  shows "parse_rows []
     ((sep_toks [TSym CHR '',''] (map (\<lambda>l. [lit_tok l]) r) @ [TSym CHR '')'']) @
      concat (map (\<lambda>r. [TSym CHR '',''] @ TSym CHR ''('' #
                 sep_toks [TSym CHR '',''] (map (\<lambda>l. [lit_tok l]) r) @ [TSym CHR '')'']) rows)) =
     Some (r # rows)"
  using assms by (induction rows arbitrary: r) (simp_all add: parse_row_toks)

lemma parse_assigns_toks:
  assumes "list_all wf_assign sets" and "sets \<noteq> []"
  shows "parse_assigns (sep_toks [TSym CHR '',''] (map assign_toks sets) @ TWord w # rest) =
     Some (sets, TWord w # rest)"
  using assms by (induction sets rule: induct_list012) (simp_all add: assign_toks_def wf_assign_def)

lemma parse_ands_toks:
  assumes "list_all wf_assign conds" and "conds \<noteq> []"
  shows "parse_ands (sep_toks [TWord ''and''] (map assign_toks conds)) = Some conds"
  using assms by (induction conds rule: induct_list012) (simp_all add: assign_toks_def wf_assign_def)

lemma parse_toks:
  assumes "wf_text st" and "wf_shape st"
  shows "parse (stmt_toks st) = Some st"
proof (cases st)
  case (Select table logic conds order limit offset)
  let ?tail = "opt_toks [TWord ''ORDER'', TWord ''BY''] (\<lambda>ord. map TWord (str_split CHR '' '' ord)) order @
     opt_toks [TWord ''limit''] (\<lambda>n. [TWord n]) limit @
     opt_toks [TWord ''offset''] (\<lambda>n. [TWord n]) offset"
  from assms Select have tail: "parse_tail ?tail = Some (order, limit, offset)"
    by (simp add: parse_tail_toks)
  have stop: "more_conds ?tail = ([], ?tail)"
    by (rule clause_start_more_conds) (simp add: clause_kw_def)
  show ?thesis
  proof (cases "conds = []")
    case True
    have "parse_where ?tail = Some (''AND'', [], ?tail)"
      by (rule clause_start_parse_where) (simp add: clause_kw_def)
    with True tail assms Select show ?thesis by (simp add: parse_def parse_select_def)
  next
    case False
    with assms Select have "parse_where (TWord ''WHERE'' # sep_toks [TWord logic] (map cond_toks conds) @ ?tail) =
           Some (logic, conds, ?tail)"
      by (intro parse_where_toks stop) (simp_all split: if_splits)
    with False tail Select show ?thesis by (simp add: parse_def parse_select_def)
  qed
next
  case (Insert table cols rows)
  with assms obtain r rows' where rows: "rows = r # rows'" by (cases rows) auto
  with assms Insert have "list_all (\<lambda>r. r \<noteq> [] \<and> list_all wf_lit r) (r # rows')"
    by (auto simp: list_all_iff)
  from parse_rows_toks [OF this] assms Insert rows parse_names_toks [of cols] show ?thesis
    by (simp add: parse_def parse_insert_def sep_toks_Cons list_all_iff o_def)
next
  case (Update table sets conds)
  with assms show ?thesis
    by (simp add: parse_def parse_update_def parse_assigns_toks parse_ands_toks)
next
  case (Delete table l)
  with assms show ?thesis by (simp add: parse_def parse_delete_def)
next
  case (Purge table)
  then show ?thesis by (simp add: parse_def parse_delete_def)
next
  case (Drop table)
  then show ?thesis by (simp add: parse_def parse_drop_def)
qed


section \<open>Colon escapes\<close>

text \<open>
  The driver removes the backslash of every escaped colon before it reads the
  statement. On the text of a statement written with escapes this gives the
  text written without them; the filters of a SELECT, which \<^verbatim>\<open>get\<close> writes
  without escapes, lose the backslash of every backslash-colon pair they hold.
\<close>

lemma unescape_colon_free: "bslash \<notin> set a \<Longrightarrow> unescape_colon (a @ b) = a @ unescape_colon b"
  by (induction a) (auto simp: unescape_colon_plain)

lemmas unescape_colon_free_end = unescape_colon_free [of _ "[]", simplified]

lemma name_free: "name w \<Longrightarrow> bslash \<notin> set w"
  by (simp add: name_def)

lemma unescape_lit:
  "wf_lit l \<Longrightarrow> unescape_colon (render_lit True l @ rest) = render_lit False l @ unescape_colon rest"
  using unescape_colon_literal [of _ rest]
  by (cases l) (simp_all add: unescape_colon_free name_free unescape_colon_plain)

lemma unescape_join:
  assumes "\<And>x rest. x \<in> set xs \<Longrightarrow> unescape_colon (r x @ rest) = r' x @ unescape_colon rest"
    and "bslash \<notin> set sp"
  shows "unescape_colon (str_join sp (map r xs) @ rest) = str_join sp (map r' xs) @ unescape_colon rest"
  using assms(1)
proof (induction xs rule: induct_list012)
  case 1
  show ?case by simp
next
  case (2 x)
  then show ?case by simp
next
  case (3 x y ys)
  have "unescape_colon (str_join sp (map r (y # ys)) @ rest) =
      str_join sp (map r' (y # ys)) @ unescape_colon rest"
    by (rule 3(2)) (simp add: 3(3))
  with 3(3) [of x] assms(2) show ?case by (simp add: unescape_colon_free)
qed

lemmas unescape_join_end = unescape_join [where rest = "[]", simplified]

lemma unescape_assign:
  "wf_assign kl \<Longrightarrow>
   unescape_colon (render_assign True kl @ rest) = render_assign False kl @ unescape_colon rest"
  by (simp add: render_assign_def wf_assign_def unescape_colon_free name_free unescape_lit
        unescape_colon_plain)

lemma unescape_row:
  "list_all wf_lit r \<Longrightarrow>
   unescape_colon (render_row True r @ rest) = render_row False r @ unescape_colon rest"
  using unescape_join [where r = "render_lit True" and r' = "render_lit False" and xs = r
      and sp = "'',''" and rest = "'')'' @ rest"]
  by (simp add: render_row_def list_all_iff unescape_lit unescape_colon_plain)

lemmas unescape_lit_end = unescape_lit [of _ "[]", simplified]

lemma free_join:
  "bslash \<notin> set sp \<Longrightarrow> (\<And>x. x \<in> set xs \<Longrightarrow> bslash \<notin> set x) \<Longrightarrow> bslash \<notin> set (str_join sp xs)"
  using set_str_join [of sp xs] by auto

lemma free_order: "wf_order ord \<Longrightarrow> bslash \<notin> set ord"
  using free_join [of "'' ''" "str_split CHR '' '' ord"]
  by (simp add: wf_order_def list_all_iff str_join_split name_free)

lemma free_opt:
  "wf_opt P x \<Longrightarrow> (\<And>t. P t \<Longrightarrow> bslash \<notin> set t) \<Longrightarrow> bslash \<notin> set pre \<Longrightarrow> bslash \<notin> set post \<Longrightarrow>
   bslash \<notin> set (render_opt pre post x)"
  by (cases x) (simp_all add: render_opt_def wf_opt_def)

lemma unescape_quoted:
  "unescape_colon (re_sub sq [sq, sq] s @ sq # rest) =
     re_sub sq [sq, sq] (unescape_colon s) @ sq # unescape_colon rest"
proof (induction s rule: unescape_colon.induct)
  case (1 c d r)
  show ?case
  proof (cases "c = bslash")
    case True
    with 1 show ?thesis by (cases "d = colon") (simp_all add: unescape_colon_bslash)
  next
    case False
    with 1 show ?thesis by (simp add: unescape_colon_plain)
  qed
qed (simp_all add: unescape_colon_plain)

lemma unescape_cond:
  "wf_cond c \<Longrightarrow>
   unescape_colon (render_cond c @ rest) = render_cond (unesc_cond c) @ unescape_colon rest"
proof (induction c rule: unesc_cond.induct)
  case (1 k s)
  then show ?case
    using unescape_colon_free [of "'' '' @ k @ '' = ''"]
    by (simp add: name_free unescape_colon_plain unescape_quoted)
qed (simp_all add: unescape_colon_free name_free unescape_colon_plain)

lemma wf_unesc_cond [simp]: "wf_cond (unesc_cond c) = wf_cond c"
  by (induction c rule: unesc_cond.induct) simp_all

lemma wf_heard [simp]: "wf_text (heard st) = wf_text st" "wf_shape (heard st) = wf_shape st"
  by (cases st; simp add: list_all_iff)+

lemma unescape_select:
  assumes "wf_text (Select table logic conds order limit offset)"
  shows "unescape_colon (render True (Select table logic conds order limit offset)) =
           render False (Select table logic (map unesc_cond conds) order limit offset)"
proof -
  let ?tail = "render_opt '' ORDER BY '' [] order @ render_opt '' limit '' '' '' limit @
     render_opt '' offset '' '' '' offset"
  from assms have logic: "bslash \<notin> set logic"
    by (auto simp: name_free split: if_splits)
  have "bslash \<notin> set (render_opt '' ORDER BY '' [] order)"
    by (rule free_opt [where P = wf_order]) (use assms in \<open>simp_all add: free_order\<close>)
  moreover have "bslash \<notin> set (render_opt '' limit '' '' '' limit)"
    by (rule free_opt [where P = name]) (use assms in \<open>simp_all add: name_free\<close>)
  moreover have "bslash \<notin> set (render_opt '' offset '' '' '' offset)"
    by (rule free_opt [where P = name]) (use assms in \<open>simp_all add: name_free\<close>)
  ultimately have tail: "unescape_colon ?tail = ?tail"
    by (simp add: unescape_colon_free_end)
  have pre: "unescape_colon (''SELECT * FROM '' @ table @ '' '' @ b) =
      ''SELECT * FROM '' @ table @ '' '' @ unescape_colon b" for b
    using unescape_colon_free [of "''SELECT * FROM '' @ table @ '' ''" b] assms
    by (simp add: name_free)
  have wh: "unescape_colon ('' WHERE '' @ b) = '' WHERE '' @ unescape_colon b" for b
    using unescape_colon_free [of "'' WHERE ''" b] by simp
  from assms logic
  have conds: "unescape_colon (str_join (''  '' @ logic @ '' '') (map render_cond conds) @ ?tail) =
      str_join (''  '' @ logic @ '' '') (map render_cond (map unesc_cond conds)) @ ?tail"
    using unescape_join [where r = render_cond and r' = "render_cond \<circ> unesc_cond" and xs = conds
        and sp = "''  '' @ logic @ '' ''" and rest = ?tail]
    by (simp add: list_all_iff unescape_cond tail)
  show ?thesis
  proof (cases "conds = []")
    case True
    then show ?thesis unfolding render.simps pre
      by (simp only: tail if_True list.map append_Nil simp_thms)
  next
    case False
    then show ?thesis unfolding render.simps pre
      by (simp only: if_False wh conds append_assoc map_is_Nil_conv simp_thms)
  qed
qed

lemma unescape_render:
  assumes "wf_text st"
  shows "unescape_colon (render True st) = render False (heard st)"
proof (cases st)
  case (Select table logic conds order limit offset)
  with assms show ?thesis by (simp only: heard.simps unescape_select)
next
  case (Insert table cols rows)
  with assms have cols: "bslash \<notin> set (str_join '','' cols)"
    by (intro free_join) (auto simp: list_all_iff name_free)
  from assms Insert have "unescape_colon (str_join '','' (map (render_row True) rows)) =
      str_join '','' (map (render_row False) rows)"
    by (intro unescape_join_end) (auto simp: list_all_iff unescape_row)
  with assms Insert cols show ?thesis
    by (simp add: unescape_colon_free name_free unescape_colon_plain)
next
  case (Update table sets conds)
  with assms have "unescape_colon (str_join '', '' (map (render_assign True) sets) @ '' WHERE '' @
        str_join '' and '' (map (render_assign True) conds)) =
      str_join '', '' (map (render_assign False) sets) @ '' WHERE '' @
        str_join '' and '' (map (render_assign False) conds)"
    using unescape_join [where r = "render_assign True" and r' = "render_assign False" and xs = sets
        and sp = "'', ''" and rest = "'' WHERE '' @ str_join '' and '' (map (render_assign True) conds)"]
      unescape_join_end [where r = "render_assign True" and r' = "render_assign False" and xs = conds
        and sp = "'' and ''"]
    by (simp add: list_all_iff unescape_assign unescape_colon_plain)
  with assms Update show ?thesis
    by (simp add: unescape_colon_free name_free unescape_colon_plain)
next
  case (Delete table l)
  with assms show ?thesis
    by (simp add: unescape_colon_free name_free unescape_colon_plain unescape_lit_end)
next
  case (Purge table)
  with assms show ?thesis
    by (simp add: unescape_colon_free_end name_free unescape_colon_plain)
next
  case (Drop table)
  with assms show ?thesis
    by (simp add: unescape_colon_free name_free unescape_colon_plain)
qed

section \<open>Round trip\<close>

lemma read_sql_render:
  assumes "wf_stmt st"
  shows "read_sql (render False st) = Some st"
  using assms by (simp add: read_sql_def lex_render parse_toks wf_stmt_def)

lemma read_sql_unescape:
  assumes "wf_stmt st"
  shows "read_sql (unescape_colon (render True st)) = Some (heard st)"
  using assms read_sql_render [of "heard st"] by (simp add: unescape_render wf_stmt_def)

text \<open>An UPDATE without assignments or without conditions is not a statement.\<close>

lemma parse_update_dangling:
  assumes "wf_text (Update table sets conds)" and "sets = [] \<or> conds = []"
  shows "parse (stmt_toks (Update table sets conds)) = None"
proof (cases "sets = []")
  case True
  with assms(1) show ?thesis
    by (cases conds)
      (simp_all add: parse_def parse_update_def assign_toks_def sep_toks_Cons wf_assign_def name_def)
next
  case False
  with assms show ?thesis
    by (simp add: parse_def parse_update_def parse_assigns_toks)
qed

lemma read_sql_update_dangling:
  assumes "wf_text (Update table sets conds)" and "sets = [] \<or> conds = []"
  shows "read_sql (render False (Update table sets conds)) = None"
    and "read_sql (unescape_colon (render True (Update table sets conds))) = None"
  using assms lex_render [OF assms(1)] unescape_render [OF assms(1)] parse_update_dangling [OF assms]
  by (simp_all add: read_sql_def)

section \<open>The statements of the builders are well formed\<close>

lemma num_char_word_char: "num_char c \<Longrightarrow> word_char c \<and> c \<noteq> bslash \<and> c \<noteq> CHR ''=''"
  by (auto simp: num_char_def is_digit_def word_char_def is_space_def is_sym_def)

lemma name_number:
  assumes "is_number v" and "pyval_wf v"
  shows "name (py_str v) \<and> py_str v \<noteq> ''NULL''"
proof -
  from py_str_num_char [OF assms]
  consider "list_all num_char (py_str v)" | "py_str v \<in> {''True'', ''False'', ''inf'', ''-inf'', ''nan''}"
    by blast
  then show ?thesis
  proof cases
    case 1
    then have wc: "\<And>c. c \<in> set (py_str v) \<Longrightarrow> word_char c \<and> c \<noteq> bslash \<and> c \<noteq> CHR ''=''"
      by (simp add: list_all_iff num_char_word_char)
    from assms have ne: "py_str v \<noteq> []"
      by (cases v) (auto simp: float_repr_def dest: numeric_literal_nonempty)
    from wc [of "CHR ''=''"] have eq: "py_str v \<noteq> ''=''" by auto
    from 1 have "\<not> num_char CHR ''N'' \<Longrightarrow> py_str v \<noteq> ''NULL''" by auto
    then have null: "py_str v \<noteq> ''NULL''" by (simp add: num_char_def is_digit_def)
    from wc have "list_all word_char (py_str v)" "bslash \<notin> set (py_str v)"
      by (auto simp: list_all_iff)
    with ne eq null show ?thesis by (simp add: name_def word_def)
  next
    case 2
    then consider "py_str v = ''True''" | "py_str v = ''False''" | "py_str v = ''inf''"
      | "py_str v = ''-inf''" | "py_str v = ''nan''" by blast
    then show ?thesis by cases (simp_all add: name_def word_def)
  qed
qed

lemma wf_lit_of: "pyval_wf v \<Longrightarrow> wf_lit (lit_of v)"
  using name_number [of v] by (simp add: lit_of_def)

lemma wf_cond_of: "name (fst kv) \<Longrightarrow> pyval_wf (snd kv) \<Longrightarrow> wf_cond (cond_of kv)"
  using name_number [of "snd kv"] by (cases "snd kv") (simp_all add: cond_of_def)

lemma wf_add_stmt:
  "name table \<Longrightarrow> wf_dict entry \<Longrightarrow> entry \<noteq> [] \<Longrightarrow> wf_stmt (add_stmt table entry)"
  by (simp add: wf_stmt_def add_stmt_def wf_dict_def list_all_iff wf_lit_of)

lemma wf_update_stmt:
  "name table \<Longrightarrow> wf_dict entry \<Longrightarrow> wf_dict conditions \<Longrightarrow>
   wf_text (update_stmt table entry conditions)"
  by (simp add: update_stmt_def wf_dict_def list_all_iff wf_assign_def wf_lit_of)

section \<open>What the database reads\<close>

text \<open>
  C24. The text \<^verbatim>\<open>get\<close> writes is read back as the statement its arguments
  denote: the same table, the filters in their order with their values as
  numbers, texts or NULL tests, the logic operator, and the order, limit and
  offset, whenever that statement is well formed.
\<close>

theorem get_sql_read:
  assumes "wf_text (get_stmt table logic order limit offset values)"
  shows "read_sql (get_sql table logic order limit offset values) =
           Some (get_stmt table logic order limit offset values)"
  using read_sql_render [of "get_stmt table logic order limit offset values"] assms
  by (simp add: get_sql_render [of _ _ _ _ _ _ False] wf_stmt_def get_stmt_def)

theorem get_sql_read_witness:
  "read_sql (get_sql ''t'' (PStr ''OR'') (PStr ''name DESC'') (PInt 3) PNone
       [(''status'', PNone), (''age'', PInt 5), (''name'', PStr ''O'Brien'')]) =
   Some (Select ''t'' ''OR''
       [IsNull ''status'', Equals ''age'' (LRaw ''5''), Equals ''name'' (LText ''O'Brien'')]
       (Some ''name DESC'') (Some ''3'') None)"
  using get_sql_read [of "''t''" "PStr ''OR''" "PStr ''name DESC''" "PInt 3" PNone
       "[(''status'', PNone), (''age'', PInt 5), (''name'', PStr ''O'Brien'')]"]
  by (simp add: get_stmt_def cond_of_def opt_of_def wf_opt_def wf_order_def name_def word_def
        clause_kw_def str_int_def str_nat.simps)

text \<open>
  C25. On an sqlite connection, the text \<^verbatim>\<open>add\<close> writes for a non-empty entry
  whose keys are names is read by the database, after it has removed the
  colon escapes, as the INSERT of one row with the entry's keys as columns
  and the entry's values as literals, whatever quotes, colons or backslashes
  the values hold.
\<close>

theorem add_sql_read:
  assumes "db_sqlite self = Some True" and "entry \<noteq> []" and "name table" and "wf_dict entry"
  shows "\<exists>q. add_sql self table entry = Inr q \<and>
           read_sql (unescape_colon q) = Some (add_stmt table entry)"
  using read_sql_unescape [OF wf_add_stmt [OF assms(3,4,2)]]
  by (simp add: add_sql_render [OF assms(1)] add_stmt_def)

theorem add_sql_read_witness:
  "\<exists>q. add_sql (script_db ''sqlite:///t.db'' []) ''t''
          [(''name'', PStr ''O'Brien: a''), (''age'', PInt 5), (''x'', PNone)] = Inr q \<and>
       read_sql (unescape_colon q) =
         Some (Insert ''t'' [''name'', ''age'', ''x''] [[LText ''O'Brien: a'', LRaw ''5'', LNull]])"
  using add_sql_read [of "script_db ''sqlite:///t.db'' []"
          "[(''name'', PStr ''O'Brien: a''), (''age'', PInt 5), (''x'', PNone)]" "''t''"]
  by (simp add: add_stmt_def lit_of_def wf_dict_def name_def word_def numeric_unfold
        str_int_def str_nat.simps)

end
