(* ===== verification/MemStore.thy ===== *)
theory MemStore
  imports Accessors SqlReader "HOL-Library.AList"
begin

text \<open>
  A database in memory behind the driver interface: tables of rows, declared
  column types, UNIQUE constraints, and automatic ids. It reads the text it
  is sent with \<open>read_sql\<close>, after removing the colon escapes, and executes the
  statement. With it the accessors can be run against a database that
  answers, and the promises that involve the database (insert if absent) can
  be stated.

  Values follow the rules of sqlite for storage and comparison. A column has
  an affinity, INTEGER, TEXT or none (\<open>affinity\<close>). A value stored in a
  column, and a literal compared with a column, is first converted by the
  column's affinity (\<open>coerce\<close>): a text that reads as an integer becomes that
  integer in an INTEGER column, a number becomes its text in a TEXT column,
  and nothing is converted in a column without affinity. After conversion
  two values are equal when neither is NULL and they are the same value
  (\<open>same\<close>): an integer never equals a text. The keywords \<^verbatim>\<open>True\<close> and
  \<^verbatim>\<open>False\<close> are the integers 1 and 0. A column that a row does not have
  reads as NULL.

  Limits of the model: a real number is the text of its literal, so two
  reals are equal when they are written alike and a real never equals an
  integer; \<^verbatim>\<open>ORDER BY\<close> is refused; the reader knows the statements of the
  builders and no others; a colon that is left unescaped is text and never
  a bind parameter.
\<close>

section \<open>Values and columns\<close>

datatype affinity = A_NONE | A_INTEGER | A_TEXT

text \<open>The value of a literal.\<close>

fun lit_val :: "lit \<Rightarrow> pyval" where
  "lit_val LNull = PNone"
| "lit_val (LText s) = PStr s"
| "lit_val (LRaw n) =
     (case parse_int n of
        Some i \<Rightarrow> PInt i
      | None \<Rightarrow> if n = ''True'' then PInt 1 else if n = ''False'' then PInt 0
                else PFloat n)"

text \<open>Conversion of a value by the affinity of a column.\<close>

fun coerce :: "affinity \<Rightarrow> pyval \<Rightarrow> pyval" where
  "coerce A_INTEGER (PStr s) =
     (case parse_int s of
        Some i \<Rightarrow> PInt i
      | None \<Rightarrow> if numeric_literal s then PFloat s else PStr s)"
| "coerce A_TEXT (PInt i) = PStr (str_int i)"
| "coerce A_TEXT (PFloat r) = PStr r"
| "coerce a v = v"

definition field :: "row \<Rightarrow> string \<Rightarrow> pyval" where
  "field r k = (case map_of r k of None \<Rightarrow> PNone | Some v \<Rightarrow> v)"

definition same :: "pyval \<Rightarrow> pyval \<Rightarrow> bool" where
  "same v w \<longleftrightarrow> v \<noteq> PNone \<and> w \<noteq> PNone \<and> v = w"

fun holds :: "(string \<Rightarrow> affinity) \<Rightarrow> row \<Rightarrow> cond \<Rightarrow> bool" where
  "holds aff r (IsNull k) = (field r k = PNone)"
| "holds aff r (Equals k l) = same (field r k) (coerce (aff k) (lit_val l))"

definition matches :: "string \<Rightarrow> (string \<Rightarrow> affinity) \<Rightarrow> cond list \<Rightarrow> row \<Rightarrow> bool" where
  "matches logic aff conds r =
     (if logic = ''OR'' \<and> conds \<noteq> [] then list_ex (holds aff r) conds
      else list_all (holds aff r) conds)"

definition nat_opt :: "string option \<Rightarrow> nat option option" where
  "nat_opt x =
     (case x of
        None \<Rightarrow> Some None
      | Some n \<Rightarrow> (case parse_int n of
                     None \<Rightarrow> None
                   | Some i \<Rightarrow> if i < 0 then None else Some (Some (nat i))))"

definition window :: "nat option \<Rightarrow> nat option \<Rightarrow> 'a list \<Rightarrow> 'a list" where
  "window limit offset xs =
     (let ys = (case offset of None \<Rightarrow> xs | Some m \<Rightarrow> drop m xs)
      in case limit of None \<Rightarrow> ys | Some n \<Rightarrow> take n ys)"

section \<open>The store\<close>

record store =
  st_tables :: "(string \<times> row list) list"
  st_types :: "((string \<times> string) \<times> affinity) list"
  st_unique :: "(string \<times> string) list"
  st_next :: int

definition affinity_of :: "store \<Rightarrow> string \<Rightarrow> string \<Rightarrow> affinity" where
  "affinity_of h table k = (case map_of (st_types h) (table, k) of None \<Rightarrow> A_NONE | Some a \<Rightarrow> a)"

text \<open>A row as a table keeps it: every value converted by its column.\<close>

definition keep :: "(string \<Rightarrow> affinity) \<Rightarrow> (string \<times> lit) list \<Rightarrow> row" where
  "keep aff kls = map (\<lambda>kl. (fst kl, coerce (aff (fst kl)) (lit_val (snd kl)))) kls"

definition with_id :: "int \<Rightarrow> row \<Rightarrow> row" where
  "with_id n r = (if ''id'' \<in> set (keys r) then r else (''id'', PInt n) # r)"

definition number_rows :: "int \<Rightarrow> row list \<Rightarrow> row list" where
  "number_rows n rs = map (\<lambda>ir. with_id (n + int (fst ir)) (snd ir)) (enumerate 0 rs)"

text \<open>The values of a UNIQUE column are pairwise different, NULLs aside.\<close>

definition unique_ok :: "store \<Rightarrow> string \<Rightarrow> row list \<Rightarrow> bool" where
  "unique_ok h table rows =
     list_all (\<lambda>tk. fst tk = table \<longrightarrow>
         distinct (filter (\<lambda>v. v \<noteq> PNone) (map (\<lambda>r. field r (snd tk)) rows)))
       (st_unique h)"

definition set_table :: "string \<Rightarrow> row list \<Rightarrow> store \<Rightarrow> store" where
  "set_table table rows h =
     h\<lparr>st_tables := map (\<lambda>tr. if fst tr = table then (table, rows) else tr) (st_tables h)\<rparr>"

definition assign :: "row \<Rightarrow> row \<Rightarrow> row" where
  "assign sets r = foldl (\<lambda>r kv. AList.update (fst kv) (snd kv) r) r sets"

abbreviation fail :: "string \<Rightarrow> store \<Rightarrow> row list res \<times> store" where
  "fail msg h \<equiv> (Inl (DriverError msg), h)"

text \<open>Storing new rows, unless a UNIQUE constraint forbids it.\<close>

definition store_rows :: "string \<Rightarrow> row list \<Rightarrow> store \<Rightarrow> row list res \<times> store" where
  "store_rows table rows h =
     (if unique_ok h table rows then (Inr [], set_table table rows h)
      else fail ''UNIQUE constraint failed'' h)"

fun exec :: "stmt \<Rightarrow> store \<Rightarrow> row list res \<times> store" where
  "exec (Select table logic conds order limit offset) h =
     (case map_of (st_tables h) table of
        None \<Rightarrow> fail ''no such table'' h
      | Some rows \<Rightarrow>
          if logic \<noteq> ''AND'' \<and> logic \<noteq> ''OR'' then fail ''syntax error'' h
          else if order \<noteq> None then fail ''ORDER BY is not supported'' h
          else (case (nat_opt limit, nat_opt offset) of
                  (Some lim, Some off) \<Rightarrow>
                    (Inr (window lim off
                            (filter (matches logic (affinity_of h table) conds) rows)), h)
                | _ \<Rightarrow> fail ''datatype mismatch'' h))"
| "exec (Insert table cols rows) h =
     (case map_of (st_tables h) table of
        None \<Rightarrow> fail ''no such table'' h
      | Some old \<Rightarrow>
          (case store_rows table
                  (old @ number_rows (st_next h)
                           (map (\<lambda>r. keep (affinity_of h table) (zip cols r)) rows)) h of
             (Inl e, h') \<Rightarrow> (Inl e, h')
           | (Inr x, h') \<Rightarrow> (Inr x, h'\<lparr>st_next := st_next h + int (length rows)\<rparr>)))"
| "exec (Update table sets conds) h =
     (case map_of (st_tables h) table of
        None \<Rightarrow> fail ''no such table'' h
      | Some old \<Rightarrow>
          store_rows table
            (map (\<lambda>r. if list_all (\<lambda>kl. holds (affinity_of h table) r (Equals (fst kl) (snd kl)))
                            conds
                       then assign (keep (affinity_of h table) sets) r else r) old) h)"
| "exec (Delete table l) h =
     (case map_of (st_tables h) table of
        None \<Rightarrow> fail ''no such table'' h
      | Some old \<Rightarrow>
          (Inr [], set_table table
                     (filter (\<lambda>r. \<not> holds (affinity_of h table) r (Equals ''id'' l)) old) h))"
| "exec (Purge table) h =
     (case map_of (st_tables h) table of
        None \<Rightarrow> fail ''no such table'' h
      | Some old \<Rightarrow> (Inr [], set_table table [] h))"
| "exec (Drop table) h =
     (Inr [], h\<lparr>st_tables := filter (\<lambda>tr. fst tr \<noteq> table) (st_tables h),
                st_types := filter (\<lambda>ca. fst (fst ca) \<noteq> table) (st_types h),
                st_unique := filter (\<lambda>tk. fst tk \<noteq> table) (st_unique h)\<rparr>)"

definition mem_query :: "string \<Rightarrow> bool \<Rightarrow> store \<Rightarrow> row list res \<times> store" where
  "mem_query sql fetchall h =
     (case read_sql (unescape_colon sql) of
        None \<Rightarrow> fail ''syntax error'' h
      | Some st \<Rightarrow> exec st h)"

definition mem_driver :: "store driver" where
  "mem_driver =
     \<lparr>drv_connect = (\<lambda>uri. Inr \<lparr>st_tables = [], st_types = [], st_unique = [], st_next = 1\<rparr>),
      drv_query = mem_query,
      drv_get_table_names = (\<lambda>h. (Inr (map fst (st_tables h)), h)),
      drv_get_as_dict = None,
      drv_close = (\<lambda>h. h)\<rparr>"

text \<open>An sqlite connection to a given store.\<close>

definition mem_db :: "store \<Rightarrow> store DB" where
  "mem_db h = \<lparr>db_handle = h, db_uri = ''sqlite:///:memory:'', db_fetchall = True,
              db_sqlite = Some True\<rparr>"

section \<open>What the accessors read and write\<close>

text \<open>The shape \<^verbatim>\<open>get_id\<close> gives to a list of ids.\<close>

definition id_shape :: "pyval list \<Rightarrow> id_result" where
  "id_shape ids = (if ids = [] then IdScalar PNone else if length ids = 1 then IdScalar (hd ids)
                   else IdList ids)"

text \<open>Every row has an integer id.\<close>

definition has_ids :: "row list \<Rightarrow> bool" where
  "has_ids rows = list_all (\<lambda>r. case map_of r ''id'' of Some (PInt i) \<Rightarrow> True | _ \<Rightarrow> False) rows"

text \<open>A key that \<^verbatim>\<open>get\<close> takes for a filter and not for one of its parameters.\<close>

definition filter_key :: "string \<Rightarrow> bool" where
  "filter_key k \<longleftrightarrow> name k \<and> k \<notin> set (''self'' # ''table'' # get_named)"

text \<open>
  The value the database hears when \<^verbatim>\<open>get\<close> writes \<open>v\<close> as a filter: \<^verbatim>\<open>get\<close>
  does not escape colons, so the driver takes a backslash before a colon in
  the text for an escape and removes it.
\<close>

definition said :: "pyval \<Rightarrow> pyval" where
  "said v = (case v of PStr s \<Rightarrow> PStr (unescape_colon s) | _ \<Rightarrow> v)"

text \<open>A value that reaches the database as it is: no backslash before a colon.\<close>

definition filter_val :: "pyval \<Rightarrow> bool" where
  "filter_val v \<longleftrightarrow> pyval_wf v \<and> said v = v"

text \<open>The integer an \<^verbatim>\<open>int\<close> or a \<^verbatim>\<open>bool\<close> is written as.\<close>

fun int_of :: "pyval \<Rightarrow> int" where
  "int_of (PInt i) = i"
| "int_of (PBool b) = (if b then 1 else 0)"
| "int_of v = 0"

text \<open>
  The value a filter of \<^verbatim>\<open>get\<close> compares a column with: an \<^verbatim>\<open>int\<close> as a number,
  any other value as its text, converted by the column.
\<close>

definition asked :: "affinity \<Rightarrow> pyval \<Rightarrow> pyval" where
  "asked a v = coerce a (if isinstance_int v then PInt (int_of v) else PStr (py_str v))"

text \<open>The value a column keeps when \<^verbatim>\<open>add\<close> writes \<open>v\<close> into it.\<close>

definition kept :: "affinity \<Rightarrow> pyval \<Rightarrow> pyval" where
  "kept a v = coerce a (lit_val (lit_of v))"

text \<open>The row an INSERT of one entry stores, and the store after it.\<close>

definition new_row :: "store \<Rightarrow> string \<Rightarrow> pydict \<Rightarrow> row" where
  "new_row h table entry =
     with_id (st_next h) (map (\<lambda>kv. (fst kv, kept (affinity_of h table (fst kv)) (snd kv))) entry)"

definition inserted :: "string \<Rightarrow> row list \<Rightarrow> store \<Rightarrow> store" where
  "inserted t rows h = (set_table t rows h)\<lparr>st_next := st_next h + 1\<rparr>"

text \<open>The rows a filter on one key finds.\<close>

definition found :: "(string \<Rightarrow> affinity) \<Rightarrow> string \<Rightarrow> pyval \<Rightarrow> row list \<Rightarrow> row list" where
  "found aff key v rows = filter (\<lambda>r. holds aff r (cond_of (key, v))) rows"

text \<open>
  An example: a table of persons with an INTEGER id and a TEXT name that is
  UNIQUE, holding the given rows.
\<close>

definition persons :: "row list \<Rightarrow> int \<Rightarrow> store" where
  "persons rows n =
     \<lparr>st_tables = [(''person'', rows)],
      st_types = [((''person'', ''id''), A_INTEGER), ((''person'', ''name''), A_TEXT)],
      st_unique = [(''person'', ''name'')], st_next = n\<rparr>"

section \<open>Lemmas on the driver\<close>

lemma do_mem:
  "read_sql (unescape_colon q) = Some st \<Longrightarrow>
   do mem_driver q self =
     (fst (exec st (db_handle self)), self\<lparr>db_handle := snd (exec st (db_handle self))\<rparr>)"
  by (simp add: do_def on_handle_def mem_driver_def mem_query_def split: prod.splits)

lemma do_mem_reject:
  "read_sql (unescape_colon q) = None \<Longrightarrow>
   do mem_driver q self = (Inl (DriverError ''syntax error''), self)"
  by (simp add: do_def on_handle_def mem_driver_def mem_query_def)

lemma matches_single [simp]: "matches ''AND'' aff [c] = (\<lambda>r. holds aff r c)"
  by (simp add: matches_def fun_eq_iff)

lemma float_repr_free:
  assumes "float_repr r"
  shows "bslash \<notin> set r"
proof (cases "numeric_literal r")
  case True
  from numeric_literal_num_char [OF this] num_char_plain [of bslash] show ?thesis
    by (auto simp: list_all_iff)
next
  case False
  with assms show ?thesis by (auto simp: float_repr_def)
qed

lemma numeric_free: "numeric_literal r \<Longrightarrow> bslash \<notin> set r"
  using numeric_literal_num_char [of r] num_char_plain [of bslash] by (auto simp: list_all_iff)

lemma unesc_cond_of:
  "pyval_wf v \<Longrightarrow> unesc_cond (cond_of (key, v)) = cond_of (key, said v)"
  by (cases v) (simp_all add: cond_of_def said_def float_repr_free unescape_colon_free_end)

lemma select_heard:
  assumes "map_of (st_tables (db_handle self)) t = Some rows"
    and "name t" and "filter_key key" and "pyval_wf v"
  shows "call_get mem_driver t [(key, v)] self =
           (Inr (found (affinity_of (db_handle self) t) key (said v) rows), self)"
proof -
  let ?st = "Select t ''AND'' [cond_of (key, v)] None None None"
  have q: "get_sql t (PStr ''AND'') PNone PNone PNone [(key, v)] = render True ?st"
    by (simp add: get_sql_render [of _ _ _ _ _ _ True] get_stmt_def opt_of_def)
  from assms(3) have "call_get mem_driver t [(key, v)] =
      get mem_driver t (PStr ''AND'') PNone PNone PNone [(key, v)]"
    by (intro call_get_plain) (simp add: filter_key_def)
  moreover from assms(2-4) have "wf_stmt ?st"
    by (simp add: wf_stmt_def wf_opt_def filter_key_def wf_cond_of)
  then have "read_sql (unescape_colon (get_sql t (PStr ''AND'') PNone PNone PNone [(key, v)])) =
      Some (heard ?st)"
    unfolding q by (rule read_sql_unescape)
  from do_mem [OF this, of self] assms(1,4)
  have "do mem_driver (get_sql t (PStr ''AND'') PNone PNone PNone [(key, v)]) self =
      (Inr (found (affinity_of (db_handle self) t) key (said v) rows), self)"
    by (simp add: nat_opt_def window_def found_def unesc_cond_of)
  ultimately show ?thesis by (simp add: get_def get_as_dict_def)
qed

lemma select_mem:
  assumes "map_of (st_tables (db_handle self)) t = Some rows"
    and "name t" and "filter_key key" and "filter_val v"
  shows "call_get mem_driver t [(key, v)] self =
           (Inr (found (affinity_of (db_handle self) t) key v rows), self)"
  using select_heard [OF assms(1-3), of v] assms(4) by (simp add: filter_val_def)

lemma has_ids_getitem:
  "has_ids rows \<Longrightarrow> mapM_res (\<lambda>r. getitem r ''id'') rows = Inr (map (\<lambda>r. field r ''id'') rows)"
  by (auto simp: mapM_res_eq_Inr has_ids_def list_all_iff getitem_def field_def
      split: option.splits pyval.splits)

lemma has_ids_filter: "has_ids rows \<Longrightarrow> has_ids (filter P rows)"
  by (simp add: has_ids_def list_all_iff)

lemma has_ids_found: "has_ids rows \<Longrightarrow> has_ids (found aff key v rows)"
  by (simp add: found_def has_ids_filter)

lemma has_ids_field: "has_ids rows \<Longrightarrow> r \<in> set rows \<Longrightarrow> field r ''id'' \<noteq> PNone"
  by (auto simp: has_ids_def list_all_iff field_def split: option.splits pyval.splits)

lemma get_id_mem:
  assumes "map_of (st_tables (db_handle self)) t = Some rows" and "has_ids rows"
    and "name t" and "filter_key key" and "filter_val v"
  shows "get_id mem_driver t [(key, v)] self =
     (Inr (id_shape (map (\<lambda>r. field r ''id'') (found (affinity_of (db_handle self) t) key v rows))),
      self)"
  using get_id_ids [OF select_mem [OF assms(1,3-5)] has_ids_getitem [OF has_ids_found [OF assms(2)]]]
  by (simp add: id_shape_def)

lemma id_shape_None:
  "id_shape ids = IdScalar PNone \<longleftrightarrow> ids = [] \<or> ids = [PNone]"
  by (cases ids; cases "tl ids") (auto simp: id_shape_def)

section \<open>What is written and what is asked for\<close>

lemma parse_int_bool [simp]: "parse_int ''True'' = None" "parse_int ''False'' = None"
  by code_simp+

lemma coerce_not_None [simp]: "coerce a v = PNone \<longleftrightarrow> v = PNone"
  by (cases "(a, v)" rule: coerce.cases) (auto split: option.splits)

lemma holds_asked:
  "holds aff r (cond_of (key, v)) \<longleftrightarrow>
     (if v = PNone then field r key = PNone else same (field r key) (asked (aff key) v))"
  by (cases v) (auto simp: cond_of_def asked_def)

text \<open>
  \<^verbatim>\<open>add\<close> and \<^verbatim>\<open>get\<close> write an \<^verbatim>\<open>int\<close>, a \<^verbatim>\<open>bool\<close> and a text that is not a
  number in the same way, so a column keeps of such a value what a filter
  asks for.
\<close>

lemma kept_asked:
  "isinstance_int v \<or> \<not> is_number v \<Longrightarrow> v \<noteq> PNone \<Longrightarrow> kept a v = asked a v"
  by (cases v) (auto simp: kept_def asked_def lit_of_def)

lemma kept_None [simp]: "kept a PNone = PNone"
  by (simp add: kept_def lit_of_def)

lemma kept_not_None: "v \<noteq> PNone \<Longrightarrow> kept a v \<noteq> PNone"
  by (auto simp: kept_def lit_of_def split: option.splits)

text \<open>A row that stores such a value is found by the filter for that value.\<close>

lemma holds_stored:
  "field r k = kept (aff k) v \<Longrightarrow> isinstance_int v \<or> \<not> is_number v \<Longrightarrow>
   holds aff r (cond_of (k, v))"
  using kept_asked [of v "aff k"] kept_not_None [of v "aff k"]
  by (auto simp: holds_asked same_def)

section \<open>Lemmas on INSERT\<close>

lemma map_of_replace:
  "map_of xs k = Some old \<Longrightarrow> map_of (map (\<lambda>kv. if fst kv = k then (k, v) else kv) xs) k = Some v"
  "k' \<noteq> k \<Longrightarrow> map_of (map (\<lambda>kv. if fst kv = k then (k, v) else kv) xs) k' = map_of xs k'"
  by (induction xs) auto

lemma set_table_fields [simp]:
  "map_of (st_tables h) t = Some old \<Longrightarrow> map_of (st_tables (set_table t rows h)) t = Some rows"
  "st_unique (set_table t rows h) = st_unique h"
  "st_types (set_table t rows h) = st_types h"
  "st_next (set_table t rows h) = st_next h"
  by (simp_all add: set_table_def map_of_replace)

lemma inserted_fields [simp]:
  "map_of (st_tables h) t = Some old \<Longrightarrow> map_of (st_tables (inserted t rows h)) t = Some rows"
  "st_unique (inserted t rows h) = st_unique h"
  "st_types (inserted t rows h) = st_types h"
  "st_next (inserted t rows h) = st_next h + 1"
  "affinity_of (inserted t rows h) = affinity_of h"
  "unique_ok (inserted t rows h) = unique_ok h"
  by (simp_all add: inserted_def affinity_of_def unique_ok_def fun_eq_iff)

lemma keep_entry:
  "keep aff (zip (keys e) (map (lit_of \<circ> snd) e)) =
     map (\<lambda>kv. (fst kv, kept (aff (fst kv)) (snd kv))) e"
  by (induction e) (auto simp: keep_def kept_def)

lemma exec_insert_one:
  "map_of (st_tables h) t = Some rows \<Longrightarrow>
   exec (add_stmt t entry) h =
     (if unique_ok h t (rows @ [new_row h t entry])
      then (Inr [], inserted t (rows @ [new_row h t entry]) h)
      else (Inl (DriverError ''UNIQUE constraint failed''), h))"
  by (simp add: add_stmt_def store_rows_def number_rows_def new_row_def inserted_def keep_entry)

lemma insert_mem:
  assumes "db_sqlite self = Some True" and "map_of (st_tables (db_handle self)) t = Some rows"
    and "name t" and "wf_dict entry" and "entry \<noteq> []"
  shows "add mem_driver t entry self =
     (if unique_ok (db_handle self) t (rows @ [new_row (db_handle self) t entry])
      then (Inr (), self\<lparr>db_handle :=
              inserted t (rows @ [new_row (db_handle self) t entry]) (db_handle self)\<rparr>)
      else (Inl (DriverError ''UNIQUE constraint failed''), self))"
proof -
  have "read_sql (unescape_colon (render True (add_stmt t entry))) = Some (add_stmt t entry)"
    using read_sql_unescape [OF wf_add_stmt [OF assms(3-5)]] by (simp add: add_stmt_def)
  from do_mem [OF this, of self] assms(5) show ?thesis
    by (simp add: add_send add_sql_render [OF assms(1)] bind_def ret_apply
          exec_insert_one [OF assms(2)])
qed

lemma map_of_map_snd:
  "map_of (map (\<lambda>kv. (fst kv, f (fst kv) (snd kv))) e) k = map_option (f k) (map_of e k)"
  by (induction e) auto

lemma new_row_id:
  "''id'' \<notin> set (keys entry) \<Longrightarrow> map_of (new_row h t entry) ''id'' = Some (PInt (st_next h))"
  by (simp add: new_row_def with_id_def o_def)

lemma new_row_field:
  assumes "''id'' \<notin> set (keys entry)" and "getitem entry key = Inr v"
  shows "field (new_row h t entry) key = kept (affinity_of h t key) v"
proof -
  from assms have "key \<noteq> ''id''" "map_of entry key = Some v"
    by (auto simp: getitem_eq_Inr dest: map_of_SomeD intro: rev_image_eqI)
  with assms(1) show ?thesis
    using map_of_map_snd [of "\<lambda>k. kept (affinity_of h t k)" entry key]
    by (simp add: new_row_def with_id_def field_def)
qed

lemma has_ids_snoc:
  "has_ids rows \<Longrightarrow> ''id'' \<notin> set (keys entry) \<Longrightarrow> has_ids (rows @ [new_row h t entry])"
  by (simp add: has_ids_def new_row_id)

lemma found_snoc:
  assumes "''id'' \<notin> set (keys entry)" and "getitem entry key = Inr v"
    and "isinstance_int v \<or> \<not> is_number v"
  shows "found (affinity_of h t) key v (rows @ [new_row h t entry]) =
           found (affinity_of h t) key v rows @ [new_row h t entry]"
  using holds_stored [where aff = "affinity_of h t", OF new_row_field [OF assms(1,2)] assms(3)]
  by (simp add: found_def)

lemma found_ids:
  assumes "has_ids rows" and "found aff key v rows \<noteq> []"
  shows "id_shape (map (\<lambda>r. field r ''id'') (found aff key v rows)) \<noteq> IdScalar PNone"
proof -
  from assms(2) obtain r where "r \<in> set (found aff key v rows)"
    by (cases "found aff key v rows") auto
  with has_ids_field [OF has_ids_found [OF assms(1), of aff key v]] assms(2) show ?thesis
    by (auto simp: id_shape_None)
qed

section \<open>Insert if absent, on every path\<close>

lemma add_unique_mem:
  assumes "db_sqlite self = Some True" and "map_of (st_tables (db_handle self)) t = Some rows"
    and "has_ids rows" and "name t" and "wf_dict entry" and "''id'' \<notin> set (keys entry)"
    and "getitem entry key = Inr v" and "filter_key key" and "filter_val v"
  shows "add_unique mem_driver t entry key self =
    (if found (affinity_of (db_handle self) t) key v rows \<noteq> []
     then (Inr (id_shape (map (\<lambda>r. field r ''id'')
                  (found (affinity_of (db_handle self) t) key v rows))), self)
     else if unique_ok (db_handle self) t (rows @ [new_row (db_handle self) t entry])
     then (Inr (id_shape (map (\<lambda>r. field r ''id'')
                  (found (affinity_of (db_handle self) t) key v
                     (rows @ [new_row (db_handle self) t entry])))),
           self\<lparr>db_handle :=
             inserted t (rows @ [new_row (db_handle self) t entry]) (db_handle self)\<rparr>)
     else (Inr (IdScalar PNone), self))"
proof -
  let ?h = "db_handle self"
  let ?rows' = "rows @ [new_row ?h t entry]"
  let ?s = "self\<lparr>db_handle := inserted t ?rows' ?h\<rparr>"
  from assms(7) have ne: "entry \<noteq> []" by (auto simp: getitem_def)
  note unfold = add_unique_unfold [OF ne assms(7), of mem_driver t]
  note lookup = get_id_mem [OF assms(2,3,4,8,9)]
  show ?thesis
  proof (cases "found (affinity_of ?h t) key v rows = []")
    case False
    with found_ids [OF assms(3) this] lookup show ?thesis
      by (simp add: unfold bind_def ret_apply)
  next
    case True
    note add = insert_mem [OF assms(1,2,4,5) ne]
    show ?thesis
    proof (cases "unique_ok ?h t ?rows'")
      case False
      with True lookup add show ?thesis
        by (simp add: unfold bind_def catch_def ret_apply id_shape_def)
    next
      case ok: True
      have "get_id mem_driver t [(key, v)] ?s =
          (Inr (id_shape (map (\<lambda>r. field r ''id'') (found (affinity_of (db_handle ?s) t) key v ?rows'))),
           ?s)"
        by (rule get_id_mem [OF _ has_ids_snoc [OF assms(3,6)] assms(4,8,9)]) (simp add: assms(2))
      with True ok lookup add show ?thesis
        by (simp add: unfold bind_def catch_def ret_apply id_shape_def)
    qed
  qed
qed

section \<open>The example table\<close>

lemma example_names [simp]:
  "name ''person''" "filter_key ''name''" "wf_dict [(''name'', PStr ''bob'')]"
  "wf_dict [(''name'', PStr ''007'')]" "wf_dict [(''name'', PStr [CHR ''a'', bslash, colon, CHR ''b''])]"
  "parse_int ''bob'' = None" "parse_int ''eve'' = None" "\<not> numeric_literal ''bob''"
  "parse_int ''007'' = Some 7" "str_int 7 = ''7''"
  by code_simp+

lemma mem_db_fields [simp]:
  "db_handle (mem_db h) = h" "db_sqlite (mem_db h) = Some True"
  "mem_db h\<lparr>db_handle := h'\<rparr> = mem_db h'"
  by (simp_all add: mem_db_def)

lemma persons_fields [simp]:
  "map_of (st_tables (persons rows n)) ''person'' = Some rows"
  "st_next (persons rows n) = n"
  "inserted ''person'' rows' (persons rows n) = persons rows' (n + 1)"
  "unique_ok (persons rows n) ''person'' rows' =
     distinct (filter (\<lambda>v. v \<noteq> PNone) (map (\<lambda>r. field r ''name'') rows'))"
  "affinity_of (persons rows n) ''person'' ''name'' = A_TEXT"
  "affinity_of (persons rows n) ''person'' ''id'' = A_INTEGER"
  by (simp_all add: persons_def inserted_def set_table_def unique_ok_def affinity_of_def)

section \<open>Reading from the store\<close>

text \<open>
  C26. \<^verbatim>\<open>get(table, key=v)\<close> against the store returns the rows of the table
  whose column \<open>key\<close> is NULL, when \<open>v\<close> is None, and otherwise those whose
  column equals \<open>v\<close> (an int as a number, any other value as its text,
  converted by the affinity of the column), in the order of the table, and
  leaves the store as it was. The text is compared as the database hears it:
  \<^verbatim>\<open>get\<close> does not escape colons, so a backslash before a colon in the text is
  taken for an escape and lost; a text without such a pair is compared as it
  is.
\<close>

theorem get_mem_rows:
  assumes "map_of (st_tables (db_handle self)) t = Some rows"
    and "name t" and "filter_key key" and "pyval_wf v"
  shows "call_get mem_driver t [(key, v)] self =
     (Inr (filter (\<lambda>r. if v = PNone then field r key = PNone
                       else same (field r key)
                              (coerce (affinity_of (db_handle self) t key)
                                 (if isinstance_int v then PInt (int_of v)
                                  else PStr (unescape_colon (py_str v)))))
             rows), self)"
  using select_heard [OF assms] assms(4)
  by (cases v)
    (simp_all add: found_def holds_asked asked_def said_def float_repr_free unescape_colon_free_end)

theorem get_mem_rows_witness:
  "call_get mem_driver ''person'' [(''name'', PStr (''a'' @ [bslash] @ '':b''))]
     (mem_db (persons [[(''id'', PInt 1), (''name'', PStr ''a:b'')],
                       [(''id'', PInt 2), (''name'', PStr (''a'' @ [bslash] @ '':b''))]] 3)) =
   (Inr [[(''id'', PInt 1), (''name'', PStr ''a:b'')]],
    mem_db (persons [[(''id'', PInt 1), (''name'', PStr ''a:b'')],
                     [(''id'', PInt 2), (''name'', PStr (''a'' @ [bslash] @ '':b''))]] 3))"
  using get_mem_rows [of "mem_db (persons [[(''id'', PInt 1), (''name'', PStr ''a:b'')],
      [(''id'', PInt 2), (''name'', PStr (''a'' @ [bslash] @ '':b''))]] 3)" "''person''" _
      "''name''" "PStr (''a'' @ [bslash] @ '':b'')"]
  by (simp add: field_def same_def)

section \<open>Insert if absent\<close>

text \<open>
  C27. \<^verbatim>\<open>add_unique\<close> is idempotent on the store: whatever a call returned and
  whatever store it left, a second call with the same arguments returns the
  same and leaves the store as the first call left it. The table has ids, the
  entry has the key and no id of its own, and the key's value is one that
  \<^verbatim>\<open>add\<close> and \<^verbatim>\<open>get\<close> write alike: an \<^verbatim>\<open>int\<close>, a \<^verbatim>\<open>bool\<close>, None, or a text
  that is not a number and holds no backslash before a colon.
\<close>

theorem add_unique_idempotent:
  assumes "db_sqlite self = Some True" and "map_of (st_tables (db_handle self)) t = Some rows"
    and "has_ids rows" and "name t" and "wf_dict entry" and "''id'' \<notin> set (keys entry)"
    and "getitem entry key = Inr v" and "filter_key key" and "filter_val v"
    and "isinstance_int v \<or> \<not> is_number v"
    and "add_unique mem_driver t entry key self = (r, s)"
  shows "add_unique mem_driver t entry key s = (r, s)"
proof -
  let ?h = "db_handle self"
  let ?rows' = "rows @ [new_row ?h t entry]"
  note first = add_unique_mem [OF assms(1-9)]
  note snoc = found_snoc [OF assms(6,7,10), of ?h t rows]
  show ?thesis
  proof (cases "found (affinity_of ?h t) key v rows = [] \<and> unique_ok ?h t ?rows'")
    case False
    with first assms(11) have "s = self" by (auto split: if_splits)
    with assms(11) show ?thesis by simp
  next
    case True
    with first assms(11)
    have s: "s = self\<lparr>db_handle := inserted t ?rows' ?h\<rparr>"
      and r: "r = Inr (id_shape (map (\<lambda>r. field r ''id'') (found (affinity_of ?h t) key v ?rows')))"
      by simp_all
    have "add_unique mem_driver t entry key s =
        (Inr (id_shape (map (\<lambda>r. field r ''id'') (found (affinity_of ?h t) key v ?rows'))), s)"
      using add_unique_mem [OF _ _ has_ids_snoc [OF assms(3,6)] assms(4-9), of s ?h t]
      by (simp add: s assms(1,2) snoc)
    with r show ?thesis by simp
  qed
qed

theorem add_unique_idempotent_witness:
  "add_unique mem_driver ''person'' [(''name'', PStr ''bob'')] ''name''
     (mem_db (persons [[(''id'', PInt 1), (''name'', PStr ''bob'')]] 2)) =
   (Inr (IdScalar (PInt 1)), mem_db (persons [[(''id'', PInt 1), (''name'', PStr ''bob'')]] 2))"
  using add_unique_idempotent [of "mem_db (persons [] 1)" "''person''" "[]"
      "[(''name'', PStr ''bob'')]" "''name''" "PStr ''bob''" "Inr (IdScalar (PInt 1))"
      "mem_db (persons [[(''id'', PInt 1), (''name'', PStr ''bob'')]] 2)"]
    add_unique_mem [of "mem_db (persons [] 1)" "''person''" "[]"
      "[(''name'', PStr ''bob'')]" "''name''" "PStr ''bob''"]
  by (simp add: filter_val_def said_def has_ids_def getitem_def found_def new_row_def with_id_def
        kept_def lit_of_def cond_of_def same_def field_def id_shape_def)

text \<open>
  C28. When no row of the table has the key's value, \<^verbatim>\<open>add_unique\<close> inserts:
  if the UNIQUE constraints of the table admit the new row, the row is
  stored with the next automatic id, it is then the one row that has the
  value, and its id is returned; if they do not, nothing is stored and None
  is returned. The key's value is one that \<^verbatim>\<open>add\<close> and \<^verbatim>\<open>get\<close> write alike.
\<close>

theorem add_unique_absent:
  assumes "db_sqlite self = Some True" and "map_of (st_tables (db_handle self)) t = Some rows"
    and "has_ids rows" and "name t" and "wf_dict entry" and "''id'' \<notin> set (keys entry)"
    and "getitem entry key = Inr v" and "filter_key key" and "filter_val v"
    and "isinstance_int v \<or> \<not> is_number v"
    and "found (affinity_of (db_handle self) t) key v rows = []"
  shows "add_unique mem_driver t entry key self =
     (if unique_ok (db_handle self) t (rows @ [new_row (db_handle self) t entry])
      then (Inr (IdScalar (PInt (st_next (db_handle self)))),
            self\<lparr>db_handle :=
              inserted t (rows @ [new_row (db_handle self) t entry]) (db_handle self)\<rparr>)
      else (Inr (IdScalar PNone), self)) \<and>
    found (affinity_of (db_handle self) t) key v (rows @ [new_row (db_handle self) t entry]) =
      [new_row (db_handle self) t entry] \<and>
    field (new_row (db_handle self) t entry) ''id'' = PInt (st_next (db_handle self))"
  using add_unique_mem [OF assms(1-9)] assms(11)
  by (simp add: found_snoc [OF assms(6,7,10)] id_shape_def field_def new_row_id [OF assms(6)])

theorem add_unique_absent_witness:
  "add_unique mem_driver ''person'' [(''name'', PStr ''bob'')] ''name'' (mem_db (persons [] 1)) =
     (Inr (IdScalar (PInt 1)), mem_db (persons [[(''id'', PInt 1), (''name'', PStr ''bob'')]] 2))"
  using add_unique_absent [of "mem_db (persons [] 1)" "''person''" "[]"
      "[(''name'', PStr ''bob'')]" "''name''" "PStr ''bob''"]
  by (simp add: filter_val_def said_def has_ids_def getitem_def found_def new_row_def with_id_def
        kept_def lit_of_def field_def)

text \<open>
  C29. What \<^verbatim>\<open>add\<close> stored is found again: after a successful insert, a
  \<^verbatim>\<open>get\<close> on any key of the entry with the entry's value returns the rows
  that had the value before, followed by the new row, when the value is one
  that \<^verbatim>\<open>add\<close> and \<^verbatim>\<open>get\<close> write alike.
\<close>

theorem add_then_get:
  assumes "db_sqlite self = Some True" and "map_of (st_tables (db_handle self)) t = Some rows"
    and "name t" and "wf_dict entry" and "''id'' \<notin> set (keys entry)"
    and "getitem entry key = Inr v" and "filter_key key" and "filter_val v"
    and "isinstance_int v \<or> \<not> is_number v"
    and "add mem_driver t entry self = (Inr (), s)"
  shows "call_get mem_driver t [(key, v)] s =
           (Inr (found (affinity_of (db_handle self) t) key v rows @
                 [new_row (db_handle self) t entry]), s)"
proof -
  from assms(6) have ne: "entry \<noteq> []" by (auto simp: getitem_def)
  from insert_mem [OF assms(1-4) ne] assms(10)
  have "s = self\<lparr>db_handle :=
      inserted t (rows @ [new_row (db_handle self) t entry]) (db_handle self)\<rparr>"
    by (simp split: if_splits)
  with assms(2) show ?thesis
    using select_mem [OF _ assms(3,7,8), of s "rows @ [new_row (db_handle self) t entry]"]
    by (simp add: found_snoc [OF assms(5,6,9)])
qed

theorem add_then_get_witness:
  "add mem_driver ''person'' [(''name'', PStr ''bob'')] (mem_db (persons [] 1)) =
     (Inr (), mem_db (persons [[(''id'', PInt 1), (''name'', PStr ''bob'')]] 2)) \<and>
   call_get mem_driver ''person'' [(''name'', PStr ''bob'')]
      (mem_db (persons [[(''id'', PInt 1), (''name'', PStr ''bob'')]] 2)) =
   (Inr [[(''id'', PInt 1), (''name'', PStr ''bob'')]],
    mem_db (persons [[(''id'', PInt 1), (''name'', PStr ''bob'')]] 2))"
  using add_then_get [of "mem_db (persons [] 1)" "''person''" "[]"
      "[(''name'', PStr ''bob'')]" "''name''" "PStr ''bob''"
      "mem_db (persons [[(''id'', PInt 1), (''name'', PStr ''bob'')]] 2)"]
    insert_mem [of "mem_db (persons [] 1)" "''person''" "[]" "[(''name'', PStr ''bob'')]"]
  by (simp add: filter_val_def said_def getitem_def found_def new_row_def with_id_def
        kept_def lit_of_def field_def)

section \<open>A text that reads as a number\<close>

lemma digits_plain:
  assumes "all_digits r"
  shows "takeWhile (\<lambda>c. \<not> exp_mark c) r = r" and "dropWhile (\<lambda>c. \<not> exp_mark c) r = []"
    and "is_mantissa r" and "bslash \<notin> set r" and "strip_sign r = r"
proof -
  from assms have d: "\<forall>c \<in> set r. is_digit c" "r \<noteq> []"
    by (simp_all add: all_digits_def list_all_iff)
  from d(1) have e: "\<forall>c \<in> set r. \<not> exp_mark c" by (auto simp: exp_mark_def is_digit_def)
  from e show "takeWhile (\<lambda>c. \<not> exp_mark c) r = r" by (simp add: takeWhile_eq_all_conv)
  from e show "dropWhile (\<lambda>c. \<not> exp_mark c) r = []" by simp
  from d have dw: "dropWhile is_digit r = []" by simp
  from d(2) show "is_mantissa r" unfolding is_mantissa_def dw by simp
  from d(1) show "bslash \<notin> set r" by (auto simp: is_digit_def)
  from d show "strip_sign r = r" by (cases r) (auto simp: strip_sign_def is_digit_def)
qed

lemma parse_int_numeric:
  assumes "parse_int s = Some i"
  shows "numeric_literal s" and "bslash \<notin> set s"
proof -
  from assms obtain r where r: "all_digits r" "s = r \<or> s = CHR ''-'' # r"
    by (auto simp: parse_int_def split: list.splits if_splits)
  from r(2) digits_plain(5) [OF r(1)] have st: "strip_sign s = r" by (auto simp: strip_sign_def)
  from digits_plain(3) [OF r(1)] show "numeric_literal s"
    unfolding numeric_literal_def Let_def st digits_plain(1,2) [OF r(1)] by simp
  from r(2) digits_plain(4) [OF r(1)] show "bslash \<notin> set s" by auto
qed

text \<open>
  C32. A text that reads as an integer is not kept as written in a TEXT
  column: \<^verbatim>\<open>add\<close> writes it without quotes, so the column keeps the text of
  the integer, which is another text unless the entry's text is the plain
  decimal. On such a text \<^verbatim>\<open>add_unique\<close> finds no row before the insert and
  none after it: it stores the row and returns None.
\<close>

theorem add_unique_numeric_text:
  assumes "db_sqlite self = Some True" and "map_of (st_tables (db_handle self)) t = Some rows"
    and "has_ids rows" and "name t" and "wf_dict entry" and "''id'' \<notin> set (keys entry)"
    and "getitem entry key = Inr (PStr s)" and "filter_key key"
    and "parse_int s = Some i" and "s \<noteq> str_int i"
    and "affinity_of (db_handle self) t key = A_TEXT"
    and "found (affinity_of (db_handle self) t) key (PStr s) rows = []"
    and "unique_ok (db_handle self) t (rows @ [new_row (db_handle self) t entry])"
  shows "add_unique mem_driver t entry key self =
      (Inr (IdScalar PNone),
       self\<lparr>db_handle :=
         inserted t (rows @ [new_row (db_handle self) t entry]) (db_handle self)\<rparr>) \<and>
    field (new_row (db_handle self) t entry) key = PStr (str_int i)"
proof -
  from parse_int_numeric [OF assms(9)] have fv: "filter_val (PStr s)" and num: "numeric_literal s"
    by (simp_all add: filter_val_def said_def numeric_free unescape_colon_free_end)
  from num assms(9,11) have kept: "kept (affinity_of (db_handle self) t key) (PStr s) = PStr (str_int i)"
    by (simp add: kept_def lit_of_def)
  with new_row_field [OF assms(6,7)]
  have fld: "field (new_row (db_handle self) t entry) key = PStr (str_int i)" by simp
  with assms(10,11)
  have "\<not> holds (affinity_of (db_handle self) t) (new_row (db_handle self) t entry)
      (cond_of (key, PStr s))"
    by (simp add: holds_asked asked_def same_def)
  with add_unique_mem [OF assms(1-8) fv] assms(12,13) fld show ?thesis
    by (simp add: found_def id_shape_def)
qed

theorem add_unique_numeric_text_witness:
  "add_unique mem_driver ''person'' [(''name'', PStr ''007'')] ''name'' (mem_db (persons [] 1)) =
     (Inr (IdScalar PNone), mem_db (persons [[(''id'', PInt 1), (''name'', PStr ''7'')]] 2))"
  using add_unique_numeric_text [of "mem_db (persons [] 1)" "''person''" "[]"
      "[(''name'', PStr ''007'')]" "''name''" "''007''" 7]
  by (simp add: has_ids_def getitem_def found_def new_row_def with_id_def kept_def lit_of_def
        field_def numeric_unfold)

section \<open>A text with an escaped colon\<close>

lemma unescape_colon_changed:
  "unescape_colon s \<noteq> s \<Longrightarrow> colon \<in> set (unescape_colon s) \<and> bslash \<in> set s"
  by (induction s rule: unescape_colon.induct) (auto split: if_splits)

lemma numeric_no_colon: "numeric_literal r \<Longrightarrow> colon \<notin> set r"
  using numeric_literal_num_char [of r] by (auto simp: list_all_iff num_char_def is_digit_def)

lemma coerce_text: "\<not> numeric_literal s \<Longrightarrow> coerce a (PStr s) = PStr s"
  using parse_int_numeric(1) [of s] by (cases a; cases "parse_int s") auto

text \<open>
  C30. A text with a backslash before a colon that \<^verbatim>\<open>add\<close> stored is not found
  by a \<^verbatim>\<open>get\<close> for the same text: \<^verbatim>\<open>add\<close> escapes the colon and the row keeps
  the text as it is, while \<^verbatim>\<open>get\<close> does not, so the database looks for the
  text without the backslash, and the answer holds rows that were there
  before and never the new one.
\<close>

theorem add_then_get_escaped:
  assumes "db_sqlite self = Some True" and "map_of (st_tables (db_handle self)) t = Some rows"
    and "name t" and "wf_dict entry" and "''id'' \<notin> set (keys entry)"
    and "getitem entry key = Inr (PStr s)" and "filter_key key" and "unescape_colon s \<noteq> s"
    and "add mem_driver t entry self = (Inr (), s')"
  shows "call_get mem_driver t [(key, PStr s)] s' =
           (Inr (found (affinity_of (db_handle self) t) key (PStr (unescape_colon s)) rows), s') \<and>
         field (new_row (db_handle self) t entry) key = PStr s"
proof -
  from assms(6) have ne: "entry \<noteq> []" by (auto simp: getitem_def)
  from unescape_colon_changed [OF assms(8)]
  have num: "\<not> numeric_literal s" "\<not> numeric_literal (unescape_colon s)"
    using numeric_free [of s] numeric_no_colon [of "unescape_colon s"] by auto
  from new_row_field [OF assms(5,6)] num(1)
  have fld: "field (new_row (db_handle self) t entry) key = PStr s"
    by (simp add: kept_def lit_of_def coerce_text)
  from insert_mem [OF assms(1-4) ne] assms(9)
  have "s' = self\<lparr>db_handle :=
      inserted t (rows @ [new_row (db_handle self) t entry]) (db_handle self)\<rparr>"
    by (simp split: if_splits)
  with assms(2,8) fld num(2) show ?thesis
    using select_heard [OF _ assms(3,7), of s' "rows @ [new_row (db_handle self) t entry]" "PStr s"]
    by (simp add: said_def found_def holds_asked asked_def coerce_text same_def)
qed

theorem add_then_get_escaped_witness:
  "add mem_driver ''person'' [(''name'', PStr (''a'' @ [bslash] @ '':b''))] (mem_db (persons [] 1)) =
     (Inr (), mem_db (persons [[(''id'', PInt 1), (''name'', PStr (''a'' @ [bslash] @ '':b''))]] 2)) \<and>
   call_get mem_driver ''person'' [(''name'', PStr (''a'' @ [bslash] @ '':b''))]
      (mem_db (persons [[(''id'', PInt 1), (''name'', PStr (''a'' @ [bslash] @ '':b''))]] 2)) =
   (Inr [], mem_db (persons [[(''id'', PInt 1), (''name'', PStr (''a'' @ [bslash] @ '':b''))]] 2))"
  using add_then_get_escaped [of "mem_db (persons [] 1)" "''person''" "[]"
      "[(''name'', PStr (''a'' @ [bslash] @ '':b''))]" "''name''" "''a'' @ [bslash] @ '':b''"
      "mem_db (persons [[(''id'', PInt 1), (''name'', PStr (''a'' @ [bslash] @ '':b''))]] 2)"]
    insert_mem [of "mem_db (persons [] 1)" "''person''" "[]"
      "[(''name'', PStr (''a'' @ [bslash] @ '':b''))]"]
  by (simp add: getitem_def found_def new_row_def with_id_def kept_def lit_of_def
        field_def numeric_unfold)

section \<open>An update without conditions\<close>

text \<open>
  C31. \<^verbatim>\<open>update\<close> with an entry and no conditions fails on the store with the
  driver's syntax error and changes nothing: the statement it sends ends in
  a dangling \<^verbatim>\<open>WHERE\<close>, which the store does not read.
\<close>

theorem update_mem_rejected:
  assumes "db_sqlite self = Some True" and "entry \<noteq> []" and "name t" and "wf_dict entry"
  shows "update mem_driver t entry [] self = (Inl (DriverError ''syntax error''), self)"
proof -
  have "read_sql (unescape_colon (render True (update_stmt t entry []))) = None"
    unfolding update_stmt_def
    by (rule read_sql_update_dangling(2) [OF wf_update_stmt [unfolded update_stmt_def]])
      (use assms in \<open>simp_all add: wf_dict_def\<close>)
  from do_mem_reject [OF this, of self] show ?thesis
    by (simp add: update_send [OF assms(2)] update_sql_render [OF assms(1)] bind_def)
qed

theorem update_mem_rejected_witness:
  "update mem_driver ''person'' [(''name'', PStr ''bob'')] [] (mem_db (persons [] 1)) =
     (Inl (DriverError ''syntax error''), mem_db (persons [] 1))"
  using update_mem_rejected [of "mem_db (persons [] 1)" "[(''name'', PStr ''bob'')]" "''person''"]
  by simp

end
