(* ===== verification/Race.thy ===== *)
theory Race
  imports MemStore
begin

text \<open>
  \<^verbatim>\<open>add_unique\<close> under concurrency. The method makes three calls of the
  driver: a lookup, an insert whose failure it ignores, and a second lookup.
  Here it is cut at these calls into a machine of four phases (\<open>au_step\<close>),
  which run in sequence is the method itself. Several clients, each with a
  connection of its own to one database in memory, then take their steps in
  any order (\<open>race\<close>, and \<open>sched\<close> for a given schedule).
\<close>

section \<open>The method in three steps\<close>

datatype phase = P_lookup | P_insert | P_relookup | P_done "id_result res"

fun au_step :: "'h driver \<Rightarrow> string \<Rightarrow> pydict \<Rightarrow> string \<Rightarrow> phase \<times> 'h DB \<Rightarrow> phase \<times> 'h DB" where
  "au_step drv table entry key (P_lookup, self) =
     (if entry = [] then (P_done (Inl (RuntimeError ''No values provided'')), self)
      else case bind (lift (getitem entry key)) (\<lambda>v. get_id drv table [(key, v)]) self of
             (Inl e, s) \<Rightarrow> (P_done (Inl e), s)
           | (Inr ids, s) \<Rightarrow>
               if ids \<noteq> IdScalar PNone then (P_done (Inr ids), s) else (P_insert, s))"
| "au_step drv table entry key (P_insert, self) =
     (P_relookup, snd (catch (add drv table entry) (\<lambda>e. ret ()) self))"
| "au_step drv table entry key (P_relookup, self) =
     (case bind (lift (getitem entry key)) (\<lambda>v. get_id drv table [(key, v)]) self of
        (r, s) \<Rightarrow> (P_done r, s))"
| "au_step drv table entry key (P_done r, self) = (P_done r, self)"

text \<open>The calls of the driver a client has still to make, at most.\<close>

fun steps_left :: "phase \<Rightarrow> nat" where
  "steps_left P_lookup = 3"
| "steps_left P_insert = 2"
| "steps_left P_relookup = 1"
| "steps_left (P_done r) = 0"

section \<open>Clients on one database\<close>

text \<open>
  A configuration is the database and the phase of every client. Client \<open>i\<close>
  calls \<^verbatim>\<open>add_unique(table, jobs[i], key)\<close> on an sqlite connection of its own.
\<close>

type_synonym config = "store \<times> phase list"

inductive race :: "string \<Rightarrow> string \<Rightarrow> pydict list \<Rightarrow> config \<Rightarrow> config \<Rightarrow> bool"
  for table key jobs where
  step: "i < length jobs \<Longrightarrow> length phs = length jobs \<Longrightarrow> steps_left (phs ! i) \<noteq> 0 \<Longrightarrow>
     au_step mem_driver table (jobs ! i) key (phs ! i, mem_db h) = (ph, s) \<Longrightarrow>
     race table key jobs (h, phs) (db_handle s, phs[i := ph])"

text \<open>A schedule names the client that takes the next step; a client that is done is skipped.\<close>

fun sched :: "string \<Rightarrow> string \<Rightarrow> pydict list \<Rightarrow> nat list \<Rightarrow> config \<Rightarrow> config" where
  "sched table key jobs [] c = c"
| "sched table key jobs (i # is) (h, phs) =
     (if i < length jobs \<and> steps_left (phs ! i) \<noteq> 0
      then case au_step mem_driver table (jobs ! i) key (phs ! i, mem_db h) of
             (ph, s) \<Rightarrow> sched table key jobs is (db_handle s, phs[i := ph])
      else sched table key jobs is (h, phs))"

section \<open>Clients that add the same value\<close>

text \<open>The one UNIQUE constraint on the table is the one on the key.\<close>

definition unique_on :: "store \<Rightarrow> string \<Rightarrow> string \<Rightarrow> bool" where
  "unique_on h table key \<longleftrightarrow>
     (table, key) \<in> set (st_unique h) \<and>
     list_all (\<lambda>tk. fst tk = table \<longrightarrow> snd tk = key) (st_unique h)"

text \<open>
  Every client's entry has the value \<open>v\<close> under the key; the value is not None
  and is one that \<^verbatim>\<open>add\<close> and \<^verbatim>\<open>get\<close> write alike.
\<close>

definition same_job :: "string \<Rightarrow> string \<Rightarrow> pyval \<Rightarrow> pydict list \<Rightarrow> bool" where
  "same_job table key v jobs \<longleftrightarrow>
     name table \<and> filter_key key \<and> filter_val v \<and> v \<noteq> PNone \<and>
     (isinstance_int v \<or> \<not> is_number v) \<and>
     list_all (\<lambda>e. wf_dict e \<and> ''id'' \<notin> set (keys e) \<and> getitem e key = Inr v) jobs"

text \<open>
  What a phase knows of the table: a client that has tried its insert, or has
  its result, has seen to it that a row with the value exists, and a result
  is the id of that row.
\<close>

definition settled :: "(string \<Rightarrow> affinity) \<Rightarrow> string \<Rightarrow> pyval \<Rightarrow> row list \<Rightarrow> phase \<Rightarrow> bool" where
  "settled aff key v rows ph =
     (case ph of
        P_relookup \<Rightarrow> found aff key v rows \<noteq> []
      | P_done r \<Rightarrow> found aff key v rows \<noteq> [] \<and>
                     r = Inr (id_shape (map (\<lambda>r. field r ''id'') (found aff key v rows)))
      | _ \<Rightarrow> True)"

definition race_inv :: "string \<Rightarrow> string \<Rightarrow> pyval \<Rightarrow> config \<Rightarrow> bool" where
  "race_inv table key v c \<longleftrightarrow>
     unique_on (fst c) table key \<and>
     (case map_of (st_tables (fst c)) table of
        None \<Rightarrow> False
      | Some rows \<Rightarrow> has_ids rows \<and> unique_ok (fst c) table rows \<and>
                      list_all (settled (affinity_of (fst c) table) key v rows) (snd c))"


section \<open>The steps make the method\<close>

inductive_cases raceE: "race table key jobs c c'"


lemma steps_left_le: "steps_left (fst (au_step drv table entry key (ph, self))) \<le> steps_left ph - 1"
  by (cases ph) (auto split: prod.splits sum.splits)

section \<open>Every execution ends\<close>



lemma race_length:
  "race table key jobs c c' \<Longrightarrow> length (snd c) = length jobs \<and> length (snd c') = length jobs"
  by (auto elim: raceE)

lemma sched_length [simp]:
  "length (snd (sched table key jobs is c)) = length (snd c)"
  by (induction table key jobs "is" c rule: sched.induct) (auto split: prod.splits)

lemma sched_race:
  "length (snd c) = length jobs \<Longrightarrow> (race table key jobs)\<^sup>*\<^sup>* c (sched table key jobs is c)"
proof (induction table key jobs "is" c rule: sched.induct)
  case (2 table key jobs i "is" h phs)
  show ?case
  proof (cases "i < length jobs \<and> steps_left (phs ! i) \<noteq> 0")
    case True
    obtain ph s where st: "au_step mem_driver table (jobs ! i) key (phs ! i, mem_db h) = (ph, s)"
      by (cases "au_step mem_driver table (jobs ! i) key (phs ! i, mem_db h)")
    with True "2.prems" have "race table key jobs (h, phs) (db_handle s, phs[i := ph])"
      by (intro race.step) simp_all
    moreover from "2.IH"(1) [OF True st [symmetric]] "2.prems"
    have "(race table key jobs)\<^sup>*\<^sup>* (db_handle s, phs[i := ph])
        (sched table key jobs is (db_handle s, phs[i := ph]))" by simp
    ultimately show ?thesis using True st by (simp add: converse_rtranclp_into_rtranclp)
  next
    case False
    with "2.IH"(2) "2.prems" show ?thesis by auto
  qed
qed simp

text \<open>The phase of a client after a schedule, by the number of its turns.\<close>

lemma sched_steps_left:
  "length (snd c) = length jobs \<Longrightarrow> i < length jobs \<Longrightarrow>
   steps_left (snd (sched table key jobs is c) ! i) \<le> steps_left (snd c ! i) - count_list is i"
proof (induction table key jobs "is" c rule: sched.induct)
  case (2 table key jobs j "is" h phs)
  show ?case
  proof (cases "j < length jobs \<and> steps_left (phs ! j) \<noteq> 0")
    case True
    obtain ph s where st: "au_step mem_driver table (jobs ! j) key (phs ! j, mem_db h) = (ph, s)"
      by (cases "au_step mem_driver table (jobs ! j) key (phs ! j, mem_db h)")
    from steps_left_le [of mem_driver table "jobs ! j" key "phs ! j" "mem_db h"] st
    have "steps_left ph \<le> steps_left (phs ! j) - 1" by simp
    with "2.IH"(1) [OF True st [symmetric]] "2.prems" True st show ?thesis
      by (cases "i = j") (auto simp: nth_list_update)
  next
    case False
    with "2.IH"(2) "2.prems" show ?thesis by (cases "i = j") auto
  qed
qed simp

lemma steps_left_le_3: "steps_left ph \<le> 3"
  by (cases ph) simp_all

section \<open>The steps on the database in memory\<close>

lemma au_step_mem:
  assumes "db_sqlite self = Some True" and "map_of (st_tables (db_handle self)) t = Some rows"
    and "has_ids rows" and "name t" and "wf_dict entry" and "''id'' \<notin> set (keys entry)"
    and "getitem entry key = Inr v" and "filter_key key" and "filter_val v"
  shows "au_step mem_driver t entry key (P_lookup, self) =
      (if found (affinity_of (db_handle self) t) key v rows = [] then P_insert
       else P_done (Inr (id_shape (map (\<lambda>r. field r ''id'')
                           (found (affinity_of (db_handle self) t) key v rows)))), self)"
    and "au_step mem_driver t entry key (P_insert, self) =
      (P_relookup,
       if unique_ok (db_handle self) t (rows @ [new_row (db_handle self) t entry])
       then self\<lparr>db_handle :=
              inserted t (rows @ [new_row (db_handle self) t entry]) (db_handle self)\<rparr>
       else self)"
    and "au_step mem_driver t entry key (P_relookup, self) =
      (P_done (Inr (id_shape (map (\<lambda>r. field r ''id'')
                      (found (affinity_of (db_handle self) t) key v rows)))), self)"
proof -
  from assms(7) have ne: "entry \<noteq> []" by (auto simp: getitem_def)
  note lookup = get_id_mem [OF assms(2,3,4,8,9)]
  show "au_step mem_driver t entry key (P_lookup, self) =
      (if found (affinity_of (db_handle self) t) key v rows = [] then P_insert
       else P_done (Inr (id_shape (map (\<lambda>r. field r ''id'')
                           (found (affinity_of (db_handle self) t) key v rows)))), self)"
    using found_ids [OF assms(3), of "affinity_of (db_handle self) t" key v] lookup ne assms(7)
    by (auto simp: bind_def lift_def id_shape_def)
  show "au_step mem_driver t entry key (P_insert, self) =
      (P_relookup,
       if unique_ok (db_handle self) t (rows @ [new_row (db_handle self) t entry])
       then self\<lparr>db_handle :=
              inserted t (rows @ [new_row (db_handle self) t entry]) (db_handle self)\<rparr>
       else self)"
    by (simp add: catch_def ret_apply insert_mem [OF assms(1,2,4,5) ne])
  show "au_step mem_driver t entry key (P_relookup, self) =
      (P_done (Inr (id_shape (map (\<lambda>r. field r ''id'')
                      (found (affinity_of (db_handle self) t) key v rows)))), self)"
    using lookup assms(7) by (simp add: bind_def lift_def)
qed

section \<open>A UNIQUE constraint and the filter\<close>

lemma unique_ok_on:
  "unique_on h t key \<Longrightarrow>
   unique_ok h t rows \<longleftrightarrow>
     distinct (filter (\<lambda>v. v \<noteq> PNone) (map (\<lambda>r. field r key) rows))"
  by (fastforce simp: unique_on_def unique_ok_def list_all_iff)

lemma holds_kept:
  assumes "v \<noteq> PNone" and "isinstance_int v \<or> \<not> is_number v"
  shows "holds aff r (cond_of (key, v)) \<longleftrightarrow> field r key = kept (aff key) v"
  using kept_asked [OF assms(2,1), of "aff key"] kept_not_None [OF assms(1), of "aff key"] assms(1)
  by (auto simp: holds_asked same_def)

lemma distinct_filter_one:
  "distinct (filter P (map g xs)) \<Longrightarrow> \<forall>x \<in> set xs. Q x \<longrightarrow> P (g x) \<and> g x = c \<Longrightarrow>
   length (filter Q xs) \<le> 1"
proof (induction xs)
  case (Cons x xs)
  show ?case
  proof (cases "Q x")
    case True
    with Cons.prems have "\<forall>y \<in> set xs. \<not> Q y" by (fastforce simp: image_iff)
    then have "filter Q xs = []" by (simp add: filter_empty_conv)
    with True show ?thesis by simp
  next
    case False
    with Cons show ?thesis by (auto split: if_splits)
  qed
qed simp

lemma found_unique:
  assumes "unique_on h t key" and "unique_ok h t rows"
    and "v \<noteq> PNone" and "isinstance_int v \<or> \<not> is_number v"
  shows "length (found aff key v rows) \<le> 1"
  unfolding found_def
  using assms(2) unfolding unique_ok_on [OF assms(1)]
  by (rule distinct_filter_one [where c = "kept (aff key) v"])
    (simp add: holds_kept [OF assms(3,4)] kept_not_None [OF assms(3)])

lemma stored_blocks:
  assumes "unique_on h t key" and "unique_ok h t (rows @ [new_row h' t' entry])" and "v \<noteq> PNone"
    and "isinstance_int v \<or> \<not> is_number v"
    and "''id'' \<notin> set (keys entry)" and "getitem entry key = Inr v"
  shows "found (affinity_of h' t') key v rows = []"
  using found_unique [OF assms(1-4), of "affinity_of h' t'"]
  by (simp add: found_snoc [OF assms(5,6,4)])

lemma rejected_found:
  assumes "unique_on h t key" and "unique_ok h t rows"
    and "\<not> unique_ok h t (rows @ [new_row h' t' entry])"
    and "v \<noteq> PNone" and "isinstance_int v \<or> \<not> is_number v"
    and "''id'' \<notin> set (keys entry)" and "getitem entry key = Inr v"
  shows "found (affinity_of h' t') key v rows \<noteq> []"
proof -
  from assms(2,3) new_row_field [OF assms(6,7), of h' t'] kept_not_None [OF assms(4)]
  obtain r where "r \<in> set rows" "field r key = kept (affinity_of h' t' key) v"
    unfolding unique_ok_on [OF assms(1)] by (auto simp: image_iff)
  then show ?thesis by (auto simp: found_def filter_empty_conv holds_kept [OF assms(4,5)])
qed

section \<open>The invariant of the race\<close>

lemma settled_update:
  "list_all (settled aff key v rows) phs \<Longrightarrow> settled aff key v rows ph \<Longrightarrow>
   list_all (settled aff key v rows) (phs[i := ph])"
  by (auto simp: list_all_iff dest: set_update_subset_insert [THEN subsetD])

lemma settled_fresh:
  "found aff key v rows = [] \<Longrightarrow> settled aff key v rows ph \<Longrightarrow> settled aff key v rows' ph"
  by (cases ph) (simp_all add: settled_def)

lemma inserted_unique_on [simp]: "unique_on (inserted t rows h) = unique_on h"
  by (simp add: unique_on_def fun_eq_iff)

text \<open>One step of one client keeps what every phase knows of the table.\<close>

lemma settled_step:
  assumes "map_of (st_tables h) t = Some rows" and "has_ids rows" and "unique_ok h t rows"
    and "unique_on h t key" and "name t" and "filter_key key" and "filter_val v" and "v \<noteq> PNone"
    and "isinstance_int v \<or> \<not> is_number v"
    and "wf_dict entry" and "''id'' \<notin> set (keys entry)" and "getitem entry key = Inr v"
    and "settled (affinity_of h t) key v rows ph"
    and "list_all (settled (affinity_of h t) key v rows) phs"
    and "au_step mem_driver t entry key (ph, mem_db h) = (ph', s)"
  shows "\<exists>rows'. map_of (st_tables (db_handle s)) t = Some rows' \<and> has_ids rows' \<and>
           unique_ok (db_handle s) t rows' \<and> unique_on (db_handle s) t key \<and>
           settled (affinity_of (db_handle s) t) key v rows' ph' \<and>
           list_all (settled (affinity_of (db_handle s) t) key v rows') phs"
proof -
  let ?rows' = "rows @ [new_row h t entry]"
  have db: "db_sqlite (mem_db h) = Some True" "map_of (st_tables (db_handle (mem_db h))) t = Some rows"
    using assms(1) by simp_all
  note st = au_step_mem [OF db assms(2,5,10,11,12,6,7), unfolded mem_db_fields]
  show ?thesis
  proof (cases ph)
    case P_lookup
    with st(1) assms show ?thesis by (auto simp: settled_def)
  next
    case P_relookup
    with st(3) assms show ?thesis by (auto simp: settled_def)
  next
    case (P_done r)
    with assms show ?thesis by auto
  next
    case P_insert
    show ?thesis
    proof (cases "unique_ok h t ?rows'")
      case False
      from rejected_found [OF assms(4,3) False assms(8,9,11,12)] P_insert st(2) assms False
      show ?thesis by (auto simp: settled_def)
    next
      case True
      note fresh = stored_blocks [OF assms(4) True assms(8,9,11,12)]
      from assms(14) have "list_all (settled (affinity_of h t) key v ?rows') phs"
        by (auto simp: list_all_iff intro: settled_fresh [OF fresh])
      moreover from assms(15) have "s = mem_db (inserted t ?rows' h)" "ph' = P_relookup"
        unfolding P_insert st(2) by (simp_all add: True)
      ultimately show ?thesis
        using True assms(1,4) has_ids_snoc [OF assms(2,11), of h t]
        by (simp add: settled_def found_snoc [OF assms(11,12,9)])
    qed
  qed
qed

lemma race_inv_step:
  assumes "same_job t key v jobs" and "race t key jobs c c'" and "race_inv t key v c"
  shows "race_inv t key v c'"
  using assms(2)
proof cases
  case (step i phs h ph s)
  from assms(3) step(1) obtain rows where rows: "map_of (st_tables h) t = Some rows"
    "has_ids rows" "unique_ok h t rows" "list_all (settled (affinity_of h t) key v rows) phs"
    "unique_on h t key"
    by (auto simp: race_inv_def split: option.splits)
  from rows(4) step(3,4) have "settled (affinity_of h t) key v rows (phs ! i)"
    by (simp add: list_all_length)
  from settled_step [OF rows(1-3,5) _ _ _ _ _ _ _ _ this rows(4) step(6)] assms(1) step(3)
  obtain rows' where "map_of (st_tables (db_handle s)) t = Some rows'" "has_ids rows'"
    "unique_ok (db_handle s) t rows'" "unique_on (db_handle s) t key"
    "settled (affinity_of (db_handle s) t) key v rows' ph"
    "list_all (settled (affinity_of (db_handle s) t) key v rows') phs"
    by (auto simp: same_job_def list_all_length)
  with step(2) show ?thesis by (simp add: race_inv_def settled_update)
qed

lemma race_inv_reach:
  assumes "same_job t key v jobs" and "(race t key jobs)\<^sup>*\<^sup>* c c'" and "race_inv t key v c"
  shows "race_inv t key v c'"
  using assms(2,3) by (induction rule: rtranclp_induct) (auto intro: race_inv_step [OF assms(1)])

lemma race_inv_start:
  "unique_on h t key \<Longrightarrow> map_of (st_tables h) t = Some rows \<Longrightarrow> has_ids rows \<Longrightarrow>
   unique_ok h t rows \<Longrightarrow> race_inv t key v (h, replicate n P_lookup)"
  by (simp add: race_inv_def settled_def list_all_iff)

text \<open>What the invariant says of the clients that have their result.\<close>

lemma race_inv_done:
  assumes "race_inv t key v (h, phs)" and "v \<noteq> PNone" and "isinstance_int v \<or> \<not> is_number v"
  shows "\<exists>rows. map_of (st_tables h) t = Some rows \<and>
           length (found (affinity_of h t) key v rows) \<le> 1 \<and>
           (\<forall>r. P_done r \<in> set phs \<longrightarrow>
              (\<exists>row. found (affinity_of h t) key v rows = [row] \<and>
                     r = Inr (IdScalar (field row ''id''))))"
proof -
  from assms(1) obtain rows where rows: "map_of (st_tables h) t = Some rows" "unique_ok h t rows"
    "unique_on h t key" "list_all (settled (affinity_of h t) key v rows) phs"
    by (auto simp: race_inv_def split: option.splits)
  note one = found_unique [OF rows(3,2) assms(2,3), of "affinity_of h t"]
  have "\<exists>row. found (affinity_of h t) key v rows = [row] \<and> r = Inr (IdScalar (field row ''id''))"
    if "P_done r \<in> set phs" for r
    using rows(4) that one
    by (cases "found (affinity_of h t) key v rows")
      (auto simp: list_all_iff settled_def id_shape_def)
  with rows(1) one show ?thesis by blast
qed

section \<open>Two clients that add bob\<close>

lemma race_bob:
  "sched ''person'' ''name'' [[(''name'', PStr ''bob'')], [(''name'', PStr ''bob'')]]
     [0, 1, 0, 1, 0, 1] (persons [] 1, [P_lookup, P_lookup]) =
   (persons [[(''id'', PInt 1), (''name'', PStr ''bob'')]] 2,
    [P_done (Inr (IdScalar (PInt 1))), P_done (Inr (IdScalar (PInt 1)))])"
  by code_simp

lemma same_job_bob [simp]:
  "same_job ''person'' ''name'' (PStr ''bob'') [[(''name'', PStr ''bob'')], [(''name'', PStr ''bob'')]]"
  by (simp add: same_job_def filter_val_def said_def getitem_def)

lemma unique_on_persons [simp]: "unique_on (persons rows n) ''person'' ''name''"
  by (simp add: unique_on_def persons_def)

lemmas race_bob_reach =
  sched_race [of "(persons [] 1, [P_lookup, P_lookup])"
    "[[(''name'', PStr ''bob'')], [(''name'', PStr ''bob'')]]" "''person''" "''name''"
    "[0, 1, 0, 1, 0, 1]", unfolded race_bob, simplified]

section \<open>The method and its steps\<close>

text \<open>
  C33. The three steps in sequence are the method: started in the first
  phase, three steps of \<open>au_step\<close> end in the last phase with the result of
  \<^verbatim>\<open>add_unique\<close> and leave the object as \<^verbatim>\<open>add_unique\<close> leaves it, for every
  driver, entry and key, on the paths that raise included.
\<close>

theorem au_steps_are_add_unique:
  "(au_step drv table entry key ^^ 3) (P_lookup, self) =
     (P_done (fst (add_unique drv table entry key self)), snd (add_unique drv table entry key self))"
  by (auto simp: eval_nat_numeral add_unique_def bind_def lift_def catch_def ret_apply raise_apply
        split: prod.splits sum.splits)

theorem au_steps_are_add_unique_witness:
  "(au_step mem_driver ''person'' [(''name'', PStr ''bob'')] ''name'' ^^ 3)
     (P_lookup, mem_db (persons [] 1)) =
   (P_done (Inr (IdScalar (PInt 1))),
    mem_db (persons [[(''id'', PInt 1), (''name'', PStr ''bob'')]] 2))"
  using au_steps_are_add_unique [of mem_driver "''person''" "[(''name'', PStr ''bob'')]" "''name''"
      "mem_db (persons [] 1)"]
    add_unique_mem [of "mem_db (persons [] 1)" "''person''" "[]"
      "[(''name'', PStr ''bob'')]" "''name''" "PStr ''bob''"]
  by (simp add: filter_val_def said_def has_ids_def getitem_def found_def new_row_def with_id_def
        kept_def lit_of_def cond_of_def same_def field_def id_shape_def del: au_step.simps)

section \<open>Agreement under a UNIQUE constraint\<close>

text \<open>
  C34. Clients that add the same value under a key whose column is the one
  UNIQUE column of the table agree, whatever the order of their steps: in
  every configuration they reach, at most one row has the value, and every
  client that has its result has the id of that one row.
\<close>

theorem race_agreement:
  assumes "same_job t key v jobs" and "unique_on h0 t key"
    and "map_of (st_tables h0) t = Some rows0" and "has_ids rows0" and "unique_ok h0 t rows0"
    and "(race t key jobs)\<^sup>*\<^sup>* (h0, replicate (length jobs) P_lookup) (h, phs)"
  shows "\<exists>rows. map_of (st_tables h) t = Some rows \<and>
           length (found (affinity_of h t) key v rows) \<le> 1 \<and>
           (\<forall>r. P_done r \<in> set phs \<longrightarrow>
              (\<exists>row. found (affinity_of h t) key v rows = [row] \<and>
                     r = Inr (IdScalar (field row ''id''))))"
  using race_inv_done [OF race_inv_reach [OF assms(1,6) race_inv_start [OF assms(2-5)]]] assms(1)
  by (simp add: same_job_def)

theorem race_agreement_witness:
  "(race ''person'' ''name'' [[(''name'', PStr ''bob'')], [(''name'', PStr ''bob'')]])\<^sup>*\<^sup>*
     (persons [] 1, [P_lookup, P_lookup])
     (persons [[(''id'', PInt 1), (''name'', PStr ''bob'')]] 2,
      [P_done (Inr (IdScalar (PInt 1))), P_done (Inr (IdScalar (PInt 1)))]) \<and>
   (\<exists>row. found (affinity_of (persons [[(''id'', PInt 1), (''name'', PStr ''bob'')]] 2) ''person'')
             ''name'' (PStr ''bob'') [[(''id'', PInt 1), (''name'', PStr ''bob'')]] = [row] \<and>
          PInt 1 = field row ''id'')"
  using race_agreement [of "''person''" "''name''" "PStr ''bob''"
      "[[(''name'', PStr ''bob'')], [(''name'', PStr ''bob'')]]" "persons [] 1" "[]"
      "persons [[(''id'', PInt 1), (''name'', PStr ''bob'')]] 2"
      "[P_done (Inr (IdScalar (PInt 1))), P_done (Inr (IdScalar (PInt 1)))]"]
    race_bob_reach
  by (simp add: has_ids_def numeral_2_eq_2)

section \<open>Every client gets its result\<close>

lemma done_iff: "steps_left ph = 0 \<longleftrightarrow> (\<exists>r. ph = P_done r)"
  by (cases ph) simp_all

lemma fair_done:
  assumes "length phs = length jobs" and "\<forall>i < length jobs. 3 \<le> count_list is i"
  shows "list_all (\<lambda>ph. steps_left ph = 0) (snd (sched table key jobs is (h, phs)))"
proof -
  have "steps_left (snd (sched table key jobs is (h, phs)) ! i) = 0" if "i < length jobs" for i
    using sched_steps_left [of "(h, phs)" jobs i table key "is"] steps_left_le_3 [of "phs ! i"]
      assms that by auto
  with assms(1) show ?thesis by (simp add: list_all_length)
qed

text \<open>
  C35. Under a schedule that gives every client three turns or more, with
  the key's column the one UNIQUE column of the table, every client ends
  with its result and all results are the id of one row, the only row of the
  table that has the value: no client waits for another and none is told of
  a row of its own.
\<close>

theorem race_fair_outcome:
  assumes "same_job t key v jobs" and "unique_on h0 t key"
    and "map_of (st_tables h0) t = Some rows0" and "has_ids rows0" and "unique_ok h0 t rows0"
    and "jobs \<noteq> []" and "\<forall>i < length jobs. 3 \<le> count_list is i"
  shows "\<exists>h rows row.
           sched t key jobs is (h0, replicate (length jobs) P_lookup) =
             (h, replicate (length jobs) (P_done (Inr (IdScalar (field row ''id''))))) \<and>
           map_of (st_tables h) t = Some rows \<and>
           found (affinity_of h t) key v rows = [row]"
proof -
  let ?c0 = "(h0, replicate (length jobs) P_lookup)"
  obtain h phs where c: "sched t key jobs is ?c0 = (h, phs)" by (cases "sched t key jobs is ?c0")
  from sched_race [of ?c0 jobs t key "is"] c
  have "(race t key jobs)\<^sup>*\<^sup>* ?c0 (h, phs)" by simp
  from race_inv_done [OF race_inv_reach [OF assms(1) this race_inv_start [OF assms(2-5)]]] assms(1)
  obtain rows where rows: "map_of (st_tables h) t = Some rows"
    "\<And>r. P_done r \<in> set phs \<Longrightarrow>
       \<exists>row. found (affinity_of h t) key v rows = [row] \<and> r = Inr (IdScalar (field row ''id''))"
    by (auto simp: same_job_def)
  from fair_done [OF _ assms(7), of "replicate (length jobs) P_lookup" t key h0] c
  have fin: "\<forall>ph \<in> set phs. \<exists>r. ph = P_done r" by (simp add: list_all_iff done_iff)
  from sched_length [of t key jobs "is" ?c0] c assms(6) have len: "length phs = length jobs" "phs \<noteq> []"
    by auto
  with fin obtain r where "P_done r \<in> set phs" by (cases phs) auto
  from rows(2) [OF this] obtain row where
    row: "found (affinity_of h t) key v rows = [row]" by blast
  with rows(2) fin have "\<forall>ph \<in> set phs. ph = P_done (Inr (IdScalar (field row ''id'')))"
    by fastforce
  then have "phs = replicate (length jobs) (P_done (Inr (IdScalar (field row ''id''))))"
    unfolding len(1) [symmetric] by (simp add: replicate_length_same)
  with c rows(1) row show ?thesis by blast
qed

theorem race_fair_outcome_witness:
  "\<exists>h rows row.
     sched ''person'' ''name'' [[(''name'', PStr ''bob'')], [(''name'', PStr ''bob'')]]
       [0, 1, 0, 1, 0, 1] (persons [] 1, replicate 2 P_lookup) =
       (h, replicate 2 (P_done (Inr (IdScalar (field row ''id''))))) \<and>
     map_of (st_tables h) ''person'' = Some rows \<and>
     found (affinity_of h ''person'') ''name'' (PStr ''bob'') rows = [row]"
  using race_fair_outcome [of "''person''" "''name''" "PStr ''bob''"
      "[[(''name'', PStr ''bob'')], [(''name'', PStr ''bob'')]]" "persons [] 1" "[]"
      "[0, 1, 0, 1, 0, 1]"]
  by (simp add: has_ids_def less_Suc_eq numeral_2_eq_2)



section \<open>Without the constraint\<close>

lemma unique_ok_free [simp]: "st_unique h = [] \<Longrightarrow> unique_ok h t rows"
  by (simp add: unique_ok_def)

text \<open>
  C37. Without a UNIQUE constraint the lookup and the insert of two clients
  can interleave: when no row has the value and the clients take turns, both
  find no row, both insert, the table holds two new rows with the value, and
  each client gets the list of both ids instead of one id.
\<close>

theorem race_duplicates:
  assumes "same_job t key v [e0, e1]" and "map_of (st_tables h) t = Some rows" and "has_ids rows"
    and "found (affinity_of h t) key v rows = []" and "st_unique h = []"
  shows "sched t key [e0, e1] [0, 1, 0, 1, 0, 1] (h, [P_lookup, P_lookup]) =
     (inserted t (rows @ [new_row h t e0, new_row (inserted t (rows @ [new_row h t e0]) h) t e1])
        (inserted t (rows @ [new_row h t e0]) h),
      [P_done (Inr (IdList [PInt (st_next h), PInt (st_next h + 1)])),
       P_done (Inr (IdList [PInt (st_next h), PInt (st_next h + 1)]))])"
proof -
  let ?r0 = "new_row h t e0"
  let ?h1 = "inserted t (rows @ [?r0]) h"
  let ?r1 = "new_row ?h1 t e1"
  let ?h2 = "inserted t (rows @ [?r0, ?r1]) ?h1"
  from assms(1) have job: "name t" "filter_key key" "filter_val v" "isinstance_int v \<or> \<not> is_number v"
    "wf_dict e0" "''id'' \<notin> set (keys e0)" "getitem e0 key = Inr v"
    "wf_dict e1" "''id'' \<notin> set (keys e1)" "getitem e1 key = Inr v"
    by (simp_all add: same_job_def)
  have t1: "map_of (st_tables ?h1) t = Some (rows @ [?r0])"
    and t2: "map_of (st_tables ?h2) t = Some (rows @ [?r0, ?r1])"
    using assms(2) by simp_all
  have i1: "has_ids (rows @ [?r0])" by (rule has_ids_snoc [OF assms(3) job(6)])
  from has_ids_snoc [OF i1 job(9), of ?h1 t] have i2: "has_ids (rows @ [?r0, ?r1])" by simp
  have f2: "found (affinity_of h t) key v (rows @ [?r0, ?r1]) = [?r0, ?r1]"
    using found_snoc [OF job(6,7,4), of h t rows]
      found_snoc [OF job(9,10,4), of ?h1 t "rows @ [?r0]"] assms(4) by simp
  have ids: "field ?r0 ''id'' = PInt (st_next h)" "field ?r1 ''id'' = PInt (st_next h + 1)"
    using new_row_id [OF job(6), of h t] new_row_id [OF job(9), of ?h1 t] by (simp_all add: field_def)
  note a0 = au_step_mem [of "mem_db h" t rows e0 key v, unfolded mem_db_fields,
      OF refl assms(2,3) job(1,5,6,7,2,3)]
  note a1 = au_step_mem [of "mem_db h" t rows e1 key v, unfolded mem_db_fields,
      OF refl assms(2,3) job(1,8,9,10,2,3)]
  note b1 = au_step_mem [of "mem_db ?h1" t "rows @ [?r0]" e1 key v, unfolded mem_db_fields,
      OF refl t1 i1 job(1,8,9,10,2,3)]
  note c0 = au_step_mem [of "mem_db ?h2" t "rows @ [?r0, ?r1]" e0 key v, unfolded mem_db_fields,
      OF refl t2 i2 job(1,5,6,7,2,3)]
  note c1 = au_step_mem [of "mem_db ?h2" t "rows @ [?r0, ?r1]" e1 key v, unfolded mem_db_fields,
      OF refl t2 i2 job(1,8,9,10,2,3)]
  show ?thesis
    using assms(4,5)
    by (simp add: a0(1,2) a1(1) b1(2) c0(3) c1(3) f2 ids id_shape_def del: au_step.simps)
qed

theorem race_duplicates_witness:
  "sched ''person'' ''name'' [[(''name'', PStr ''bob'')], [(''name'', PStr ''bob'')]]
     [0, 1, 0, 1, 0, 1]
     (\<lparr>st_tables = [(''person'', [])], st_types = [], st_unique = [], st_next = 1\<rparr>,
      [P_lookup, P_lookup]) =
   (\<lparr>st_tables = [(''person'', [[(''id'', PInt 1), (''name'', PStr ''bob'')],
                                  [(''id'', PInt 2), (''name'', PStr ''bob'')]])],
      st_types = [], st_unique = [], st_next = 3\<rparr>,
    [P_done (Inr (IdList [PInt 1, PInt 2])), P_done (Inr (IdList [PInt 1, PInt 2]))])"
  using race_duplicates [of "''person''" "''name''" "PStr ''bob''" "[(''name'', PStr ''bob'')]"
      "[(''name'', PStr ''bob'')]"
      "\<lparr>st_tables = [(''person'', [])], st_types = [], st_unique = [], st_next = 1\<rparr>" "[]"]
  by (simp add: has_ids_def found_def new_row_def inserted_def set_table_def with_id_def
        kept_def lit_of_def affinity_of_def)

end
