(* ===== verification/Spec2Isabelle.thy ===== *)
theory Spec2Isabelle
  imports Accessors SqlReader MemStore Race UriSplit
begin

text \<open>
  A verification development for \<^verbatim>\<open>kbr.dbase\<close>
  (\<^verbatim>\<open>src/kbr/dbase/__init__.py\<close>), a thin access layer that builds SQL
  statements as text from keyword arguments and dictionaries and hands them to
  a database driver.

  \<^bold>\<open>The program.\<close> One class, \<^verbatim>\<open>DB\<close>. Its methods fall into four groups:
  the connection and the one primitive \<^verbatim>\<open>do\<close> that sends a statement; the
  escaper \<^verbatim>\<open>escape_string\<close>; the statement builders (\<^verbatim>\<open>get\<close>, \<^verbatim>\<open>add\<close>,
  \<^verbatim>\<open>add_bulk\<close>, \<^verbatim>\<open>update\<close>, \<^verbatim>\<open>delete\<close>, \<^verbatim>\<open>purge\<close>, \<^verbatim>\<open>drop_table\<close>,
  \<^verbatim>\<open>drop_tables\<close>, \<^verbatim>\<open>from_file\<close>); and the accessors built on \<^verbatim>\<open>get\<close>
  (\<^verbatim>\<open>get_single\<close>, \<^verbatim>\<open>get_by_id\<close>, \<^verbatim>\<open>get_id\<close>, \<^verbatim>\<open>add_unique\<close>). Every one of
  these ends in \<^verbatim>\<open>do\<close>, and the only state of the object that a method
  changes is the state of the driver behind \<^verbatim>\<open>self._db\<close>. Beside them
  stands \<^verbatim>\<open>uri_split\<close>, which takes a URI apart and calls no driver.

  \<^bold>\<open>The theories\<close>, in the order of their imports.
  \<^item> \<open>Prelude\<close>: exceptions as values (\<open>pyerr\<close>, the result type \<open>res\<close>,
    \<open>bind_res\<close>, \<open>mapM_res\<close> for a loop that stops at the first exception) and
    the Python string primitives the module calls (\<open>str_join\<close>, \<open>re_sub\<close>,
    \<open>startswith\<close>, \<open>str_int\<close> with its inverse \<open>parse_int\<close>).
  \<^item> \<open>PyValue\<close>: the dynamically typed values (\<open>pyval\<close>), their rendering
    \<open>py_str\<close>, the tests \<open>isinstance_int\<close> and \<open>is_number\<close>, and insertion-ordered
    dictionaries as association lists (\<open>pydict\<close>, \<open>getitem\<close>).
  \<^item> \<open>Driver\<close>: the driver as a record of operations over an arbitrary handle
    type (\<open>driver\<close>), the object as the record \<open>DB\<close> of its four attributes,
    methods as state-passing functions with exceptions (\<open>dbm\<close> with \<open>ret\<close>,
    \<open>raise\<close>, \<open>bind\<close>, \<open>catch\<close>), and \<^verbatim>\<open>__init__\<close> (\<open>DB_init\<close>), \<^verbatim>\<open>close\<close>,
    \<^verbatim>\<open>table_names\<close>, \<^verbatim>\<open>table_exist\<close>, \<^verbatim>\<open>do\<close>, \<^verbatim>\<open>get_as_dict\<close>, \<^verbatim>\<open>count\<close>. The
    scripted driver (\<open>script_driver\<close>) logs the statements it is sent and
    answers them from a list of replies; the concrete instances of the
    theorems run on it.
  \<^item> \<open>Escaper\<close>: \<^verbatim>\<open>escape_string\<close>, and the reading side it must agree with:
    the lexer of an SQL string literal (\<open>sql_literal\<close>) and the driver's removal
    of a backslash before a colon (\<open>unescape_colon\<close>).
  \<^item> \<open>QueryBuilder\<close>: for each builder the statement text as a function
    (\<open>get_sql\<close> with \<open>get_filter\<close>, \<open>add_sql\<close>, \<open>add_bulk_sql\<close> with
    \<open>add_bulk_row\<close>, \<open>update_sql\<close> with \<open>update_item\<close>, \<open>delete_sql\<close>) and the
    method that sends it; the binding of keyword arguments to the parameters
    of \<^verbatim>\<open>get\<close> (\<open>call_get\<close>); \<^verbatim>\<open>drop_tables\<close> and \<^verbatim>\<open>from_file\<close> as loops
    (\<open>for_each\<close>) over table names and over the commands of a file
    (\<open>file_commands\<close>).
  \<^item> \<open>Accessors\<close>: \<^verbatim>\<open>get_single\<close>, \<^verbatim>\<open>get_by_id\<close>, \<^verbatim>\<open>get_id\<close>, \<^verbatim>\<open>add_unique\<close>,
    with the result of \<^verbatim>\<open>get_id\<close> as the datatype \<open>id_result\<close>.
  \<^item> \<open>SqlSyntax\<close>: the statements as abstract syntax (\<open>stmt\<close> with \<open>cond\<close> and
    \<open>lit\<close>), the text of a statement (\<open>render\<close>), and for each builder the
    statement its arguments denote (\<open>get_stmt\<close>, \<open>add_stmt\<close>, \<open>add_bulk_stmt\<close>,
    \<open>update_stmt\<close>); each builder is shown to write the text of that
    statement.
  \<^item> \<open>SqlReader\<close>: the reading side. A lexer (\<open>lex\<close>) into words, string
    literals and punctuation, a parser (\<open>parse\<close>) of the six statements, and
    \<open>read_sql\<close>, their composition. For a well-formed statement (\<open>wf_stmt\<close>)
    \<open>read_sql\<close> of its text is the statement, also after the driver has
    removed the backslashes that escape colons (\<open>unescape_colon\<close>). The
    filters of a SELECT are written without escapes, so the database hears
    them without the backslash of any backslash-colon pair (\<open>heard\<close>). The
    keywords are read in the spelling the builders use.
  \<^item> \<open>MemStore\<close>: a database in memory behind the driver interface
    (\<open>mem_driver\<close>). Its state is the record \<open>store\<close> (tables of rows, the
    declared affinity of columns, UNIQUE constraints, the next automatic
    id); its query reads the text with \<open>read_sql\<close> and executes the
    statement (\<open>exec\<close>). Values follow sqlite: a value stored in a column
    and a literal compared with it are converted by the column's affinity
    (\<open>coerce\<close>), and two values are equal when neither is NULL and they
    are the same value (\<open>same\<close>), so an integer never equals a text.
    \<^verbatim>\<open>ORDER BY\<close> is refused.
  \<^item> \<open>Race\<close>: \<^verbatim>\<open>add_unique\<close> cut at its three calls of the driver into a
    machine of phases (\<open>phase\<close>, \<open>au_step\<close>), and clients that take these
    steps in any order on one database in memory: the step relation \<open>race\<close>
    and, for a given schedule, the function \<open>sched\<close>.
  \<^item> \<open>UriSplit\<close>: \<^verbatim>\<open>uri_split\<close>, with \<^verbatim>\<open>re.match\<close> for an expression made of
    greedy groups and literal text (\<open>re_match\<close>): a group takes the longest
    run after which the rest still matches.
  \<^item> This theory: the public methods as a datatype of calls (\<open>db_call\<close>), their
    dispatch (\<open>call\<close>), a client as a list of calls (\<open>run\<close>), and the objects a
    client can reach from the constructor (\<open>reachable\<close>).

  \<^bold>\<open>What is shown.\<close>
  \<^item> Escaper: on sqlite a text is written as a literal that reads back as
    that text, whatever it holds; a number is written as a text free of
    quotes, blanks and semicolons; on a connection that is not sqlite the
    attribute \<^verbatim>\<open>_sqlite\<close> is unset and every text fails.
  \<^item> Builders: the shape of each statement (order of keys and literals,
    which keys an UPDATE assigns), the errors of the guards, the guard of
    \<^verbatim>\<open>update\<close> that cannot fire, the round trip of the filter values of
    \<^verbatim>\<open>get\<close> and of the id of \<^verbatim>\<open>delete\<close>, the schema check of \<^verbatim>\<open>add_bulk\<close>,
    and what \<^verbatim>\<open>drop_tables\<close> and \<^verbatim>\<open>from_file\<close> have sent when they stop.
  \<^item> Accessors: the result of \<^verbatim>\<open>get_single\<close> and \<^verbatim>\<open>get_id\<close> by the number of
    rows, and the three paths of \<^verbatim>\<open>add_unique\<close>: found, inserted, and insert
    failed with the error dropped.
  \<^item> On the database in memory: \<^verbatim>\<open>get\<close> with one filter returns the rows
    that satisfy it; what \<^verbatim>\<open>add\<close> stored is found by \<^verbatim>\<open>get\<close>, and
    \<^verbatim>\<open>add_unique\<close> is idempotent, for the values that \<^verbatim>\<open>add\<close> and \<^verbatim>\<open>get\<close>
    write alike (ints, bools, None, texts that are not numbers and hold no
    backslash before a colon); a text that reads as an integer is kept
    altered by a TEXT column and \<^verbatim>\<open>add_unique\<close> returns None for it after
    storing it; a text with a backslash before a colon is stored whole and
    looked for without the backslash, so \<^verbatim>\<open>get\<close> does not find the row
    \<^verbatim>\<open>add\<close> stored; \<^verbatim>\<open>update\<close> without conditions is refused as a syntax
    error.
  \<^item> Concurrency: three steps of \<open>au_step\<close> are \<^verbatim>\<open>add_unique\<close>; clients that
    add the same value agree on one row under every interleaving when the
    key's column is UNIQUE, every client ends with that row's id under a
    fair schedule, the race is well-founded, and without the constraint
    two clients store two rows.
  \<^item> \<^verbatim>\<open>uri_split\<close> returns the five parts of a URI with user and password
    and raises \<^verbatim>\<open>AttributeError\<close> on every URI without them, among them the
    sqlite URIs.
  \<^item> Invariant: \<open>DB_wf\<close> relates the attributes as \<^verbatim>\<open>__init__\<close> sets them;
    every method is a \<open>frame\<close> (it changes nothing of the object but the
    driver handle), so every reachable object is well-formed and keeps its
    URI.

  \<^bold>\<open>Bounds.\<close> No fuel and no bound is used: every function of the model is
  total and terminates by structural recursion or a measure. Integers are
  unbounded, as in Python. A client of the race makes at most three calls of
  the driver (\<open>steps_left\<close>), which is the length of \<^verbatim>\<open>add_unique\<close>.

  \<^bold>\<open>Not modelled.\<close> The driver library itself (the theorems on the builders
  and accessors hold for every driver; the scripted driver and the database
  in memory are two instances), bind parameters of the driver (a colon that
  \<^verbatim>\<open>get\<close> leaves unescaped is taken as text), \<^verbatim>\<open>ORDER BY\<close> and the
  arithmetic of reals in the database (a real is the text of its literal),
  statements other than the six the builders write (the reader refuses
  them, so a refusal by the model database means "not a statement of the
  builders"), regular expressions other than the form \<^verbatim>\<open>uri_split\<close> uses, the file
  system beyond a map from names to contents, and logging. \<open>is_number\<close>
  belongs to \<^verbatim>\<open>kbr.type_utils\<close>, which is not part of the sources; it is
  modelled as the recogniser of decimal literals, which is narrower than a
  test by \<^verbatim>\<open>float()\<close> (surrounding blanks, \<^verbatim>\<open>inf\<close> and \<^verbatim>\<open>nan\<close> as text
  are not numbers here). The guard of \<^verbatim>\<open>update\<close> compares a dictionary
  with the empty list; a caller that passes a list is outside the model.
  \<^verbatim>\<open>str.strip\<close> removes the six ASCII blanks. Characters are bytes.
\<close>

section \<open>The public methods as calls\<close>

datatype db_call =
    Close
  | UriSplit "string option"
  | TableNames
  | TableExist string
  | DropTable string
  | DropTables
  | FromFile string
  | Do string
  | GetAsDict string
  | Count string
  | Get string pydict
  | GetSingle string pydict
  | GetAll string pyval
  | GetById string pyval
  | GetId string pydict
  | Add string pydict
  | AddUnique string pydict string
  | AddBulk string "pydict list"
  | Update string pydict pydict
  | Delete string pyval
  | Purge string

datatype db_value =
    VNone
  | VNames "string list"
  | VBool bool
  | VRows "row list"
  | VCount nat
  | VRow "row option"
  | VId id_result
  | VDict pydict

definition returning :: "('a \<Rightarrow> db_value) \<Rightarrow> ('h, 'a) dbm \<Rightarrow> ('h, db_value) dbm" where
  "returning con m = bind m (\<lambda>x. ret (con x))"

fun call :: "'h driver \<Rightarrow> (string \<Rightarrow> string option) \<Rightarrow> db_call \<Rightarrow> ('h, db_value) dbm" where
  "call drv fs Close = returning (\<lambda>_. VNone) (close drv)"
| "call drv fs (UriSplit uri) = returning VDict (uri_split uri)"
| "call drv fs TableNames = returning VNames (table_names drv)"
| "call drv fs (TableExist table) = returning VBool (table_exist drv table)"
| "call drv fs (DropTable table) = returning (\<lambda>_. VNone) (drop_table drv table)"
| "call drv fs DropTables = returning (\<lambda>_. VNone) (drop_tables drv)"
| "call drv fs (FromFile filename) = returning (\<lambda>_. VNone) (from_file drv fs filename)"
| "call drv fs (Do sql) = returning VRows (do drv sql)"
| "call drv fs (GetAsDict sql) = returning VRows (get_as_dict drv sql)"
| "call drv fs (Count sql) = returning VCount (count drv sql)"
| "call drv fs (Get table kw) = returning VRows (call_get drv table kw)"
| "call drv fs (GetSingle table kw) = returning VRow (get_single drv table kw)"
| "call drv fs (GetAll table order) = returning VRows (get_all drv table order)"
| "call drv fs (GetById table v) = returning VRow (get_by_id drv table v)"
| "call drv fs (GetId table kw) = returning VId (get_id drv table kw)"
| "call drv fs (Add table entry) = returning (\<lambda>_. VNone) (add drv table entry)"
| "call drv fs (AddUnique table entry key) = returning VId (add_unique drv table entry key)"
| "call drv fs (AddBulk table entries) = returning (\<lambda>_. VNone) (add_bulk drv table entries)"
| "call drv fs (Update table entry conditions) =
     returning (\<lambda>_. VNone) (update drv table entry conditions)"
| "call drv fs (Delete table idv) = returning (\<lambda>_. VNone) (delete drv table idv)"
| "call drv fs (Purge table) = returning (\<lambda>_. VNone) (purge drv table)"

text \<open>
  A client calls methods one after the other and sees the value or the
  exception of each call; an exception does not end the object.
\<close>

fun run :: "'h driver \<Rightarrow> (string \<Rightarrow> string option) \<Rightarrow> db_call list \<Rightarrow> 'h DB \<Rightarrow>
    db_value res list \<times> 'h DB" where
  "run drv fs [] self = ([], self)"
| "run drv fs (c # cs) self =
     (case call drv fs c self of (r, self') \<Rightarrow>
        (case run drv fs cs self' of (rs, self'') \<Rightarrow> (r # rs, self'')))"

inductive reachable :: "'h driver \<Rightarrow> (string \<Rightarrow> string option) \<Rightarrow> string \<Rightarrow> 'h DB \<Rightarrow> bool"
  for drv fs uri where
  init: "DB_init drv uri = Inr self \<Longrightarrow> reachable drv fs uri self"
| step: "reachable drv fs uri self \<Longrightarrow> call drv fs c self = (r, self') \<Longrightarrow>
         reachable drv fs uri self'"

section \<open>Lemmas on calls and runs\<close>

lemma frame_returning [frame_intros]: "frame m \<Longrightarrow> frame (returning con m)"
  unfolding returning_def by (intro frame_intros)

lemma frame_call: "frame (call drv fs c)"
  by (cases c) (simp_all add: frame_intros)

lemma run_Cons:
  "fst (run drv fs (c # cs) self) =
     fst (call drv fs c self) # fst (run drv fs cs (snd (call drv fs c self)))"
  "snd (run drv fs (c # cs) self) = snd (run drv fs cs (snd (call drv fs c self)))"
  by (simp_all split: prod.splits)

lemma run_snoc: "snd (run drv fs (cs @ [c]) self) = snd (call drv fs c (snd (run drv fs cs self)))"
  by (induction cs arbitrary: self) (simp_all add: run_Cons del: run.simps(2))

lemma length_run: "length (fst (run drv fs cs self)) = length cs"
  by (induction cs arbitrary: self) (simp_all add: run_Cons del: run.simps(2))

lemma reachable_run:
  "reachable drv fs uri self \<Longrightarrow> reachable drv fs uri (snd (run drv fs cs self))"
proof (induction cs arbitrary: self)
  case Nil
  then show ?case by simp
next
  case (Cons c cs)
  from Cons.prems have "reachable drv fs uri (snd (call drv fs c self))"
    by (rule reachable.step) (rule prod.collapse [symmetric])
  from Cons.IH [OF this] show ?case by (simp only: run_Cons)
qed

text \<open>The reachable objects are the objects at the end of a run.\<close>

lemma reachable_iff_run:
  "reachable drv fs uri self \<longleftrightarrow>
     (\<exists>s0 cs. DB_init drv uri = Inr s0 \<and> self = snd (run drv fs cs s0))"
proof
  assume "reachable drv fs uri self"
  then show "\<exists>s0 cs. DB_init drv uri = Inr s0 \<and> self = snd (run drv fs cs s0)"
  proof induction
    case (init self)
    then show ?case by (intro exI [of _ self] exI [of _ "[]"]) simp
  next
    case (step self c r self')
    then obtain s0 cs where "DB_init drv uri = Inr s0" "self = snd (run drv fs cs s0)" by blast
    with step.hyps(2) show ?case
      by (intro exI [of _ s0] exI [of _ "cs @ [c]"]) (simp add: run_snoc)
  qed
next
  assume "\<exists>s0 cs. DB_init drv uri = Inr s0 \<and> self = snd (run drv fs cs s0)"
  then show "reachable drv fs uri self"
    by (auto intro: reachable_run reachable.init)
qed

section \<open>The invariant of the object\<close>

text \<open>
  C11. Every object a client can reach from the constructor by calling
  public methods, in any order and whatever the driver answers or raises, is
  well-formed: \<^verbatim>\<open>_fetchall\<close> and \<^verbatim>\<open>_sqlite\<close> are as \<^verbatim>\<open>__init__\<close> set them from
  the URI, and the URI is the one the object was built with.
\<close>

theorem reachable_DB_wf:
  assumes "reachable drv fs uri self"
  shows "DB_wf self \<and> db_uri self = uri"
  using assms
proof induction
  case (init self)
  then show ?case by (auto simp: DB_init_wf DB_init_def bind_res_eq_Inr)
next
  case (step self c r self')
  from frame_fields [OF frame_call step.hyps(2)] step.IH show ?case
    by (simp add: DB_wf_def)
qed

theorem reachable_DB_wf_witness:
  "DB_wf (snd (run script_driver Map.empty [Purge ''t'', Close] (script_db ''sqlite:///t.db'' []))) \<and>
   db_uri (snd (run script_driver Map.empty [Purge ''t'', Close] (script_db ''sqlite:///t.db'' [])))
     = ''sqlite:///t.db''"
  using reachable_DB_wf [OF reachable_run [OF reachable.init, of script_driver "''sqlite:///t.db''"
     "script_db ''sqlite:///t.db'' []" Map.empty "[Purge ''t'', Close]"]]
  by (simp add: DB_init_def script_driver_def script_db_def)

end
